theory Spec2Isabelle
  imports Main
begin

section \<open>Strings and characters\<close>

text \<open>
  JavaScript strings are modelled as \<open>string\<close>. Every pattern of the program is written
  in ASCII, so case folding only ever has to identify the letters \<open>A\<close>--\<open>Z\<close> with
  \<open>a\<close>--\<open>z\<close>; all other characters are left alone by \<open>toLowerChar\<close> and
  \<open>toUpperChar\<close>.
\<close>

definition upperAZ :: string where
  "upperAZ = ''ABCDEFGHIJKLMNOPQRSTUVWXYZ''"

definition lowerAZ :: string where
  "lowerAZ = ''abcdefghijklmnopqrstuvwxyz''"

definition digits :: string where
  "digits = ''0123456789''"

definition toLowerChar :: "char \<Rightarrow> char" where
  "toLowerChar c = (case map_of (zip upperAZ lowerAZ) c of Some l \<Rightarrow> l | None \<Rightarrow> c)"

definition toUpperChar :: "char \<Rightarrow> char" where
  "toUpperChar c = (case map_of (zip lowerAZ upperAZ) c of Some u \<Rightarrow> u | None \<Rightarrow> c)"

text \<open>\<open>String.prototype.toLowerCase\<close>.\<close>

definition toLowerCase :: "string \<Rightarrow> string" where
  "toLowerCase s = map toLowerChar s"

text \<open>The class \<open>\w\<close>, that is \<open>[A-Za-z0-9_]\<close>.\<close>

definition isWordChar :: "char \<Rightarrow> bool" where
  "isWordChar c = (c \<in> set (upperAZ @ lowerAZ @ digits @ ''_''))"

text \<open>The characters that \<open>.\<close> does not match (line feed and carriage return).\<close>

definition isLineTerminator :: "char \<Rightarrow> bool" where
  "isLineTerminator c = (c = CHR 0x0A \<or> c = CHR 0x0D)"

text \<open>\<open>String.prototype.includes\<close> and \<open>String.prototype.endsWith\<close>.\<close>

fun startsWith :: "string \<Rightarrow> string \<Rightarrow> bool" where
  "startsWith s [] = True"
| "startsWith [] (p # ps) = False"
| "startsWith (c # s) (p # ps) = (c = p \<and> startsWith s ps)"

fun includes_str :: "string \<Rightarrow> string \<Rightarrow> bool" where
  "includes_str [] p = (p = [])"
| "includes_str (c # s) p = (startsWith (c # s) p \<or> includes_str s p)"

definition endsWith :: "string \<Rightarrow> string \<Rightarrow> bool" where
  "endsWith s p = startsWith (rev s) (rev p)"

section \<open>Regular expressions\<close>

text \<open>
  The regular expressions of the program are values of \<open>re\<close>, one constructor per
  construct of the pattern text: a literal character, \<open>.\<close>, a character class, the empty
  pattern, concatenation, \<open>|\<close>, \<open>?\<close>, \<open>+\<close>, a capture group and the assertion \<open>$\<close>.
  \<open>rematch\<close> is a backtracking matcher: it returns every way of matching a prefix of the
  input as the pair of the remaining input and the captures, in the order in which a
  backtracking engine tries them (left alternative first, greedy quantifiers longest first).
  The flag \<open>ic\<close> is the \<open>i\<close> flag of the pattern.
\<close>

datatype citem = COne char | CWord

datatype re =
    Chr char
  | AnyChar
  | Class "citem list"
  | Eps
  | Eol
  | Seq re re
  | Alt re re
  | Opt re
  | Plus re
  | Grp nat re

type_synonym caps = "(nat \<times> string) list"

definition chrMatches :: "bool \<Rightarrow> char \<Rightarrow> char \<Rightarrow> bool" where
  "chrMatches ic a c = (if ic then toUpperChar a = toUpperChar c else a = c)"

fun citemMatches :: "bool \<Rightarrow> citem \<Rightarrow> char \<Rightarrow> bool" where
  "citemMatches ic (COne a) c = chrMatches ic a c"
| "citemMatches ic CWord c = isWordChar c"

definition classMatches :: "bool \<Rightarrow> citem list \<Rightarrow> char \<Rightarrow> bool" where
  "classMatches ic items c = list_ex (\<lambda>i. citemMatches ic i c) items"

function (sequential) rematch :: "bool \<Rightarrow> re \<Rightarrow> string \<Rightarrow> caps \<Rightarrow> (string \<times> caps) list" where
  "rematch ic (Chr a) [] cs = []"
| "rematch ic (Chr a) (c # s) cs = (if chrMatches ic a c then [(s, cs)] else [])"
| "rematch ic AnyChar [] cs = []"
| "rematch ic AnyChar (c # s) cs = (if isLineTerminator c then [] else [(s, cs)])"
| "rematch ic (Class items) [] cs = []"
| "rematch ic (Class items) (c # s) cs = (if classMatches ic items c then [(s, cs)] else [])"
| "rematch ic Eps s cs = [(s, cs)]"
| "rematch ic Eol s cs = (if s = [] then [(s, cs)] else [])"
| "rematch ic (Seq r1 r2) s cs =
     concat (map (\<lambda>(s1, cs1). rematch ic r2 s1 cs1) (rematch ic r1 s cs))"
| "rematch ic (Alt r1 r2) s cs = rematch ic r1 s cs @ rematch ic r2 s cs"
| "rematch ic (Opt r) s cs = rematch ic r s cs @ [(s, cs)]"
| "rematch ic (Plus r) s cs =
     concat (map (\<lambda>(s1, cs1).
        (if length s1 < length s then rematch ic (Plus r) s1 cs1 else []) @ [(s1, cs1)])
       (rematch ic r s cs))"
| "rematch ic (Grp n r) s cs =
     map (\<lambda>(s1, cs1). (s1, (n, take (length s - length s1) s) # cs1)) (rematch ic r s cs)"
  by pat_completeness auto
termination
  by (relation "measures [\<lambda>(ic, r, s, cs). size r, \<lambda>(ic, r, s, cs). length s]") auto

text \<open>
  The equation for \<open>+\<close> unfolds itself, so it is not a simplification rule.
\<close>

lemmas rematch_Plus = rematch.simps(12)

declare rematch.simps(12) [simp del]

text \<open>A literal piece of pattern text without metacharacters.\<close>

fun lit :: "string \<Rightarrow> re" where
  "lit [] = Eps"
| "lit (c # s) = Seq (Chr c) (lit s)"

text \<open>An alternation \<open>(a|b|c)\<close> of literals.\<close>

fun alts :: "string list \<Rightarrow> re" where
  "alts [] = Class []"
| "alts [p] = lit p"
| "alts (p # ps) = Alt (lit p) (alts ps)"

text \<open>
  Concatenation of the pieces of a pattern, in the order of the pattern text.
\<close>

fun seqs :: "re list \<Rightarrow> re" where
  "seqs [] = Eps"
| "seqs [r] = r"
| "seqs (r # rs) = Seq r (seqs rs)"

text \<open>
  \<open>execAt\<close> is one attempt of the engine at a fixed start position: the captures of the
  first successful way of matching, if any. A pattern whose text starts with \<open>^\<close> is
  only tried at the start of the input (\<open>execAnchored\<close>); any other pattern is tried
  at every position from left to right (\<open>regexTest\<close>, which is \<open>RegExp.prototype.test\<close>).
\<close>

definition execAt :: "bool \<Rightarrow> re \<Rightarrow> string \<Rightarrow> caps option" where
  "execAt ic r s = (case rematch ic r s [] of [] \<Rightarrow> None | (s1, cs) # _ \<Rightarrow> Some cs)"

definition execAnchored :: "bool \<Rightarrow> re \<Rightarrow> string \<Rightarrow> caps option" where
  "execAnchored ic r s = execAt ic r s"

fun suffixesOf :: "string \<Rightarrow> string list" where
  "suffixesOf [] = [[]]"
| "suffixesOf (c # s) = (c # s) # suffixesOf s"

definition regexTest :: "bool \<Rightarrow> re \<Rightarrow> string \<Rightarrow> bool" where
  "regexTest ic r s = list_ex (\<lambda>t. execAt ic r t \<noteq> None) (suffixesOf s)"

definition regexTestAnchored :: "bool \<Rightarrow> re \<Rightarrow> string \<Rightarrow> bool" where
  "regexTestAnchored ic r s = (execAnchored ic r s \<noteq> None)"

section \<open>Errors\<close>

text \<open>
  Every \<open>throw\<close> and every rejected promise of the program is a value of \<open>error\<close>;
  a function that can fail returns \<open>error + 'a\<close>. \<open>NeverSettles\<close> is not an error of
  the program: it stands for a promise that is neither resolved nor rejected, so that the
  run does not come back.
\<close>

datatype error =
    InvalidReference string
  | RepositoryNotFound
  | ReleaseNotFound
  | ApiError nat
  | MalformedResponse
  | RequestError
  | UnsupportedPlatform string
  | UnsupportedArchitecture string
  | NoMatchingAsset
  | TooManyRedirects
  | DownloadFailed nat
  | StreamError
  | WriteError
  | TypeError
  | FsError
  | ArchiveExtractionFailed
  | BinaryNotFound
  | ChildProcessError
  | NonZeroExit int
  | NeverSettles

section \<open>Reference parser\<close>

record repoRef =
  owner :: string
  repo :: string
  version :: string

text \<open>The class \<open>[\w.-]\<close>.\<close>

definition nameClass :: re where
  "nameClass = Class [CWord, COne CHR ''.'', COne CHR ''-'']"

text \<open>
  The pattern \<^verbatim>\<open>^github\.com\/([\w.-]+)\/([\w.-]+)(?:@([\w.-]+))?$\<close>.
\<close>

definition repoURLRegex :: re where
  "repoURLRegex =
     seqs [lit ''github.com/'', Grp 1 (Plus nameClass), Chr CHR ''/'', Grp 2 (Plus nameClass),
           Opt (Seq (Chr CHR ''@'') (Grp 3 (Plus nameClass))), Eol]"

text \<open>
  \<open>parseRepoURL\<close>: the destructuring \<open>[, owner, repo, version = "latest"]\<close> reads
  groups 1 to 3 of the match; a group that did not take part is \<open>undefined\<close>, which the
  default value replaces for the version. Groups 1 and 2 take part in every match.
\<close>

definition group :: "caps \<Rightarrow> nat \<Rightarrow> string option" where
  "group cs n = map_of cs n"

definition parseRepoURL :: "string \<Rightarrow> error + repoRef" where
  "parseRepoURL input =
     (case execAnchored False repoURLRegex input of
        None \<Rightarrow> Inl (InvalidReference input)
      | Some m \<Rightarrow>
          Inr \<lparr> owner = (case group m 1 of Some v \<Rightarrow> v | None \<Rightarrow> []),
                repo = (case group m 2 of Some v \<Rightarrow> v | None \<Rightarrow> []),
                version = (case group m 3 of Some v \<Rightarrow> v | None \<Rightarrow> ''latest'') \<rparr>)"

text \<open>
  The reference grammar in the words of the specification:
  \<^verbatim>\<open>github.com/<owner>/<repo>[@<version>]\<close> with each part a nonempty string over
  \<open>[\w.-]\<close>. \<open>refString\<close> writes a reference out, \<open>conforming\<close> is the set of
  strings of the grammar.
\<close>

definition nameChar :: "char \<Rightarrow> bool" where
  "nameChar c = (isWordChar c \<or> c = CHR ''.'' \<or> c = CHR ''-'')"

definition validName :: "string \<Rightarrow> bool" where
  "validName s = (s \<noteq> [] \<and> list_all nameChar s)"

definition refString :: "string \<Rightarrow> string \<Rightarrow> string option \<Rightarrow> string" where
  "refString ow rp v =
     ''github.com/'' @ ow @ ''/'' @ rp @ (case v of None \<Rightarrow> [] | Some x \<Rightarrow> ''@'' @ x)"

definition conforming :: "string \<Rightarrow> bool" where
  "conforming s =
     (\<exists>ow rp v. validName ow \<and> validName rp \<and> (case v of None \<Rightarrow> True | Some x \<Rightarrow> validName x)
        \<and> s = refString ow rp v)"

section \<open>Platform probe\<close>

record systemInfo =
  osName :: string
  archName :: string
  platform :: string

text \<open>\<open>getSystemInfo\<close>, as a function of \<open>os.platform()\<close> and \<open>os.arch()\<close>.\<close>

definition getSystemInfo :: "string \<Rightarrow> string \<Rightarrow> error + systemInfo" where
  "getSystemInfo plat arch =
     (case (if plat = ''darwin'' then Some ''Darwin''
            else if plat = ''linux'' then Some ''Linux''
            else if plat = ''win32'' then Some ''Windows''
            else None) of
        None \<Rightarrow> Inl (UnsupportedPlatform plat)
      | Some osn \<Rightarrow>
          (case (if arch = ''x64'' then Some ''x86_64''
                 else if arch = ''arm64'' then Some ''arm64''
                 else if arch = ''ia32'' then Some ''386''
                 else None) of
             None \<Rightarrow> Inl (UnsupportedArchitecture arch)
           | Some an \<Rightarrow> Inr \<lparr> osName = osn, archName = an, platform = plat \<rparr>))"

section \<open>Asset matcher\<close>

record asset =
  name :: string
  browser_download_url :: string

datatype archiveKind = IsTar | IsZip | IsBinary

record matchedAsset =
  matched :: asset
  kind :: archiveKind

text \<open>
  The patterns of \<open>findMatchingAsset\<close> are built with \<open>new RegExp\<close> from template
  strings. In a template string the escape \<^verbatim>\<open>\.\<close> is the character \<open>.\<close>, so every
  dot of the pattern text reaches the regular expression unescaped. \<open>patternText\<close> is
  the meaning of interpolated text as a pattern: a dot matches any character, every
  other character itself. (Repository names come from \<open>parseRepoURL\<close> and are strings
  over \<open>[\w.-]\<close>; the operating system and architecture names are letters, digits and
  \<open>_\<close>; so the dot is the only metacharacter that occurs.)
\<close>

fun patternText :: "string \<Rightarrow> re" where
  "patternText [] = Eps"
| "patternText (c # s) = Seq (if c = CHR ''.'' then AnyChar else Chr c) (patternText s)"

text \<open>
  \<open>osPattern\<close>: the text \<open>osName\<close>, or the group \<open>(Darwin|macOS)\<close> on macOS;
  \<open>n\<close> is the number of that group.
\<close>

definition osPattern :: "systemInfo \<Rightarrow> nat \<Rightarrow> re" where
  "osPattern sys n =
     (if platform sys = ''darwin'' then Grp n (Alt (patternText ''Darwin'') (patternText ''macOS''))
      else patternText (osName sys))"

definition osGroups :: "systemInfo \<Rightarrow> nat" where
  "osGroups sys = (if platform sys = ''darwin'' then 1 else 0)"

text \<open>\<^verbatim>\<open>${repo}_${osPattern}_${archName}(\.tar\.gz|\.tgz)$\<close> with flag \<open>i\<close>.\<close>

definition tarRegex :: "systemInfo \<Rightarrow> string \<Rightarrow> re" where
  "tarRegex sys rp =
     seqs [patternText rp, Chr CHR ''_'', osPattern sys 1, Chr CHR ''_'', patternText (archName sys),
           Grp (osGroups sys + 1) (Alt (patternText ''.tar.gz'') (patternText ''.tgz'')), Eol]"

text \<open>\<^verbatim>\<open>${repo}_${osPattern}_${archName}\.zip$\<close> with flag \<open>i\<close>.\<close>

definition zipRegex :: "systemInfo \<Rightarrow> string \<Rightarrow> re" where
  "zipRegex sys rp =
     seqs [patternText rp, Chr CHR ''_'', osPattern sys 1, Chr CHR ''_'', patternText (archName sys),
           patternText ''.zip'', Eol]"

text \<open>\<^verbatim>\<open>${repo}(_${osPattern}_${archName})?${binaryExt}$\<close> with flag \<open>i\<close>.\<close>

definition binaryRegex :: "systemInfo \<Rightarrow> string \<Rightarrow> re" where
  "binaryRegex sys rp =
     seqs [patternText rp,
           Opt (Grp 1 (seqs [Chr CHR ''_'', osPattern sys 2, Chr CHR ''_'', patternText (archName sys)])),
           patternText (if platform sys = ''win32'' then ''.exe'' else ''''), Eol]"

definition findMatchingAsset :: "asset list \<Rightarrow> systemInfo \<Rightarrow> string \<Rightarrow> error + matchedAsset" where
  "findMatchingAsset assets sys rp =
     (case find (\<lambda>a. regexTest True (tarRegex sys rp) (name a)) assets of
        Some tarAsset \<Rightarrow> Inr \<lparr> matched = tarAsset, kind = IsTar \<rparr>
      | None \<Rightarrow>
     (case find (\<lambda>a. regexTest True (zipRegex sys rp) (name a)) assets of
        Some zipAsset \<Rightarrow> Inr \<lparr> matched = zipAsset, kind = IsZip \<rparr>
      | None \<Rightarrow>
     (case find (\<lambda>a. regexTest True (binaryRegex sys rp) (name a)) assets of
        Some binaryAsset \<Rightarrow> Inr \<lparr> matched = binaryAsset, kind = IsBinary \<rparr>
      | None \<Rightarrow> Inl NoMatchingAsset)))"

text \<open>
  The asset names of the specification: \<^verbatim>\<open><repo>_<os>_<arch>\<close> followed by an extension,
  where \<open>os\<close> is the operating system name of the host or, on macOS, one of its two
  aliases.
\<close>

definition osAliases :: "systemInfo \<Rightarrow> string list" where
  "osAliases sys = (if platform sys = ''darwin'' then [''Darwin'', ''macOS''] else [osName sys])"

definition platformAssetName :: "systemInfo \<Rightarrow> string \<Rightarrow> string \<Rightarrow> string \<Rightarrow> string" where
  "platformAssetName sys rp osn ext = rp @ ''_'' @ osn @ ''_'' @ archName sys @ ext"

text \<open>
  \<open>consumes ic r s s'\<close>: the pattern \<open>r\<close> has a way of matching a prefix of \<open>s\<close> that
  leaves \<open>s'\<close>, whatever was captured before.
\<close>

definition consumes :: "bool \<Rightarrow> re \<Rightarrow> string \<Rightarrow> string \<Rightarrow> bool" where
  "consumes ic r s s' = (\<forall>m. \<exists>m'. (s', m') \<in> set (rematch ic r s m))"

section \<open>File system\<close>

text \<open>
  The file system is a tree. A regular file has contents and permission bits, \<open>Special\<close>
  is an entry that is neither a regular file nor a directory, and a directory lists its
  entries in the order in which \<open>readdir\<close> returns them. Directories are taken to be
  searchable. Paths are strings with \<open>/\<close> as separator.
\<close>

datatype node = File string nat | Special nat | Dir "(string \<times> node) list"

text \<open>The segments of a path: the nonempty pieces between separators.\<close>

function splitPath :: "string \<Rightarrow> string list" where
  "splitPath [] = []"
| "splitPath (c # s) =
     (if c = CHR ''/'' then splitPath s
      else takeWhile (\<lambda>x. x \<noteq> CHR ''/'') (c # s) # splitPath (dropWhile (\<lambda>x. x \<noteq> CHR ''/'') s))"
  by pat_completeness auto
termination
  by (relation "measure length") (auto simp: length_dropWhile_le less_Suc_eq_le)

text \<open>
  Resolution of \<open>.\<close> and \<open>..\<close> segments as \<open>path.normalize\<close> does it: \<open>st\<close> is the
  list of segments kept so far, \<open>ab\<close> says that the path is absolute (then \<open>..\<close> cannot
  climb above the root).
\<close>

fun resolveDots :: "bool \<Rightarrow> string list \<Rightarrow> string list \<Rightarrow> string list" where
  "resolveDots ab st [] = st"
| "resolveDots ab st (s # ss) =
     (if s = ''.'' then resolveDots ab st ss
      else if s = ''..'' then
        (if st \<noteq> [] \<and> last st \<noteq> ''..'' then resolveDots ab (butlast st) ss
         else if ab then resolveDots ab st ss
         else resolveDots ab (st @ [''..'']) ss)
      else resolveDots ab (st @ [s]) ss)"

fun joinSegments :: "string list \<Rightarrow> string" where
  "joinSegments [] = []"
| "joinSegments [s] = s"
| "joinSegments (s # ss) = s @ ''/'' @ joinSegments ss"

text \<open>\<open>path.normalize\<close> and \<open>path.join\<close> (of two arguments) on POSIX.\<close>

definition normalize :: "string \<Rightarrow> string" where
  "normalize p =
     (if p = [] then ''.''
      else
        (let isAbsolute = (hd p = CHR ''/'');
             trailingSeparator = (last p = CHR ''/'');
             body = joinSegments (resolveDots isAbsolute [] (splitPath p))
         in if body = [] then (if isAbsolute then ''/'' else if trailingSeparator then ''./'' else ''.'')
            else (if isAbsolute then ''/'' else []) @ body @ (if trailingSeparator then ''/'' else [])))"

definition path_join :: "string \<Rightarrow> string \<Rightarrow> string" where
  "path_join d f =
     (if d = [] \<and> f = [] then ''.''
      else if d = [] then normalize f
      else if f = [] then normalize d
      else normalize (d @ ''/'' @ f))"

text \<open>
  The names that lead from the root to the entry a path denotes. The working directory
  of the process is taken to be the root, and symbolic links are not modelled.
\<close>

definition pathParts :: "string \<Rightarrow> string list" where
  "pathParts p = resolveDots True [] (splitPath p)"

fun lookupParts :: "string list \<Rightarrow> node \<Rightarrow> node option" where
  "lookupParts [] n = Some n"
| "lookupParts (x # xs) n =
     (case n of
        Dir es \<Rightarrow> (case map_of es x of Some c \<Rightarrow> lookupParts xs c | None \<Rightarrow> None)
      | _ \<Rightarrow> None)"

text \<open>
  \<open>setEntry\<close> replaces the entry of a directory with the given name in place, appends
  it when there is none, or (with \<open>None\<close>) removes it.
\<close>

definition setEntry :: "(string \<times> node) list \<Rightarrow> string \<Rightarrow> node option \<Rightarrow> (string \<times> node) list" where
  "setEntry es x v =
     (case v of
        None \<Rightarrow> filter (\<lambda>e. fst e \<noteq> x) es
      | Some n \<Rightarrow>
          (if map_of es x = None then es @ [(x, n)]
           else map (\<lambda>e. if fst e = x then (x, n) else e) es))"

fun putParts :: "string list \<Rightarrow> node option \<Rightarrow> node \<Rightarrow> node option" where
  "putParts [] v n = v"
| "putParts [x] v n = (case n of Dir es \<Rightarrow> Some (Dir (setEntry es x v)) | _ \<Rightarrow> None)"
| "putParts (x # xs) v n =
     (case n of
        Dir es \<Rightarrow>
          (case map_of es x of
             Some c \<Rightarrow>
               (case putParts xs v c of
                  Some c' \<Rightarrow> Some (Dir (setEntry es x (Some c')))
                | None \<Rightarrow> None)
           | None \<Rightarrow> None)
      | _ \<Rightarrow> None)"

fun mkdirParts :: "string list \<Rightarrow> node \<Rightarrow> node option" where
  "mkdirParts [] n = (case n of Dir es \<Rightarrow> Some n | _ \<Rightarrow> None)"
| "mkdirParts (x # xs) n =
     (case n of
        Dir es \<Rightarrow>
          (case mkdirParts xs (case map_of es x of Some c \<Rightarrow> c | None \<Rightarrow> Dir []) of
             Some c' \<Rightarrow> Some (Dir (setEntry es x (Some c')))
           | None \<Rightarrow> None)
      | _ \<Rightarrow> None)"

text \<open>The empty path denotes nothing: every call on it fails.\<close>

definition lookupPath :: "node \<Rightarrow> string \<Rightarrow> node option" where
  "lookupPath fs p = (if p = [] then None else lookupParts (pathParts p) fs)"

text \<open>The fields of \<open>fs.Stats\<close> that the program reads.\<close>

fun isDirectory :: "node \<Rightarrow> bool" where
  "isDirectory (Dir es) = True"
| "isDirectory n = False"

fun isFile :: "node \<Rightarrow> bool" where
  "isFile (File c m) = True"
| "isFile n = False"

text \<open>Permission bits; \<open>493\<close> is \<open>0o755\<close>, \<open>420\<close> is \<open>0o644\<close> and \<open>73\<close> is \<open>0o111\<close>.\<close>

fun modeOf :: "node \<Rightarrow> nat" where
  "modeOf (File c m) = m"
| "modeOf (Special m) = m"
| "modeOf (Dir es) = 493"

fun sizeOf :: "node \<Rightarrow> nat" where
  "sizeOf (File c m) = length c"
| "sizeOf n = 0"

definition hasExecBit :: "nat \<Rightarrow> bool" where
  "hasExecBit m = (and m 73 \<noteq> 0)"

definition stat :: "node \<Rightarrow> string \<Rightarrow> error + node" where
  "stat fs p = (case lookupPath fs p of Some n \<Rightarrow> Inr n | None \<Rightarrow> Inl FsError)"

definition readdir :: "node \<Rightarrow> string \<Rightarrow> error + (string \<times> node) list" where
  "readdir fs p = (case lookupPath fs p of Some (Dir es) \<Rightarrow> Inr es | _ \<Rightarrow> Inl FsError)"

definition readFile :: "node \<Rightarrow> string \<Rightarrow> error + string" where
  "readFile fs p = (case lookupPath fs p of Some (File c m) \<Rightarrow> Inr c | _ \<Rightarrow> Inl FsError)"

text \<open>
  \<open>access\<close> with \<open>F_OK\<close> and with \<open>X_OK\<close>: the path resolves, and for \<open>X_OK\<close> the
  calling user may execute the entry. Which permission bits decide that depends on how
  the calling user stands to the entry: the superuser may execute what carries any execute
  bit (\<open>0o111\<close>), the owner needs \<open>0o100\<close> (64), a member of the group \<open>0o010\<close> (8),
  anybody else \<open>0o001\<close> (1).
\<close>

datatype callerClass = Superuser | Owner | GroupMember | Others

definition mayExecute :: "callerClass \<Rightarrow> nat \<Rightarrow> bool" where
  "mayExecute c m =
     (case c of
        Superuser \<Rightarrow> and m 73 \<noteq> 0
      | Owner \<Rightarrow> and m 64 \<noteq> 0
      | GroupMember \<Rightarrow> and m 8 \<noteq> 0
      | Others \<Rightarrow> and m 1 \<noteq> 0)"

definition access_F_OK :: "node \<Rightarrow> string \<Rightarrow> error + unit" where
  "access_F_OK fs p = (case lookupPath fs p of Some n \<Rightarrow> Inr () | None \<Rightarrow> Inl FsError)"

definition access_X_OK :: "(string \<Rightarrow> callerClass) \<Rightarrow> node \<Rightarrow> string \<Rightarrow> error + unit" where
  "access_X_OK cls fs p =
     (case lookupPath fs p of
        Some n \<Rightarrow> if mayExecute (cls p) (modeOf n) then Inr () else Inl FsError
      | None \<Rightarrow> Inl FsError)"

text \<open>
  \<open>mkdir\<close> with \<open>recursive: true\<close>: nothing to do when the directory exists, an error
  when the path names something else, otherwise the missing directories are created.
\<close>

definition mkdir :: "node \<Rightarrow> string \<Rightarrow> error + node" where
  "mkdir fs p =
     (if p = [] then Inl FsError
      else
        (case lookupPath fs p of
           Some (Dir es) \<Rightarrow> Inr fs
         | Some n \<Rightarrow> Inl FsError
         | None \<Rightarrow>
             (case mkdirParts (pathParts p) fs of Some fs' \<Rightarrow> Inr fs' | None \<Rightarrow> Inl FsError)))"

definition dirExists :: "node \<Rightarrow> string \<Rightarrow> bool" where
  "dirExists fs p = (case lookupPath fs p of Some (Dir es) \<Rightarrow> True | _ \<Rightarrow> False)"

text \<open>
  Writing a file replaces the contents of a regular file and keeps its mode, or creates
  the file with mode \<open>0o644\<close>; it fails on a directory and when the parent directory is
  missing.
\<close>

definition writeFile :: "node \<Rightarrow> string \<Rightarrow> string \<Rightarrow> error + node" where
  "writeFile fs p content =
     (if p = [] then Inl FsError
      else
        (case lookupPath fs p of
           Some (Dir es) \<Rightarrow> Inl FsError
         | Some (Special m) \<Rightarrow> Inr fs
         | Some (File c m) \<Rightarrow>
             (case putParts (pathParts p) (Some (File content m)) fs of
                Some fs' \<Rightarrow> Inr fs' | None \<Rightarrow> Inl FsError)
         | None \<Rightarrow>
             (case putParts (pathParts p) (Some (File content 420)) fs of
                Some fs' \<Rightarrow> Inr fs' | None \<Rightarrow> Inl FsError)))"

definition chmod :: "node \<Rightarrow> string \<Rightarrow> nat \<Rightarrow> error + node" where
  "chmod fs p m =
     (case lookupPath fs p of
        None \<Rightarrow> Inl FsError
      | Some (Dir es) \<Rightarrow> Inr fs
      | Some (Special m0) \<Rightarrow>
          (case putParts (pathParts p) (Some (Special m)) fs of
             Some fs' \<Rightarrow> Inr fs' | None \<Rightarrow> Inl FsError)
      | Some (File c m0) \<Rightarrow>
          (case putParts (pathParts p) (Some (File c m)) fs of
             Some fs' \<Rightarrow> Inr fs' | None \<Rightarrow> Inl FsError))"

text \<open>
  \<open>chmod\<close> above is the call on a file that the run has just unpacked, which the
  calling user owns. \<open>chmodAs\<close> is the call on a path that comes from elsewhere: only
  the owner of an entry and the superuser may change its mode.
\<close>

definition mayChmod :: "callerClass \<Rightarrow> bool" where
  "mayChmod c = (c = Superuser \<or> c = Owner)"

definition chmodAs :: "(string \<Rightarrow> callerClass) \<Rightarrow> node \<Rightarrow> string \<Rightarrow> nat \<Rightarrow> error + node" where
  "chmodAs cls fs p m =
     (case lookupPath fs p of
        None \<Rightarrow> Inl FsError
      | Some n \<Rightarrow> if mayChmod (cls p) then chmod fs p m else Inl FsError)"

text \<open>
  \<open>unlink\<close> removes a file; \<open>unlinkIgnoringErrors\<close> is the call
  \<open>fs.unlink(path, () => {})\<close>, whose callback drops the error.
\<close>

definition unlink :: "node \<Rightarrow> string \<Rightarrow> error + node" where
  "unlink fs p =
     (case lookupPath fs p of
        None \<Rightarrow> Inl FsError
      | Some (Dir es) \<Rightarrow> Inl FsError
      | Some n \<Rightarrow>
          (case putParts (pathParts p) None fs of Some fs' \<Rightarrow> Inr fs' | None \<Rightarrow> Inl FsError))"

definition unlinkIgnoringErrors :: "node \<Rightarrow> string \<Rightarrow> node" where
  "unlinkIgnoringErrors fs p = (case unlink fs p of Inr fs' \<Rightarrow> fs' | Inl e \<Rightarrow> fs)"

section \<open>Binary locator\<close>

text \<open>
  \<open>Array.prototype.sort\<close> is stable; for a comparator that is a consistent ordering its
  result is the one of any stable sort, here insertion from the right.
\<close>

fun insertBy :: "('a \<Rightarrow> 'a \<Rightarrow> int) \<Rightarrow> 'a \<Rightarrow> 'a list \<Rightarrow> 'a list" where
  "insertBy cmp x [] = [x]"
| "insertBy cmp x (y # ys) = (if cmp x y \<le> 0 then x # y # ys else y # insertBy cmp x ys)"

definition jsSort :: "('a \<Rightarrow> 'a \<Rightarrow> int) \<Rightarrow> 'a list \<Rightarrow> 'a list" where
  "jsSort cmp xs = foldr (insertBy cmp) xs []"

text \<open>\<^verbatim>\<open>/^(readme|license|changelog|contributing)/i\<close>\<close>

definition commonNonBinaryRegex :: re where
  "commonNonBinaryRegex = Grp 1 (alts [''readme'', ''license'', ''changelog'', ''contributing''])"

definition isCommonNonBinaryName :: "string \<Rightarrow> bool" where
  "isCommonNonBinaryName f = regexTestAnchored True commonNonBinaryRegex f"

text \<open>
  \<^verbatim>\<open>/\.(md|txt|json|ya?ml|toml|cfg|ini|html|js|ts|css|scss|py|rb|go|rs|java|c|cpp|h|hpp)$/i\<close>
\<close>

definition nonBinaryExtRegex :: re where
  "nonBinaryExtRegex =
     seqs [Chr CHR ''.'',
       Grp 1 (Alt (lit ''md'') (Alt (lit ''txt'') (Alt (lit ''json'')
         (Alt (seqs [Chr CHR ''y'', Opt (Chr CHR ''a''), lit ''ml''])
           (alts [''toml'', ''cfg'', ''ini'', ''html'', ''js'', ''ts'', ''css'', ''scss'', ''py'',
             ''rb'', ''go'', ''rs'', ''java'', ''c'', ''cpp'', ''h'', ''hpp'']))))),
       Eol]"

definition isLikelyNonBinaryName :: "string \<Rightarrow> bool" where
  "isLikelyNonBinaryName f = regexTest True nonBinaryExtRegex f"

text \<open>\<^verbatim>\<open>/^(license|copying|readme|changelog|contributing)$/i\<close>\<close>

definition exactNonBinaryRegex :: re where
  "exactNonBinaryRegex =
     Seq (Grp 1 (alts [''license'', ''copying'', ''readme'', ''changelog'', ''contributing''])) Eol"

text \<open>\<^verbatim>\<open>.replace(/\.exe$/i, "")\<close>: a match can only be the last four characters.\<close>

definition exeSuffixRegex :: re where
  "exeSuffixRegex = seqs [Chr CHR ''.'', lit ''exe'', Eol]"

definition replaceExeSuffix :: "string \<Rightarrow> string" where
  "replaceExeSuffix s = (if regexTest True exeSuffixRegex s then take (length s - 4) s else s)"

text \<open>The comparator of the sort in \<open>searchDir\<close>.\<close>

definition sortCompare :: "string \<Rightarrow> string \<Rightarrow> string \<Rightarrow> int" where
  "sortCompare repoName a b =
     (let aMatchesRepo = includes_str (toLowerCase a) (toLowerCase repoName);
          bMatchesRepo = includes_str (toLowerCase b) (toLowerCase repoName)
      in if aMatchesRepo \<and> \<not> bMatchesRepo then - 1
         else if \<not> aMatchesRepo \<and> bMatchesRepo then 1
         else
           (let aIsCommonNonBinary = isCommonNonBinaryName a;
                bIsCommonNonBinary = isCommonNonBinaryName b
            in if aIsCommonNonBinary \<and> \<not> bIsCommonNonBinary then 1
               else if \<not> aIsCommonNonBinary \<and> bIsCommonNonBinary then - 1
               else 0))"

text \<open>
  The body of the loop of \<open>searchDir\<close> for an executable regular file: \<open>Stop\<close> is the
  \<open>break\<close> of the source, \<open>Go\<close> is falling through to the next iteration; both carry the
  value of the variable \<open>binaryPath\<close>.
\<close>

datatype scan = Stop "string option" | Go "string option"

definition shortCircuits :: "string \<Rightarrow> string \<Rightarrow> bool" where
  "shortCircuits repoName file =
     (let fileBaseName = replaceExeSuffix (toLowerCase file);
          repoNameLower = toLowerCase repoName
      in fileBaseName = repoNameLower \<or>
         includes_str fileBaseName repoNameLower \<or>
         (endsWith file ''.exe'' \<and> includes_str fileBaseName repoNameLower) \<or>
         (\<not> includes_str file ''.'' \<and> file \<noteq> ''LICENSE'' \<and> file \<noteq> ''COPYING''))"

definition examineFile :: "string \<Rightarrow> string \<Rightarrow> string \<Rightarrow> string option \<Rightarrow> scan" where
  "examineFile repoName filePath file binaryPath =
     (let isLikelyNonBinary = isLikelyNonBinaryName file;
          isCommonNonBinary = isCommonNonBinaryName file
      in if \<not> isLikelyNonBinary \<and> \<not> isCommonNonBinary then
           (if shortCircuits repoName file then Stop (Some filePath)
            else Go (if binaryPath = None then Some filePath else binaryPath))
         else Go binaryPath)"

text \<open>
  \<open>searchDir\<close> with the listing of \<open>currentDir\<close>, and its \<open>for\<close> loop over the sorted
  listing. The variable \<open>binaryPath\<close> of the enclosing function is passed in and returned.
\<close>

function searchDir :: "string \<Rightarrow> string \<Rightarrow> (string \<times> node) list \<Rightarrow> nat \<Rightarrow> string option \<Rightarrow> string option"
  and searchLoop :: "string \<Rightarrow> string \<Rightarrow> (string \<times> node) list \<Rightarrow> nat \<Rightarrow> string option \<Rightarrow> string option"
where
  "searchDir repoName currentDir files depth binaryPath =
     (if depth > 3 then binaryPath
      else searchLoop repoName currentDir
             (jsSort (\<lambda>a b. sortCompare repoName (fst a) (fst b)) files) depth binaryPath)"
| "searchLoop repoName currentDir [] depth binaryPath = binaryPath"
| "searchLoop repoName currentDir ((file, stats) # rest) depth binaryPath =
     (if binaryPath \<noteq> None then binaryPath
      else
        (case stats of
           Dir sub \<Rightarrow>
             searchLoop repoName currentDir rest depth
               (searchDir repoName (path_join currentDir file) sub (depth + 1) binaryPath)
         | File c m \<Rightarrow>
             (if hasExecBit m then
                (case examineFile repoName (path_join currentDir file) file binaryPath of
                   Stop r \<Rightarrow> r
                 | Go r \<Rightarrow> searchLoop repoName currentDir rest depth r)
              else searchLoop repoName currentDir rest depth binaryPath)
         | Special m \<Rightarrow> searchLoop repoName currentDir rest depth binaryPath))"
  by pat_completeness auto
termination
  by (relation "measures
        [\<lambda>x. case x of Inl (r, d, fs, depth, b) \<Rightarrow> 2 * (4 - depth) + 1
                      | Inr (r, d, fs, depth, b) \<Rightarrow> 2 * (4 - (depth + 1)) + 2,
         \<lambda>x. case x of Inl (r, d, fs, depth, b) \<Rightarrow> 0
                      | Inr (r, d, fs, depth, b) \<Rightarrow> length fs]")
     auto

text \<open>The equation of \<open>searchDir\<close> is unfolded by hand.\<close>

declare searchDir.simps [simp del]

text \<open>
  \<open>finalSearch\<close> with the listing of \<open>currentDir\<close>: the pair of the returned value and
  the variable \<open>binaryPath\<close>. Any entry that is not a directory is a candidate here.
\<close>

definition finalCandidate :: "string \<Rightarrow> bool" where
  "finalCandidate file =
     ((\<not> includes_str file ''.'' \<or> endsWith file ''.exe'') \<and>
      \<not> regexTestAnchored True exactNonBinaryRegex file)"

definition finalNameMatch :: "string \<Rightarrow> string \<Rightarrow> bool" where
  "finalNameMatch repoName file =
     (replaceExeSuffix (toLowerCase file) = toLowerCase repoName \<or>
      includes_str (toLowerCase file) (toLowerCase repoName))"

function finalSearch :: "string \<Rightarrow> string \<Rightarrow> (string \<times> node) list \<Rightarrow> string option
    \<Rightarrow> string option \<times> string option" where
  "finalSearch repoName currentDir [] binaryPath = (binaryPath, binaryPath)"
| "finalSearch repoName currentDir ((file, stats) # rest) binaryPath =
     (case stats of
        Dir sub \<Rightarrow>
          (case finalSearch repoName (path_join currentDir file) sub binaryPath of
             (result, binaryPath1) \<Rightarrow>
               if result \<noteq> None then (result, binaryPath1)
               else finalSearch repoName currentDir rest binaryPath1)
      | _ \<Rightarrow>
          (if finalCandidate file then
             (if finalNameMatch repoName file then (Some (path_join currentDir file), binaryPath)
              else finalSearch repoName currentDir rest
                     (if binaryPath = None then Some (path_join currentDir file) else binaryPath))
           else finalSearch repoName currentDir rest binaryPath))"
  by pat_completeness auto
termination
  by (relation "measure (\<lambda>(r, d, fs, b). size_list (size_prod (\<lambda>_. 0) size) fs)") auto

text \<open>
  \<open>findBinaryInDir\<close>: the first pass, the second pass when the first found nothing, and
  the final \<open>chmod\<close> to \<open>0o755\<close>.
\<close>

definition findBinaryInDir :: "node \<Rightarrow> string \<Rightarrow> string \<Rightarrow> (error + string) \<times> node" where
  "findBinaryInDir fs dir repoName =
     (case readdir fs dir of
        Inl e \<Rightarrow> (Inl e, fs)
      | Inr files \<Rightarrow>
          (let binaryPath = searchDir repoName dir files 0 None;
               binaryPath2 = (if binaryPath = None then fst (finalSearch repoName dir files binaryPath)
                              else binaryPath)
           in case binaryPath2 of
                None \<Rightarrow> (Inl BinaryNotFound, fs)
              | Some p \<Rightarrow>
                  (case chmod fs p 493 of
                     Inl e \<Rightarrow> (Inl e, fs)
                   | Inr fs' \<Rightarrow> (Inr p, fs'))))"

text \<open>
  A name matches the repository name, in the words of the specification: exactly, as a
  substring, or as a \<open>.exe\<close> name containing the repository name (the comparison is made
  on lower-case names, a trailing \<open>.exe\<close> removed).
\<close>

definition nameMatchesRepo :: "string \<Rightarrow> string \<Rightarrow> bool" where
  "nameMatchesRepo repoName file =
     (replaceExeSuffix (toLowerCase file) = toLowerCase repoName \<or>
      includes_str (replaceExeSuffix (toLowerCase file)) (toLowerCase repoName) \<or>
      (endsWith file ''.exe'' \<and>
       includes_str (replaceExeSuffix (toLowerCase file)) (toLowerCase repoName)))"

text \<open>
  An accepted candidate of the first pass: a regular file with an execute bit whose name
  has none of the non-binary extensions and does not start with a non-binary basename.
\<close>

definition acceptedCandidate :: "string \<Rightarrow> node \<Rightarrow> bool" where
  "acceptedCandidate file stats =
     (isFile stats \<and> hasExecBit (modeOf stats) \<and>
      \<not> isLikelyNonBinaryName file \<and> \<not> isCommonNonBinaryName file)"

text \<open>
  A chain of \<open>n\<close> nested directories named \<open>d\<close> around a listing, and the path of the
  innermost directory.
\<close>

fun chain :: "nat \<Rightarrow> (string \<times> node) list \<Rightarrow> (string \<times> node) list" where
  "chain 0 es = es"
| "chain (Suc n) es = [(''d'', Dir (chain n es))]"

fun chainPath :: "nat \<Rightarrow> string \<Rightarrow> string" where
  "chainPath 0 dir = dir"
| "chainPath (Suc n) dir = chainPath n (path_join dir ''d'')"

text \<open>
  A plain entry name, and the absolute path that a list of plain names spells.
\<close>

definition plainName :: "string \<Rightarrow> bool" where
  "plainName f = (f \<noteq> [] \<and> CHR ''/'' \<notin> set f \<and> f \<noteq> ''.'' \<and> f \<noteq> ''..'')"

definition absPath :: "string list \<Rightarrow> string" where
  "absPath segs = concat (map (\<lambda>s. CHR ''/'' # s) segs)"

section \<open>Example data\<close>

definition linuxHost :: systemInfo where
  "linuxHost = \<lparr> osName = ''Linux'', archName = ''x86_64'', platform = ''linux'' \<rparr>"

definition darwinHost :: systemInfo where
  "darwinHost = \<lparr> osName = ''Darwin'', archName = ''arm64'', platform = ''darwin'' \<rparr>"

definition mkAsset :: "string \<Rightarrow> asset" where
  "mkAsset n = \<lparr> name = n, browser_download_url = ''https://dl.example/'' @ n \<rparr>"

section \<open>The world outside the program\<close>

text \<open>
  Values of JavaScript as far as the program meets them: the result of \<open>JSON.parse\<close>
  and of reading a property. The program does no arithmetic on them; a number is kept as
  the text that its conversion to a string gives.
\<close>

datatype jsval =
    JUndefined
  | JNull
  | JBool bool
  | JNum string
  | JStr string
  | JArr "jsval list"
  | JObj "(string \<times> jsval) list"

text \<open>
  Reading a property \<open>v.p\<close>: a \<open>TypeError\<close> on \<open>null\<close> and \<open>undefined\<close>, the value
  of the key on an object, \<open>undefined\<close> when the key is absent and on every other value
  (the program reads \<open>tag_name\<close>, \<open>assets\<close>, \<open>name\<close> and \<open>browser_download_url\<close> only).
\<close>

fun getProp :: "jsval \<Rightarrow> string \<Rightarrow> error + jsval" where
  "getProp JUndefined p = Inl TypeError"
| "getProp JNull p = Inl TypeError"
| "getProp (JObj kvs) p = Inr (case map_of kvs p of Some v \<Rightarrow> v | None \<Rightarrow> JUndefined)"
| "getProp v p = Inr JUndefined"

text \<open>The conversion to a string that a template literal applies to a value.\<close>

fun intercalate :: "string \<Rightarrow> string list \<Rightarrow> string" where
  "intercalate sep [] = []"
| "intercalate sep [x] = x"
| "intercalate sep (x # xs) = x @ sep @ intercalate sep xs"

fun toJsString :: "jsval \<Rightarrow> string" where
  "toJsString JUndefined = ''undefined''"
| "toJsString JNull = ''null''"
| "toJsString (JBool b) = (if b then ''true'' else ''false'')"
| "toJsString (JNum t) = t"
| "toJsString (JStr s) = s"
| "toJsString (JArr vs) =
     intercalate '','' (map (\<lambda>v. if v = JNull \<or> v = JUndefined then [] else toJsString v) vs)"
| "toJsString (JObj kvs) = ''[object Object]''"

text \<open>
  An HTTP response as the program reads it: the status code, the \<open>Location\<close> header,
  and the body, which arrives completely or breaks off with an \<open>error\<close> event after
  some data.
\<close>

datatype bodyStream = Complete string | Interrupted string

record response =
  statusCode :: nat
  location :: "string option"
  stream :: bodyStream

datatype httpResult = NoResponse | Response response

datatype childResult = Exited int | SpawnFailed

text \<open>
  Everything the program takes from its environment. The network answers the \<open>n\<close>-th
  outbound request of the run for a URL. \<open>JSON.parse\<close>, the archive libraries and the
  child process are library calls, taken as parameters: \<open>jsonParse\<close> returns \<open>None\<close>
  when \<open>JSON.parse\<close> throws; \<open>untar\<close> and \<open>unzip\<close> map the bytes of an archive and the
  listing of the extraction directory to its listing after unpacking, or \<open>None\<close> when
  the library fails; \<open>writeFailsAfter\<close> gives, for a destination, the number of bytes after
  which writing to it fails, if it does; \<open>caller\<close> says how the calling user stands to
  the entry at a path.
\<close>

record env =
  envPlatform :: string
  envArch :: string
  homedir :: string
  httpsGet :: "nat \<Rightarrow> string \<Rightarrow> httpResult"
  jsonParse :: "string \<Rightarrow> jsval option"
  untar :: "string \<Rightarrow> (string \<times> node) list \<Rightarrow> (string \<times> node) list option"
  unzip :: "string \<Rightarrow> (string \<times> node) list \<Rightarrow> (string \<times> node) list option"
  writeFailsAfter :: "string \<Rightarrow> nat option"
  caller :: "string \<Rightarrow> callerClass"
  child :: "string \<Rightarrow> string list \<Rightarrow> childResult"

text \<open>
  The state of a run: the file system, the outbound requests made so far (oldest first),
  the archives unpacked so far, the processes spawned so far, and the removals that were
  started with the callback form of \<open>fs.unlink\<close> and not waited for. The program
  does not order such a removal against what it does next: \<open>files\<close> is the file
  system in which the started removals have not taken effect yet, \<open>completePending\<close>
  is the state in which they all have.
\<close>

record world =
  files :: node
  requests :: "string list"
  extractions :: "string list"
  spawns :: "(string \<times> string list) list"
  pendingUnlinks :: "string list"

definition completePending :: "world \<Rightarrow> world" where
  "completePending w =
     w \<lparr> files := foldl unlinkIgnoringErrors (files w) (pendingUnlinks w), pendingUnlinks := [] \<rparr>"

definition httpsRequest :: "env \<Rightarrow> world \<Rightarrow> string \<Rightarrow> httpResult \<times> world" where
  "httpsRequest e w url =
     (httpsGet e (length (requests w)) url, w \<lparr> requests := requests w @ [url] \<rparr>)"

definition apiUrl :: "string \<Rightarrow> string" where
  "apiUrl p = ''https://api.github.com'' @ p"

section \<open>Release resolver\<close>

text \<open>
  The \<open>try\<close> block of both resolver functions: \<open>JSON.parse\<close> and the property read;
  whatever they throw is reported as a failure to parse the response.
\<close>

definition parseProperty :: "env \<Rightarrow> string \<Rightarrow> string \<Rightarrow> error + jsval" where
  "parseProperty e data p =
     (case jsonParse e data of
        None \<Rightarrow> Inl MalformedResponse
      | Some release \<Rightarrow>
          (case getProp release p of
             Inl err \<Rightarrow> Inl MalformedResponse
           | Inr v \<Rightarrow> Inr v))"

text \<open>
  When the body breaks off there is no \<open>end\<close> event, and the response has no \<open>error\<close>
  listener in the resolver functions: their promise is never settled.
\<close>

definition getLatestVersion :: "env \<Rightarrow> world \<Rightarrow> string \<Rightarrow> string \<Rightarrow> (error + jsval) \<times> world" where
  "getLatestVersion e w ow rp =
     (case httpsRequest e w (apiUrl (''/repos/'' @ ow @ ''/'' @ rp @ ''/releases/latest'')) of
        (NoResponse, w1) \<Rightarrow> (Inl RequestError, w1)
      | (Response res, w1) \<Rightarrow>
          (if statusCode res = 404 then (Inl RepositoryNotFound, w1)
           else if statusCode res \<noteq> 200 then (Inl (ApiError (statusCode res)), w1)
           else
             (case stream res of
                Interrupted d \<Rightarrow> (Inl NeverSettles, w1)
              | Complete data \<Rightarrow> (parseProperty e data ''tag_name'', w1))))"

definition releasePath :: "string \<Rightarrow> string \<Rightarrow> string \<Rightarrow> string" where
  "releasePath ow rp ver =
     (if ver = ''latest'' then ''/repos/'' @ ow @ ''/'' @ rp @ ''/releases/latest''
      else ''/repos/'' @ ow @ ''/'' @ rp @ ''/releases/tags/'' @ ver)"

definition getReleaseAssets :: "env \<Rightarrow> world \<Rightarrow> string \<Rightarrow> string \<Rightarrow> string \<Rightarrow> (error + jsval) \<times> world" where
  "getReleaseAssets e w ow rp ver =
     (case httpsRequest e w (apiUrl (releasePath ow rp ver)) of
        (NoResponse, w1) \<Rightarrow> (Inl RequestError, w1)
      | (Response res, w1) \<Rightarrow>
          (if statusCode res = 404 then (Inl ReleaseNotFound, w1)
           else if statusCode res \<noteq> 200 then (Inl (ApiError (statusCode res)), w1)
           else
             (case stream res of
                Interrupted d \<Rightarrow> (Inl NeverSettles, w1)
              | Complete data \<Rightarrow> (parseProperty e data ''assets'', w1))))"

section \<open>Downloader\<close>

text \<open>
  The part of \<open>handleResponse\<close> after the status checks: \<open>createWriteStream\<close> opens
  (creates or truncates) the destination and the body is piped into it. Each of the two
  \<open>error\<close> listeners calls \<open>fs.unlink(destPath, () => {})\<close> and then \<open>reject\<close>: the
  removal is started, not waited for, and the promise is rejected in the same turn. The
  result is the outcome, the file system at that moment and the removals started. When
  the stream cannot be opened the \<open>error\<close> listener of the file runs as well.
\<close>

definition pipeToFile :: "env \<Rightarrow> node \<Rightarrow> string \<Rightarrow> bodyStream
    \<Rightarrow> (error + unit) \<times> node \<times> string list" where
  "pipeToFile e fs destPath body =
     (case writeFile fs destPath [] of
        Inl err \<Rightarrow> (Inl WriteError, fs, [destPath])
      | Inr fs0 \<Rightarrow>
          (case body of
             Interrupted part \<Rightarrow>
               (case writeFile fs0 destPath part of
                  Inl err \<Rightarrow> (Inl StreamError, fs0, [destPath])
                | Inr fs1 \<Rightarrow> (Inl StreamError, fs1, [destPath]))
           | Complete data \<Rightarrow>
               (case writeFailsAfter e destPath of
                  Some k \<Rightarrow>
                    (case writeFile fs0 destPath (take k data) of
                       Inl err \<Rightarrow> (Inl WriteError, fs0, [destPath])
                     | Inr fs1 \<Rightarrow> (Inl WriteError, fs1, [destPath]))
                | None \<Rightarrow>
                    (case writeFile fs0 destPath data of
                       Inl err \<Rightarrow> (Inl WriteError, fs0, [destPath])
                     | Inr fs1 \<Rightarrow> (Inr (), fs1, [])))))"

text \<open>A header value is used when it is present and not the empty string.\<close>

definition isRedirect :: "response \<Rightarrow> bool" where
  "isRedirect res =
     (300 \<le> statusCode res \<and> statusCode res < 400 \<and>
      (case location res of None \<Rightarrow> False | Some l \<Rightarrow> l \<noteq> []))"

definition locationOf :: "response \<Rightarrow> string" where
  "locationOf res = (case location res of None \<Rightarrow> [] | Some l \<Rightarrow> l)"

function downloadFile :: "env \<Rightarrow> world \<Rightarrow> string \<Rightarrow> string \<Rightarrow> int \<Rightarrow> (error + unit) \<times> world" where
  "downloadFile e w url destPath redirectLimit =
     (case httpsRequest e w url of
        (NoResponse, w1) \<Rightarrow> (Inl RequestError, w1)
      | (Response res, w1) \<Rightarrow>
          (if isRedirect res then
             (if redirectLimit \<le> 0 then (Inl TooManyRedirects, w1)
              else downloadFile e w1 (locationOf res) destPath (redirectLimit - 1))
           else if statusCode res \<noteq> 200 then (Inl (DownloadFailed (statusCode res)), w1)
           else
             (case pipeToFile e (files w1) destPath (stream res) of
                (r, fs', started) \<Rightarrow>
                  (r, w1 \<lparr> files := fs', pendingUnlinks := pendingUnlinks w1 @ started \<rparr>))))"
  by pat_completeness auto
termination
  by (relation "measure (\<lambda>(e, w, url, destPath, redirectLimit). nat redirectLimit)") auto

declare downloadFile.simps [simp del]

text \<open>
  A chain of redirects, in the words of the specification: \<open>redirectsFrom e k url n\<close>
  is the request number and the URL reached after \<open>n\<close> redirect responses in a row,
  starting with request number \<open>k\<close> to \<open>url\<close>.
\<close>

fun redirectsFrom :: "env \<Rightarrow> nat \<Rightarrow> string \<Rightarrow> nat \<Rightarrow> (nat \<times> string) option" where
  "redirectsFrom e k url 0 = Some (k, url)"
| "redirectsFrom e k url (Suc n) =
     (case httpsGet e k url of
        Response res \<Rightarrow>
          if isRedirect res then redirectsFrom e (Suc k) (locationOf res) n else None
      | NoResponse \<Rightarrow> None)"

section \<open>Runner\<close>

text \<open>
  \<open>run\<close> takes the environment, the state and the arguments for the child process and
  returns the outcome with the new state. The debug log is not part of the model.
\<close>

text \<open>
  \<open>findMatchingAsset\<close> as \<open>run\<close> calls it, on the decoded value of \<open>release.assets\<close>.
  \<open>assets.find\<close> is a \<open>TypeError\<close> unless the value is an array; \<open>find\<close> visits the
  elements in order up to the first hit; reading \<open>asset.name\<close> throws on \<open>null\<close> and
  \<open>undefined\<close>, and \<open>test\<close> converts its argument to a string. The model covers a
  selected element whose \<open>name\<close> and \<open>browser_download_url\<close> are strings, as the
  releases API delivers them. With a selected element of another shape the program fails
  where it first needs the string (in \<open>path.join\<close> for the name, in the request for the
  URL); the model does not follow it there and reports the \<open>TypeError\<close> at the selection.
\<close>

fun assetOfJs :: "jsval \<Rightarrow> error + asset" where
  "assetOfJs (JObj kvs) =
     (case (map_of kvs ''name'', map_of kvs ''browser_download_url'') of
        (Some (JStr n), Some (JStr u)) \<Rightarrow> Inr \<lparr> name = n, browser_download_url = u \<rparr>
      | _ \<Rightarrow> Inl TypeError)"
| "assetOfJs v = Inl TypeError"

fun findByName :: "(string \<Rightarrow> bool) \<Rightarrow> jsval list \<Rightarrow> error + jsval option" where
  "findByName P [] = Inr None"
| "findByName P (v # vs) =
     (case getProp v ''name'' of
        Inl err \<Rightarrow> Inl err
      | Inr n \<Rightarrow> if P (toJsString n) then Inr (Some v) else findByName P vs)"

definition selected :: "jsval \<Rightarrow> archiveKind \<Rightarrow> error + matchedAsset" where
  "selected v k =
     (case assetOfJs v of Inl err \<Rightarrow> Inl err | Inr a \<Rightarrow> Inr \<lparr> matched = a, kind = k \<rparr>)"

definition findMatchingAssetJs :: "jsval \<Rightarrow> systemInfo \<Rightarrow> string \<Rightarrow> error + matchedAsset" where
  "findMatchingAssetJs assets sys rp =
     (case assets of
        JArr vs \<Rightarrow>
          (case findByName (regexTest True (tarRegex sys rp)) vs of
             Inl err \<Rightarrow> Inl err
           | Inr (Some tarAsset) \<Rightarrow> selected tarAsset IsTar
           | Inr None \<Rightarrow>
          (case findByName (regexTest True (zipRegex sys rp)) vs of
             Inl err \<Rightarrow> Inl err
           | Inr (Some zipAsset) \<Rightarrow> selected zipAsset IsZip
           | Inr None \<Rightarrow>
          (case findByName (regexTest True (binaryRegex sys rp)) vs of
             Inl err \<Rightarrow> Inl err
           | Inr (Some binaryAsset) \<Rightarrow> selected binaryAsset IsBinary
           | Inr None \<Rightarrow> Inl NoMatchingAsset)))
      | _ \<Rightarrow> Inl TypeError)"

text \<open>
  The typed view of a well-formed asset array, on which \<open>findMatchingAssetJs\<close> and
  \<open>findMatchingAsset\<close> agree.
\<close>

fun collect :: "(error + 'a) list \<Rightarrow> error + 'a list" where
  "collect [] = Inr []"
| "collect (Inl e # rs) = Inl e"
| "collect (Inr a # rs) = (case collect rs of Inl e \<Rightarrow> Inl e | Inr as \<Rightarrow> Inr (a # as))"

fun assetsOfJs :: "jsval \<Rightarrow> error + asset list" where
  "assetsOfJs (JArr vs) = collect (map assetOfJs vs)"
| "assetsOfJs v = Inl TypeError"

text \<open>The paths of a cache entry.\<close>

definition cacheDirOf :: "env \<Rightarrow> string" where
  "cacheDirOf e = path_join (path_join (homedir e) ''.binrun'') ''cache''"

definition binDirOf :: "env \<Rightarrow> repoRef \<Rightarrow> jsval \<Rightarrow> string" where
  "binDirOf e r actualVersion =
     path_join (cacheDirOf e) (owner r @ ''_'' @ repo r @ ''_'' @ toJsString actualVersion)"

definition binaryPathOf :: "env \<Rightarrow> repoRef \<Rightarrow> jsval \<Rightarrow> matchedAsset \<Rightarrow> string" where
  "binaryPathOf e r actualVersion a = path_join (binDirOf e r actualVersion) (name (matched a))"

definition extractDirOf :: "env \<Rightarrow> repoRef \<Rightarrow> jsval \<Rightarrow> string" where
  "extractDirOf e r actualVersion = path_join (binDirOf e r actualVersion) ''bin''"

definition cachedBinaryPathFileOf :: "env \<Rightarrow> repoRef \<Rightarrow> jsval \<Rightarrow> string" where
  "cachedBinaryPathFileOf e r actualVersion = path_join (binDirOf e r actualVersion) ''.binary_path''"

text \<open>
  The \<open>try\<close> block on the whole-entry marker \<open>.binary_path\<close>: read the marker, then
  \<open>access\<close> the path it names with \<open>X_OK\<close>.
\<close>

definition readCachedBinary :: "env \<Rightarrow> node \<Rightarrow> string \<Rightarrow> error + string" where
  "readCachedBinary e fs cachedBinaryPathFile =
     (case readFile fs cachedBinaryPathFile of
        Inl err \<Rightarrow> Inl err
      | Inr cachedPath \<Rightarrow>
          (case access_X_OK (caller e) fs cachedPath of
             Inl err \<Rightarrow> Inl err
           | Inr u \<Rightarrow> Inr cachedPath))"

text \<open>
  The \<open>try\<close> block on the extraction marker \<open>.extracted_binary_path\<close>: read the marker,
  then \<open>access\<close> the path it names with \<open>F_OK\<close>.
\<close>

definition readExtractedBinary :: "node \<Rightarrow> string \<Rightarrow> error + string" where
  "readExtractedBinary fs extractDir =
     (case readFile fs (path_join extractDir ''.extracted_binary_path'') of
        Inl err \<Rightarrow> Inl err
      | Inr extractedBinaryPath \<Rightarrow>
          (case access_F_OK fs extractedBinaryPath of
             Inl err \<Rightarrow> Inl err
           | Inr u \<Rightarrow> Inr extractedBinaryPath))"

text \<open>
  \<open>extractTarGz\<close> and \<open>extractZip\<close>: create the extraction directory, unpack the archive
  into it with the library, then locate the binary.
\<close>

definition unpackInto :: "(string \<Rightarrow> (string \<times> node) list \<Rightarrow> (string \<times> node) list option)
    \<Rightarrow> world \<Rightarrow> string \<Rightarrow> string \<Rightarrow> string \<Rightarrow> (error + string) \<times> world" where
  "unpackInto lib w archivePath extractDir repoName =
     (case mkdir (files w) extractDir of
        Inl err \<Rightarrow> (Inl err, w)
      | Inr fs1 \<Rightarrow>
          (let w1 = w \<lparr> files := fs1, extractions := extractions w @ [archivePath] \<rparr>
           in case (readFile fs1 archivePath, readdir fs1 extractDir) of
                (Inr bytes, Inr listing) \<Rightarrow>
                  (case lib bytes listing of
                     None \<Rightarrow> (Inl ArchiveExtractionFailed, w1)
                   | Some listing' \<Rightarrow>
                       (case putParts (pathParts extractDir) (Some (Dir listing')) fs1 of
                          None \<Rightarrow> (Inl ArchiveExtractionFailed, w1)
                        | Some fs2 \<Rightarrow>
                            (case findBinaryInDir fs2 extractDir repoName of
                               (r, fs3) \<Rightarrow> (r, w1 \<lparr> files := fs3 \<rparr>))))
              | _ \<Rightarrow> (Inl ArchiveExtractionFailed, w1)))"

definition extractTarGz :: "env \<Rightarrow> world \<Rightarrow> string \<Rightarrow> string \<Rightarrow> string \<Rightarrow> (error + string) \<times> world" where
  "extractTarGz e w archivePath extractDir repoName =
     unpackInto (untar e) w archivePath extractDir repoName"

definition extractZip :: "env \<Rightarrow> world \<Rightarrow> string \<Rightarrow> string \<Rightarrow> string \<Rightarrow> (error + string) \<times> world" where
  "extractZip e w archivePath extractDir repoName =
     unpackInto (unzip e) w archivePath extractDir repoName"

text \<open>
  The archive branch of \<open>run\<close>: use the extraction marker or extract and write the
  marker, then \<open>chmod\<close> the binary to \<open>0o755\<close>. The path may come from the
  marker, so the mode is changed as the calling user.
\<close>

definition extractedExecutable :: "env \<Rightarrow> world \<Rightarrow> archiveKind \<Rightarrow> string \<Rightarrow> string \<Rightarrow> string
    \<Rightarrow> (error + string) \<times> world" where
  "extractedExecutable e w k binaryPath extractDir repoName =
     (case (case readExtractedBinary (files w) extractDir of
              Inr extractedBinaryPath \<Rightarrow> (Inr extractedBinaryPath, w)
            | Inl err \<Rightarrow>
                (case mkdir (files w) extractDir of
                   Inl err1 \<Rightarrow> (Inl err1, w)
                 | Inr fs1 \<Rightarrow>
                     (case (if k = IsTar
                            then extractTarGz e (w \<lparr> files := fs1 \<rparr>) binaryPath extractDir repoName
                            else extractZip e (w \<lparr> files := fs1 \<rparr>) binaryPath extractDir repoName) of
                        (Inl err2, w2) \<Rightarrow> (Inl err2, w2)
                      | (Inr extractedBinaryPath, w2) \<Rightarrow>
                          (case writeFile (files w2) (path_join extractDir ''.extracted_binary_path'')
                                  extractedBinaryPath of
                             Inl err3 \<Rightarrow> (Inl err3, w2)
                           | Inr fs3 \<Rightarrow> (Inr extractedBinaryPath, w2 \<lparr> files := fs3 \<rparr>))))) of
        (Inl err, w4) \<Rightarrow> (Inl err, w4)
      | (Inr extractedBinaryPath, w4) \<Rightarrow>
          (case chmodAs (caller e) (files w4) extractedBinaryPath 493 of
             Inl err \<Rightarrow> (Inl err, w4)
           | Inr fs5 \<Rightarrow> (Inr extractedBinaryPath, w4 \<lparr> files := fs5 \<rparr>)))"

text \<open>
  The \<open>catch\<close> block of \<open>run\<close>: download unless the asset file is there with a size
  above zero, process the file, and write the whole-entry marker.
\<close>

definition needToDownload :: "node \<Rightarrow> string \<Rightarrow> bool" where
  "needToDownload fs binaryPath =
     (case stat fs binaryPath of Inr stats \<Rightarrow> \<not> (sizeOf stats > 0) | Inl err \<Rightarrow> True)"

definition freshExecutable :: "env \<Rightarrow> world \<Rightarrow> matchedAsset \<Rightarrow> string \<Rightarrow> string \<Rightarrow> string \<Rightarrow> string
    \<Rightarrow> (error + string) \<times> world" where
  "freshExecutable e w a repoName binaryPath extractDir cachedBinaryPathFile =
     (case (if needToDownload (files w) binaryPath
            then downloadFile e w (browser_download_url (matched a)) binaryPath 5
            else (Inr (), w)) of
        (Inl err, w1) \<Rightarrow> (Inl err, w1)
      | (Inr u, w1) \<Rightarrow>
          (case (if kind a = IsTar \<or> kind a = IsZip
                 then extractedExecutable e w1 (kind a) binaryPath extractDir repoName
                 else (case chmodAs (caller e) (files w1) binaryPath 493 of
                         Inl err \<Rightarrow> (Inl err, w1)
                       | Inr fs2 \<Rightarrow> (Inr binaryPath, w1 \<lparr> files := fs2 \<rparr>))) of
             (Inl err, w3) \<Rightarrow> (Inl err, w3)
           | (Inr executablePath, w3) \<Rightarrow>
               (case writeFile (files w3) cachedBinaryPathFile executablePath of
                  Inl err \<Rightarrow> (Inl err, w3)
                | Inr fs4 \<Rightarrow> (Inr executablePath, w3 \<lparr> files := fs4 \<rparr>))))"

text \<open>\<open>spawn\<close> and the wait for the child process.\<close>

definition spawnAndWait :: "env \<Rightarrow> world \<Rightarrow> string \<Rightarrow> string list \<Rightarrow> (error + unit) \<times> world" where
  "spawnAndWait e w executablePath args =
     (let w1 = w \<lparr> spawns := spawns w @ [(executablePath, args)] \<rparr>
      in case child e executablePath args of
           Exited code \<Rightarrow> (if code = 0 then (Inr (), w1) else (Inl (NonZeroExit code), w1))
         | SpawnFailed \<Rightarrow> (Inl ChildProcessError, w1))"

text \<open>
  The part of \<open>run\<close> from the cache directory on, for a matched asset: create the
  directories, try the whole-entry marker, otherwise resolve afresh, then spawn.
\<close>

definition runAsset :: "env \<Rightarrow> world \<Rightarrow> repoRef \<Rightarrow> jsval \<Rightarrow> matchedAsset \<Rightarrow> string list
    \<Rightarrow> (error + unit) \<times> world" where
  "runAsset e w r actualVersion a args =
     (case mkdir (files w) (cacheDirOf e) of
        Inl err \<Rightarrow> (Inl err, w)
      | Inr fs1 \<Rightarrow>
     (case mkdir fs1 (binDirOf e r actualVersion) of
        Inl err \<Rightarrow> (Inl err, w \<lparr> files := fs1 \<rparr>)
      | Inr fs2 \<Rightarrow>
          (let w2 = w \<lparr> files := fs2 \<rparr>;
               binaryPath = binaryPathOf e r actualVersion a;
               extractDir = extractDirOf e r actualVersion;
               cachedBinaryPathFile = cachedBinaryPathFileOf e r actualVersion
           in case (case readCachedBinary e fs2 cachedBinaryPathFile of
                      Inr cachedPath \<Rightarrow> (Inr cachedPath, w2)
                    | Inl err \<Rightarrow>
                        freshExecutable e w2 a (repo r) binaryPath extractDir cachedBinaryPathFile) of
                (Inl err, w3) \<Rightarrow> (Inl err, w3)
              | (Inr executablePath, w3) \<Rightarrow> spawnAndWait e w3 executablePath args)))"

definition run :: "env \<Rightarrow> world \<Rightarrow> string \<Rightarrow> string list \<Rightarrow> (error + unit) \<times> world" where
  "run e w repoInput args =
     (case parseRepoURL repoInput of
        Inl err \<Rightarrow> (Inl err, w)
      | Inr r \<Rightarrow>
     (case (if version r = ''latest'' then getLatestVersion e w (owner r) (repo r)
            else (Inr (JStr (version r)), w)) of
        (Inl err, w1) \<Rightarrow> (Inl err, w1)
      | (Inr actualVersion, w1) \<Rightarrow>
     (case getReleaseAssets e w1 (owner r) (repo r) (version r) of
        (Inl err, w2) \<Rightarrow> (Inl err, w2)
      | (Inr assets, w2) \<Rightarrow>
     (case getSystemInfo (envPlatform e) (envArch e) of
        Inl err \<Rightarrow> (Inl err, w2)
      | Inr systemInfo \<Rightarrow>
     (case findMatchingAssetJs assets systemInfo (repo r) of
        Inl err \<Rightarrow> (Inl err, w2)
      | Inr a \<Rightarrow> runAsset e w2 r actualVersion a args)))))"

section \<open>The end-to-end scenario\<close>

text \<open>
  The scenario of the specification: the reference \<open>github.com/acme/widget@v1.2.0\<close> on
  a Darwin/arm64 host, a release with the assets \<open>widget_Darwin_arm64.tar.gz\<close> and
  \<open>widget_Linux_x86_64.tar.gz\<close>, and an archive that holds the executable \<open>widget\<close> and
  \<open>README.md\<close>. The bodies of the responses are stand-ins, decoded by \<open>scenarioParse\<close>.
\<close>

definition scenarioRelease :: jsval where
  "scenarioRelease =
     JObj [(''tag_name'', JStr ''v1.2.0''),
           (''assets'', JArr
              [JObj [(''name'', JStr ''widget_Darwin_arm64.tar.gz''),
                     (''browser_download_url'', JStr ''https://dl.example/widget_Darwin_arm64.tar.gz'')],
               JObj [(''name'', JStr ''widget_Linux_x86_64.tar.gz''),
                     (''browser_download_url'', JStr ''https://dl.example/widget_Linux_x86_64.tar.gz'')]])]"

text \<open>The same release document without its \<open>tag_name\<close>.\<close>

definition untaggedRelease :: jsval where
  "untaggedRelease =
     JObj [(''assets'', JArr
              [JObj [(''name'', JStr ''widget_Darwin_arm64.tar.gz''),
                     (''browser_download_url'', JStr ''https://dl.example/widget_Darwin_arm64.tar.gz'')],
               JObj [(''name'', JStr ''widget_Linux_x86_64.tar.gz''),
                     (''browser_download_url'', JStr ''https://dl.example/widget_Linux_x86_64.tar.gz'')]])]"

definition scenarioParse :: "string \<Rightarrow> jsval option" where
  "scenarioParse s =
     (if s = ''release v1.2.0'' then Some scenarioRelease
      else if s = ''untagged release'' then Some untaggedRelease
      else if s = ''{}'' then Some (JObj [])
      else if s = ''null'' then Some JNull
      else None)"

definition scenarioNet :: "nat \<Rightarrow> string \<Rightarrow> httpResult" where
  "scenarioNet k url =
     (if url = ''https://api.github.com/repos/acme/widget/releases/tags/v1.2.0''
      then Response \<lparr> statusCode = 200, location = None, stream = Complete ''release v1.2.0'' \<rparr>
      else if url = ''https://dl.example/widget_Darwin_arm64.tar.gz''
      then Response \<lparr> statusCode = 200, location = None, stream = Complete ''tarball'' \<rparr>
      else NoResponse)"

definition scenarioUntar :: "string \<Rightarrow> (string \<times> node) list \<Rightarrow> (string \<times> node) list option" where
  "scenarioUntar bytes listing =
     (if bytes = ''tarball''
      then Some (listing @ [(''README.md'', File ''docs'' 420), (''widget'', File ''binary'' 493)])
      else None)"

definition scenarioEnv :: env where
  "scenarioEnv =
     \<lparr> envPlatform = ''darwin'', envArch = ''arm64'', homedir = ''/home/u'',
       httpsGet = scenarioNet, jsonParse = scenarioParse,
       untar = scenarioUntar, unzip = (\<lambda>bytes listing. None),
       writeFailsAfter = (\<lambda>p. None), caller = (\<lambda>p. Owner), child = (\<lambda>p args. Exited 0) \<rparr>"

definition freshWorld :: world where
  "freshWorld =
     \<lparr> files = Dir [(''home'', Dir [(''u'', Dir [])])], requests = [], extractions = [], spawns = [],
       pendingUnlinks = [] \<rparr>"

text \<open>The cache entry that the first run leaves behind.\<close>

definition cachedFiles :: node where
  "cachedFiles =
     Dir [(''home'', Dir [(''u'', Dir [(''.binrun'', Dir [(''cache'', Dir [(''acme_widget_v1.2.0'',
       Dir [(''widget_Darwin_arm64.tar.gz'', File ''tarball'' 420),
            (''bin'', Dir [(''README.md'', File ''docs'' 420),
                          (''widget'', File ''binary'' 493),
                          (''.extracted_binary_path'',
                           File ''/home/u/.binrun/cache/acme_widget_v1.2.0/bin/widget'' 420)]),
            (''.binary_path'',
             File ''/home/u/.binrun/cache/acme_widget_v1.2.0/bin/widget'' 420)])])])])])]"

definition cachedWorld :: world where
  "cachedWorld = \<lparr> files = cachedFiles, requests = [], extractions = [], spawns = [],
       pendingUnlinks = [] \<rparr>"

text \<open>
  A cache entry without whole-entry marker whose extraction marker names a file that
  exists but carries no execute bit.
\<close>

definition staleFiles :: node where
  "staleFiles =
     Dir [(''home'', Dir [(''u'', Dir [(''.binrun'', Dir [(''cache'', Dir [(''acme_widget_v1.2.0'',
       Dir [(''widget_Darwin_arm64.tar.gz'', File ''tarball'' 420),
            (''bin'', Dir [(''README.md'', File ''docs'' 420),
                          (''.extracted_binary_path'',
                           File ''/home/u/.binrun/cache/acme_widget_v1.2.0/bin/README.md'' 420)])])])])])])]"

definition staleWorld :: world where
  "staleWorld = \<lparr> files = staleFiles, requests = [], extractions = [], spawns = [],
       pendingUnlinks = [] \<rparr>"

text \<open>A cache entry that holds the downloaded archive and nothing else.\<close>

definition downloadedFiles :: node where
  "downloadedFiles =
     Dir [(''home'', Dir [(''u'', Dir [(''.binrun'', Dir [(''cache'', Dir [(''acme_widget_v1.2.0'',
       Dir [(''widget_Darwin_arm64.tar.gz'', File ''tarball'' 420)])])])])])]"

definition downloadedWorld :: world where
  "downloadedWorld = \<lparr> files = downloadedFiles, requests = [], extractions = [], spawns = [],
       pendingUnlinks = [] \<rparr>"

text \<open>The scenario for a user who does not own the files of the cache.\<close>

definition othersEnv :: env where
  "othersEnv = scenarioEnv \<lparr> caller := (\<lambda>p. Others) \<rparr>"

text \<open>
  A server that answers the first \<open>n\<close> requests of a run with a redirect and the next
  one with the payload; a server whose connection drops after three bytes; a server that
  answers every request with status 200 and a given body.
\<close>

definition chainEnv :: "nat \<Rightarrow> env" where
  "chainEnv n =
     scenarioEnv \<lparr> httpsGet := (\<lambda>k url.
        if k < n then Response \<lparr> statusCode = 302, location = Some ''https://dl.example/next'',
                                 stream = Complete [] \<rparr>
        else Response \<lparr> statusCode = 200, location = None, stream = Complete ''payload'' \<rparr>) \<rparr>"

definition dropEnv :: env where
  "dropEnv =
     scenarioEnv \<lparr> httpsGet := (\<lambda>k url.
        Response \<lparr> statusCode = 200, location = None, stream = Interrupted ''pay'' \<rparr>) \<rparr>"

definition bodyEnv :: "string \<Rightarrow> env" where
  "bodyEnv body =
     scenarioEnv \<lparr> httpsGet := (\<lambda>k url.
        Response \<lparr> statusCode = 200, location = None, stream = Complete body \<rparr>) \<rparr>"

text \<open>A server whose latest release is the document without \<open>tag_name\<close>.\<close>

definition untaggedEnv :: env where
  "untaggedEnv =
     scenarioEnv \<lparr> httpsGet := (\<lambda>k url.
        if url = ''https://api.github.com/repos/acme/widget/releases/latest''
        then Response \<lparr> statusCode = 200, location = None, stream = Complete ''untagged release'' \<rparr>
        else if url = ''https://dl.example/widget_Darwin_arm64.tar.gz''
        then Response \<lparr> statusCode = 200, location = None, stream = Complete ''tarball'' \<rparr>
        else NoResponse) \<rparr>"

definition tmpWorld :: world where
  "tmpWorld = \<lparr> files = Dir [(''tmp'', Dir [])], requests = [], extractions = [], spawns = [],
       pendingUnlinks = [] \<rparr>"

section \<open>Properties of the matcher\<close>

lemma in_rematch_Chr:
  "(s', m') \<in> set (rematch ic (Chr a) s m) \<longleftrightarrow> (\<exists>c. s = c # s' \<and> chrMatches ic a c \<and> m' = m)"
  by (cases s) auto

lemma in_rematch_Seq:
  "(s', m') \<in> set (rematch ic (Seq r1 r2) s m) \<longleftrightarrow>
     (\<exists>s1 m1. (s1, m1) \<in> set (rematch ic r1 s m) \<and> (s', m') \<in> set (rematch ic r2 s1 m1))"
  by auto

lemma in_rematch_Opt:
  "(s', m') \<in> set (rematch ic (Opt r) s m) \<longleftrightarrow>
     (s', m') \<in> set (rematch ic r s m) \<or> (s' = s \<and> m' = m)"
  by auto

lemma in_rematch_Grp:
  "(s', m') \<in> set (rematch ic (Grp n r) s m) \<longleftrightarrow>
     (\<exists>m1. (s', m1) \<in> set (rematch ic r s m) \<and> m' = (n, take (length s - length s') s) # m1)"
  by auto

lemma in_rematch_Eol:
  "(s', m') \<in> set (rematch ic Eol s m) \<longleftrightarrow> (s = [] \<and> s' = [] \<and> m' = m)"
  by auto

lemma in_rematch_lit:
  "(s', m') \<in> set (rematch False (lit p) s m) \<longleftrightarrow> (s = p @ s' \<and> m' = m)"
proof (induction p arbitrary: s m)
  case Nil
  then show ?case by auto
next
  case (Cons a p)
  show ?case
    unfolding lit.simps in_rematch_Seq in_rematch_Chr Cons.IH
    by (auto simp: chrMatches_def)
qed

lemma in_rematch_Plus_Class:
  "(s', m') \<in> set (rematch ic (Plus (Class items)) s m) \<longleftrightarrow>
     (\<exists>x. x \<noteq> [] \<and> s = x @ s' \<and> (\<forall>c\<in>set x. classMatches ic items c) \<and> m' = m)"
proof (induction s)
  case Nil
  then show ?case by (simp add: rematch_Plus)
next
  case (Cons c t)
  show ?case
  proof (cases "classMatches ic items c")
    case False
    then show ?thesis
      by (auto simp: rematch_Plus Cons_eq_append_conv)
  next
    case True
    have "(s', m') \<in> set (rematch ic (Plus (Class items)) (c # t) m) \<longleftrightarrow>
            (s', m') \<in> set (rematch ic (Plus (Class items)) t m) \<or> (s' = t \<and> m' = m)"
      using True by (subst rematch_Plus) auto
    also have "\<dots> \<longleftrightarrow> (\<exists>x. x \<noteq> [] \<and> c # t = x @ s' \<and> (\<forall>c\<in>set x. classMatches ic items c) \<and> m' = m)"
      unfolding Cons.IH using True
      apply (auto simp: Cons_eq_append_conv)
      done
    finally show ?thesis .
  qed
qed

lemma nameClass_matches: "classMatches False [CWord, COne CHR ''.'', COne CHR ''-''] c = nameChar c"
  by (auto simp: classMatches_def nameChar_def chrMatches_def)

lemma in_rematch_name:
  "(s', m') \<in> set (rematch False (Plus nameClass) s m) \<longleftrightarrow>
     (\<exists>x. validName x \<and> s = x @ s' \<and> m' = m)"
  unfolding nameClass_def in_rematch_Plus_Class nameClass_matches validName_def
  by (auto simp: list_all_iff)

lemma in_rematch_name_grp:
  "(s', m') \<in> set (rematch False (Grp n (Plus nameClass)) s m) \<longleftrightarrow>
     (\<exists>x. validName x \<and> s = x @ s' \<and> m' = (n, x) # m)"
  unfolding in_rematch_Grp in_rematch_name by auto

lemma in_rematch_versionPart:
  "(s', m') \<in> set (rematch False (Seq (Opt (Seq (Chr CHR ''@'') (Grp 3 (Plus nameClass)))) Eol) s m) \<longleftrightarrow>
     s' = [] \<and> ((s = [] \<and> m' = m) \<or> (\<exists>v. validName v \<and> s = ''@'' @ v \<and> m' = (3, v) # m))"
  unfolding in_rematch_Seq in_rematch_Opt in_rematch_Chr in_rematch_name_grp in_rematch_Eol
  by (auto simp: chrMatches_def)

lemma in_rematch_repoPart:
  "(s', m') \<in> set (rematch False (Seq (Grp 2 (Plus nameClass))
        (Seq (Opt (Seq (Chr CHR ''@'') (Grp 3 (Plus nameClass)))) Eol)) s m) \<longleftrightarrow>
     s' = [] \<and> (\<exists>rp. validName rp \<and> ((s = rp \<and> m' = (2, rp) # m) \<or>
        (\<exists>v. validName v \<and> s = rp @ ''@'' @ v \<and> m' = (3, v) # (2, rp) # m)))"
  unfolding in_rematch_Seq [of _ _ _ "Grp 2 (Plus nameClass)"] in_rematch_versionPart in_rematch_name_grp
  by auto

lemma in_rematch_ownerPart:
  "(s', m') \<in> set (rematch False (Seq (Grp 1 (Plus nameClass)) (Seq (Chr CHR ''/'') (Seq (Grp 2 (Plus nameClass))
        (Seq (Opt (Seq (Chr CHR ''@'') (Grp 3 (Plus nameClass)))) Eol)))) s m) \<longleftrightarrow>
     s' = [] \<and> (\<exists>ow rp. validName ow \<and> validName rp \<and> ((s = ow @ ''/'' @ rp \<and> m' = (2, rp) # (1, ow) # m) \<or>
        (\<exists>v. validName v \<and> s = ow @ ''/'' @ rp @ ''@'' @ v \<and> m' = (3, v) # (2, rp) # (1, ow) # m)))"
  unfolding in_rematch_Seq [of _ _ _ "Grp 1 (Plus nameClass)"] in_rematch_Seq [of _ _ _ "Chr CHR ''/''"]
    in_rematch_repoPart in_rematch_name_grp in_rematch_Chr
  by (auto simp: chrMatches_def)

lemma in_rematch_repoURLRegex:
  "(s', m') \<in> set (rematch False repoURLRegex s []) \<longleftrightarrow>
     s' = [] \<and> (\<exists>ow rp. validName ow \<and> validName rp \<and>
        ((s = refString ow rp None \<and> m' = [(2, rp), (1, ow)]) \<or>
         (\<exists>v. validName v \<and> s = refString ow rp (Some v) \<and> m' = [(3, v), (2, rp), (1, ow)])))"
  unfolding repoURLRegex_def seqs.simps in_rematch_Seq [of _ _ _ "lit _"] in_rematch_lit
    in_rematch_ownerPart refString_def
  by auto

lemma nameChar_slash [simp]: "\<not> nameChar CHR ''/''"
  by (simp add: nameChar_def isWordChar_def upperAZ_def lowerAZ_def digits_def)

lemma nameChar_at [simp]: "\<not> nameChar CHR ''@''"
  by (simp add: nameChar_def isWordChar_def upperAZ_def lowerAZ_def digits_def)

lemma split_unique:
  "list_all P x \<Longrightarrow> list_all P y \<Longrightarrow> \<not> P d \<Longrightarrow> x @ d # t = y @ d # t' \<Longrightarrow> x = y \<and> t = t'"
proof (induction x arbitrary: y)
  case Nil
  then show ?case by (cases y) auto
next
  case (Cons a x)
  then show ?case by (cases y) auto
qed

lemma no_split: "list_all P x \<Longrightarrow> \<not> P d \<Longrightarrow> x \<noteq> y @ d # t"
  by (auto simp: list_all_iff)

lemma refString_inj:
  assumes "validName ow" "validName rp" "case v of None \<Rightarrow> True | Some x \<Rightarrow> validName x"
    and "validName ow'" "validName rp'" "case v' of None \<Rightarrow> True | Some x \<Rightarrow> validName x"
    and eq: "refString ow rp v = refString ow' rp' v'"
  shows "ow = ow' \<and> rp = rp' \<and> v = v'"
proof -
  let ?t = "\<lambda>rp v. rp @ (case v of None \<Rightarrow> [] | Some x \<Rightarrow> CHR ''@'' # x)"
  from eq have "ow @ CHR ''/'' # ?t rp v = ow' @ CHR ''/'' # ?t rp' v'"
    by (cases v; cases v'; simp add: refString_def)
  with assms(1,4) have ow: "ow = ow'" and t: "?t rp v = ?t rp' v'"
    using split_unique [of nameChar ow ow' "CHR ''/''"] by (auto simp: validName_def)
  have "rp = rp' \<and> v = v'"
  proof (cases v)
    case None
    note vN = this
    show ?thesis
    proof (cases v')
      case None
      with vN t show ?thesis by simp
    next
      case (Some x')
      with vN t assms(2) show ?thesis
        using no_split [of nameChar rp "CHR ''@''" rp' x'] by (simp add: validName_def)
    qed
  next
    case (Some x)
    note vS = this
    show ?thesis
    proof (cases v')
      case None
      with vS t assms(5) show ?thesis
        using no_split [of nameChar rp' "CHR ''@''" rp x] by (auto simp: validName_def)
    next
      case (Some x')
      with vS t assms(2,5) show ?thesis
        using split_unique [of nameChar rp rp' "CHR ''@''" x x'] by (simp add: validName_def)
    qed
  qed
  with ow show ?thesis by simp
qed

lemma execAt_unique:
  assumes "(s1, m) \<in> set (rematch ic r s [])"
    and "\<And>s' m'. (s', m') \<in> set (rematch ic r s []) \<Longrightarrow> m' = m"
  shows "execAt ic r s = Some m"
proof (cases "rematch ic r s []")
  case Nil
  with assms(1) show ?thesis by simp
next
  case (Cons a xs)
  obtain s' m' where a: "a = (s', m')" by (cases a)
  with Cons have "(s', m') \<in> set (rematch ic r s [])" by simp
  then have "m' = m" by (rule assms(2))
  with Cons a show ?thesis by (simp add: execAt_def)
qed

lemma exec_repoURLRegex:
  assumes "validName ow" "validName rp" "case v of None \<Rightarrow> True | Some x \<Rightarrow> validName x"
  shows "execAnchored False repoURLRegex (refString ow rp v) =
           Some ((case v of None \<Rightarrow> [] | Some x \<Rightarrow> [(3, x)]) @ [(2, rp), (1, ow)])"
    (is "_ = Some ?m")
  unfolding execAnchored_def
proof (rule execAt_unique)
  show "([], ?m) \<in> set (rematch False repoURLRegex (refString ow rp v) [])"
    unfolding in_rematch_repoURLRegex using assms by (cases v) auto
next
  fix s' m'
  assume "(s', m') \<in> set (rematch False repoURLRegex (refString ow rp v) [])"
  then obtain ow' rp' where b: "validName ow'" "validName rp'"
      "(refString ow rp v = refString ow' rp' None \<and> m' = [(2, rp'), (1, ow')]) \<or>
       (\<exists>x. validName x \<and> refString ow rp v = refString ow' rp' (Some x) \<and>
          m' = [(3, x), (2, rp'), (1, ow')])"
    unfolding in_rematch_repoURLRegex by blast
  from b(3) show "m' = ?m"
  proof (elim disjE exE conjE)
    assume "refString ow rp v = refString ow' rp' None" "m' = [(2, rp'), (1, ow')]"
    with refString_inj [OF assms b(1,2), of None] show ?thesis by simp
  next
    fix x
    assume "validName x" "refString ow rp v = refString ow' rp' (Some x)"
      "m' = [(3, x), (2, rp'), (1, ow')]"
    with refString_inj [OF assms b(1,2), of "Some x"] show ?thesis by simp
  qed
qed

lemma exec_repoURLRegex_None:
  assumes "\<not> conforming s"
  shows "execAnchored False repoURLRegex s = None"
proof (cases "rematch False repoURLRegex s []")
  case Nil
  then show ?thesis by (simp add: execAnchored_def execAt_def)
next
  case (Cons a xs)
  obtain s' m' where "a = (s', m')" by (cases a)
  with Cons have "(s', m') \<in> set (rematch False repoURLRegex s [])" by simp
  then have "conforming s"
    unfolding in_rematch_repoURLRegex conforming_def
    by (metis option.simps(4,5))
  with assms show ?thesis by simp
qed

text \<open>
  Claim C5. Parsing a string of the reference grammar returns exactly the owner, the
  repository and the version it was written from, with the version \<open>latest\<close> when the
  \<open>@version\<close> suffix is absent; parsing any string outside the grammar fails with
  \<open>InvalidReference\<close>.
\<close>

theorem parseRepoURL_roundtrip:
  "(validName ow \<and> validName rp \<and> validName v \<longrightarrow>
      parseRepoURL (refString ow rp (Some v)) = Inr \<lparr>owner = ow, repo = rp, version = v\<rparr>) \<and>
   (validName ow \<and> validName rp \<longrightarrow>
      parseRepoURL (refString ow rp None) = Inr \<lparr>owner = ow, repo = rp, version = ''latest''\<rparr>) \<and>
   (\<not> conforming s \<longrightarrow> parseRepoURL s = Inl (InvalidReference s))"
proof (intro conjI impI)
  assume "validName ow \<and> validName rp \<and> validName v"
  then show "parseRepoURL (refString ow rp (Some v)) = Inr \<lparr>owner = ow, repo = rp, version = v\<rparr>"
    using exec_repoURLRegex [of ow rp "Some v"] by (simp add: parseRepoURL_def group_def)
next
  assume "validName ow \<and> validName rp"
  then show "parseRepoURL (refString ow rp None) = Inr \<lparr>owner = ow, repo = rp, version = ''latest''\<rparr>"
    using exec_repoURLRegex [of ow rp None] by (simp add: parseRepoURL_def group_def)
next
  assume "\<not> conforming s"
  then show "parseRepoURL s = Inl (InvalidReference s)"
    by (simp add: parseRepoURL_def exec_repoURLRegex_None)
qed

lemma validName_code: "validName ''acme''" "validName ''widget''" "validName ''v1.2.0''"
  by (simp_all add: validName_def nameChar_def isWordChar_def upperAZ_def lowerAZ_def digits_def)

theorem parseRepoURL_roundtrip_witness:
  "validName ''acme'' \<and> validName ''widget'' \<and> validName ''v1.2.0'' \<and>
   parseRepoURL ''github.com/acme/widget@v1.2.0'' =
     Inr \<lparr>owner = ''acme'', repo = ''widget'', version = ''v1.2.0''\<rparr> \<and>
   parseRepoURL ''github.com/acme/widget'' =
     Inr \<lparr>owner = ''acme'', repo = ''widget'', version = ''latest''\<rparr> \<and>
   \<not> conforming ''github.com/acme/widget/'' \<and>
   parseRepoURL ''github.com/acme/widget/'' = Inl (InvalidReference ''github.com/acme/widget/'')"
proof -
  have p: "parseRepoURL ''github.com/acme/widget/'' = Inl (InvalidReference ''github.com/acme/widget/'')"
    by code_simp
  have nc: "\<not> conforming ''github.com/acme/widget/''"
  proof
    assume "conforming ''github.com/acme/widget/''"
    then obtain ow rp v where h: "validName ow" "validName rp"
      "case v of None \<Rightarrow> True | Some x \<Rightarrow> validName x"
      "''github.com/acme/widget/'' = refString ow rp v"
      unfolding conforming_def by blast
    show False
    proof (cases v)
      case None
      with h parseRepoURL_roundtrip [of ow rp undefined undefined] p show False by simp
    next
      case (Some x)
      with h parseRepoURL_roundtrip [of ow rp x undefined] p show False by simp
    qed
  qed
  from parseRepoURL_roundtrip [of "''acme''" "''widget''" "''v1.2.0''" "''github.com/acme/widget/''"]
    validName_code nc
  show ?thesis by (simp add: refString_def)
qed

section \<open>Properties of the asset matcher\<close>

lemma in_rematch_Alt:
  "(s', m') \<in> set (rematch ic (Alt r1 r2) s m) \<longleftrightarrow>
     (s', m') \<in> set (rematch ic r1 s m) \<or> (s', m') \<in> set (rematch ic r2 s m)"
  by auto

lemma in_rematch_AnyChar:
  "(s', m') \<in> set (rematch ic AnyChar s m) \<longleftrightarrow> (\<exists>c. s = c # s' \<and> \<not> isLineTerminator c \<and> m' = m)"
  by (cases s) auto

lemma rematch_suffix:
  "(s', m') \<in> set (rematch ic r s m) \<Longrightarrow> \<exists>pre. s = pre @ s'"
proof (induction ic r s m arbitrary: s' m' rule: rematch.induct)
  case (9 ic r1 r2 s cs)
  from "9.prems" obtain s1 m1 where a: "(s1, m1) \<in> set (rematch ic r1 s cs)"
    and b: "(s', m') \<in> set (rematch ic r2 s1 m1)"
    unfolding in_rematch_Seq by blast
  from "9.IH"(1) [OF a] obtain p1 where "s = p1 @ s1" by blast
  moreover from "9.IH"(2) a b have "\<exists>p2. s1 = p2 @ s'" by blast
  ultimately show ?case by auto
next
  case (12 ic r s cs)
  from "12.prems" obtain s1 m1 where a: "(s1, m1) \<in> set (rematch ic r s cs)"
    and b: "(length s1 < length s \<and> (s', m') \<in> set (rematch ic (Plus r) s1 m1)) \<or> (s', m') = (s1, m1)"
    by (subst (asm) rematch_Plus) (auto split: if_splits)
  from "12.IH"(1) [OF a] obtain p1 where p1: "s = p1 @ s1" by blast
  from b show ?case
  proof
    assume c: "length s1 < length s \<and> (s', m') \<in> set (rematch ic (Plus r) s1 m1)"
    with "12.IH"(2) a have "\<exists>p2. s1 = p2 @ s'" by blast
    with p1 show ?thesis by auto
  next
    assume "(s', m') = (s1, m1)"
    with p1 show ?thesis by auto
  qed
qed (auto split: if_splits)

lemma seq_tail:
  assumes "(s', m') \<in> set (rematch ic (Seq r1 r2) s m)"
  shows "\<exists>pre s1 m1. s = pre @ s1 \<and> (s', m') \<in> set (rematch ic r2 s1 m1)"
proof -
  from assms obtain s1 m1 where a: "(s1, m1) \<in> set (rematch ic r1 s m)"
    and b: "(s', m') \<in> set (rematch ic r2 s1 m1)"
    unfolding in_rematch_Seq by blast
  from rematch_suffix [OF a] b show ?thesis by blast
qed

lemma in_suffixesOf: "t \<in> set (suffixesOf s) \<Longrightarrow> \<exists>pre. s = pre @ t"
  by (induction s) (auto intro: exI [of _ "[]"] simp: Cons_eq_append_conv)

lemma regexTest_iff:
  "regexTest ic r s \<longleftrightarrow> (\<exists>t\<in>set (suffixesOf s). rematch ic r t [] \<noteq> [])"
  by (auto simp: regexTest_def execAt_def list_ex_iff split: list.splits)

lemma tar_tail_last:
  assumes "(s', m') \<in> set (rematch True
      (Seq (Grp k (Alt (patternText ''.tar.gz'') (patternText ''.tgz''))) Eol) s m)"
  shows "s \<noteq> [] \<and> chrMatches True CHR ''z'' (last s)"
  using assms
  by (auto simp: in_rematch_Chr in_rematch_AnyChar)

lemma zip_tail_last:
  assumes "(s', m') \<in> set (rematch True (Seq (patternText ''.zip'') Eol) s m)"
  shows "s \<noteq> [] \<and> chrMatches True CHR ''p'' (last s)"
  using assms
  by (auto simp: in_rematch_Chr in_rematch_AnyChar)

lemma seq_tail5:
  assumes "(s', m') \<in> set (rematch ic (Seq a (Seq b (Seq c (Seq d (Seq e r))))) s m)"
  shows "\<exists>pre s1 m1. s = pre @ s1 \<and> (s', m') \<in> set (rematch ic r s1 m1)"
proof -
  from seq_tail [OF assms] obtain p1 s1 m1 where 1: "s = p1 @ s1"
    and "(s', m') \<in> set (rematch ic (Seq b (Seq c (Seq d (Seq e r)))) s1 m1)" by blast
  from seq_tail [OF this(2)] obtain p2 s2 m2 where 2: "s1 = p2 @ s2"
    and "(s', m') \<in> set (rematch ic (Seq c (Seq d (Seq e r))) s2 m2)" by blast
  from seq_tail [OF this(2)] obtain p3 s3 m3 where 3: "s2 = p3 @ s3"
    and "(s', m') \<in> set (rematch ic (Seq d (Seq e r)) s3 m3)" by blast
  from seq_tail [OF this(2)] obtain p4 s4 m4 where 4: "s3 = p4 @ s4"
    and "(s', m') \<in> set (rematch ic (Seq e r) s4 m4)" by blast
  from seq_tail [OF this(2)] obtain p5 s5 m5 where 5: "s4 = p5 @ s5"
    and m5: "(s', m') \<in> set (rematch ic r s5 m5)" by blast
  from 1 2 3 4 5 have "s = (p1 @ p2 @ p3 @ p4 @ p5) @ s5" by simp
  with m5 show ?thesis by blast
qed

lemma regexTest_witness:
  assumes "regexTest ic r s"
  shows "\<exists>pre t s' m'. s = pre @ t \<and> (s', m') \<in> set (rematch ic r t [])"
proof -
  from assms obtain t where t: "t \<in> set (suffixesOf s)" and ne: "rematch ic r t [] \<noteq> []"
    unfolding regexTest_iff by blast
  from ne obtain x where "x \<in> set (rematch ic r t [])" by (cases "rematch ic r t []") auto
  moreover obtain s' m' where "x = (s', m')" by (cases x)
  ultimately show ?thesis using in_suffixesOf [OF t] by blast
qed

lemma tarRegex_last:
  assumes "regexTest True (tarRegex sys rp) s"
  shows "s \<noteq> [] \<and> chrMatches True CHR ''z'' (last s)"
proof -
  from regexTest_witness [OF assms] obtain p0 t s' m' where p0: "s = p0 @ t"
    and m: "(s', m') \<in> set (rematch True (tarRegex sys rp) t [])" by blast
  from seq_tail5 [OF m [unfolded tarRegex_def seqs.simps]]
  obtain p5 s5 m5 where 5: "t = p5 @ s5" and m5: "(s', m') \<in> set (rematch True
      (Seq (Grp (osGroups sys + 1) (Alt (patternText ''.tar.gz'') (patternText ''.tgz''))) Eol) s5 m5)"
    by blast
  from tar_tail_last [OF m5] have "s5 \<noteq> []" "chrMatches True CHR ''z'' (last s5)" by auto
  with p0 5 show ?thesis by simp
qed

lemma zipRegex_last:
  assumes "regexTest True (zipRegex sys rp) s"
  shows "s \<noteq> [] \<and> chrMatches True CHR ''p'' (last s)"
proof -
  from regexTest_witness [OF assms] obtain p0 t s' m' where p0: "s = p0 @ t"
    and m: "(s', m') \<in> set (rematch True (zipRegex sys rp) t [])" by blast
  from seq_tail5 [OF m [unfolded zipRegex_def seqs.simps]]
  obtain p5 s5 m5 where 5: "t = p5 @ s5" and m5: "(s', m') \<in> set (rematch True
      (Seq (patternText ''.zip'') Eol) s5 m5)"
    by blast
  from zip_tail_last [OF m5] have "s5 \<noteq> []" "chrMatches True CHR ''p'' (last s5)" by auto
  with p0 5 show ?thesis by simp
qed

lemma tar_not_zip:
  assumes "regexTest True (tarRegex sys rp) s"
  shows "\<not> regexTest True (zipRegex sys rp) s"
proof
  assume "regexTest True (zipRegex sys rp) s"
  from zipRegex_last [OF this] tarRegex_last [OF assms]
  have "toUpperChar CHR ''p'' = toUpperChar CHR ''z''" by (simp add: chrMatches_def)
  then show False by (simp add: toUpperChar_def upperAZ_def lowerAZ_def)
qed

text \<open>
  The asset names of the specification match the patterns of the source: for every
  repository name and host, \<^verbatim>\<open><repo>_<os>_<arch>\<close> followed by \<open>.tar.gz\<close> or \<open>.tgz\<close>
  passes the tar pattern and followed by \<open>.zip\<close> the zip pattern.
\<close>

lemma consumes_Chr: "chrMatches ic a c \<Longrightarrow> consumes ic (Chr a) (c # s) s"
  by (simp add: consumes_def)

lemma consumes_AnyChar: "\<not> isLineTerminator c \<Longrightarrow> consumes ic AnyChar (c # s) s"
  by (simp add: consumes_def)

lemma consumes_Eps: "consumes ic Eps s s"
  by (simp add: consumes_def)

lemma consumes_Eol: "consumes ic Eol [] []"
  by (simp add: consumes_def)

lemma consumes_Seq:
  assumes "consumes ic r1 s s1" and "consumes ic r2 s1 s2"
  shows "consumes ic (Seq r1 r2) s s2"
  unfolding consumes_def
proof
  fix m
  from assms(1) obtain m1 where 1: "(s1, m1) \<in> set (rematch ic r1 s m)"
    unfolding consumes_def by blast
  from assms(2) obtain m2 where 2: "(s2, m2) \<in> set (rematch ic r2 s1 m1)"
    unfolding consumes_def by blast
  from 1 2 have "(s2, m2) \<in> set (rematch ic (Seq r1 r2) s m)"
    unfolding in_rematch_Seq by blast
  then show "\<exists>m'. (s2, m') \<in> set (rematch ic (Seq r1 r2) s m)" ..
qed

lemma consumes_Alt1: "consumes ic r1 s s' \<Longrightarrow> consumes ic (Alt r1 r2) s s'"
  unfolding consumes_def in_rematch_Alt by blast

lemma consumes_Alt2: "consumes ic r2 s s' \<Longrightarrow> consumes ic (Alt r1 r2) s s'"
  unfolding consumes_def in_rematch_Alt by blast

lemma consumes_Grp: "consumes ic r s s' \<Longrightarrow> consumes ic (Grp n r) s s'"
  unfolding consumes_def in_rematch_Grp by blast

lemma consumes_patternText: "consumes True (patternText p) (p @ s) s"
proof (induction p)
  case Nil
  show ?case by (simp add: consumes_Eps)
next
  case (Cons c p)
  have "consumes True (if c = CHR ''.'' then AnyChar else Chr c) (c # p @ s) (p @ s)"
    by (simp add: consumes_Chr consumes_AnyChar chrMatches_def isLineTerminator_def)
  from consumes_Seq [OF this Cons] show ?case by simp
qed

lemma consumes_test: "consumes ic r s s' \<Longrightarrow> regexTest ic r s"
proof -
  assume "consumes ic r s s'"
  then obtain m' where "(s', m') \<in> set (rematch ic r s [])"
    unfolding consumes_def by blast
  then have "rematch ic r s [] \<noteq> []" by auto
  moreover have "s \<in> set (suffixesOf s)" by (cases s) simp_all
  ultimately show ?thesis unfolding regexTest_iff by blast
qed

lemma consumes_osPattern:
  assumes "osn \<in> set (osAliases sys)"
  shows "consumes True (osPattern sys n) (osn @ s) s"
proof (cases "platform sys = ''darwin''")
  case True
  with assms have "osn = ''Darwin'' \<or> osn = ''macOS''" by (simp add: osAliases_def)
  then have "consumes True (Alt (patternText ''Darwin'') (patternText ''macOS'')) (osn @ s) s"
    using consumes_patternText [of "''Darwin''" s] consumes_patternText [of "''macOS''" s]
    by (auto intro: consumes_Alt1 consumes_Alt2 simp del: patternText.simps)
  with True show ?thesis by (simp add: osPattern_def consumes_Grp del: patternText.simps)
next
  case False
  with assms have "osn = osName sys" by (simp add: osAliases_def)
  with False show ?thesis by (simp add: osPattern_def consumes_patternText)
qed

lemma consumes_platform_name:
  assumes "osn \<in> set (osAliases sys)" and "consumes True tail ext []"
  shows "consumes True
      (Seq (patternText rp) (Seq (Chr CHR ''_'') (Seq (osPattern sys 1) (Seq (Chr CHR ''_'')
         (Seq (patternText (archName sys)) tail)))))
      (platformAssetName sys rp osn ext) []"
proof -
  have u: "\<And>s. consumes True (Chr CHR ''_'') (CHR ''_'' # s) s"
    by (simp add: consumes_Chr chrMatches_def)
  have "consumes True (Seq (patternText (archName sys)) tail) (archName sys @ ext) []"
    by (rule consumes_Seq [OF consumes_patternText assms(2)])
  from consumes_Seq [OF u this]
  have "consumes True (Seq (Chr CHR ''_'') (Seq (patternText (archName sys)) tail))
      (CHR ''_'' # archName sys @ ext) []" .
  from consumes_Seq [OF consumes_osPattern [OF assms(1)] this]
  have "consumes True (Seq (osPattern sys 1) (Seq (Chr CHR ''_'') (Seq (patternText (archName sys)) tail)))
      (osn @ CHR ''_'' # archName sys @ ext) []" .
  from consumes_Seq [OF consumes_patternText consumes_Seq [OF u this]]
  show ?thesis by (simp add: platformAssetName_def)
qed

lemma platform_tar_name_matches:
  assumes "osn \<in> set (osAliases sys)" and "ext = ''.tar.gz'' \<or> ext = ''.tgz''"
  shows "regexTest True (tarRegex sys rp) (platformAssetName sys rp osn ext)"
proof -
  from assms(2) have "consumes True (Alt (patternText ''.tar.gz'') (patternText ''.tgz'')) ext []"
    using consumes_patternText [of "''.tar.gz''" "[]"] consumes_patternText [of "''.tgz''" "[]"]
    by (auto intro: consumes_Alt1 consumes_Alt2 simp del: patternText.simps)
  then have "consumes True
      (Seq (Grp (osGroups sys + 1) (Alt (patternText ''.tar.gz'') (patternText ''.tgz''))) Eol) ext []"
    by (intro consumes_Seq [OF consumes_Grp consumes_Eol])
  from consumes_platform_name [OF assms(1) this] show ?thesis
    unfolding tarRegex_def seqs.simps by (rule consumes_test)
qed

lemma platform_zip_name_matches:
  assumes "osn \<in> set (osAliases sys)"
  shows "regexTest True (zipRegex sys rp) (platformAssetName sys rp osn ''.zip'')"
proof -
  have "consumes True (Seq (patternText ''.zip'') Eol) ''.zip'' []"
    using consumes_Seq [OF consumes_patternText [of "''.zip''" "[]"] consumes_Eol]
    by (simp del: patternText.simps)
  from consumes_platform_name [OF assms(1) this] show ?thesis
    unfolding zipRegex_def seqs.simps by (rule consumes_test)
qed

text \<open>
  Claim C6. Whenever the asset list holds an asset that matches the tar pattern and an
  asset that matches the zip pattern of the host platform, \<open>findMatchingAsset\<close> returns
  the first asset of the list that matches the tar pattern, classified as a tar archive,
  wherever the two assets stand in the list; the selected asset does not match the zip
  pattern.
\<close>

theorem tar_preferred_over_zip:
  assumes "t \<in> set assets" and "regexTest True (tarRegex sys rp) (name t)"
    and "z \<in> set assets" and "regexTest True (zipRegex sys rp) (name z)"
  shows "\<exists>a. findMatchingAsset assets sys rp = Inr \<lparr> matched = a, kind = IsTar \<rparr> \<and>
           find (\<lambda>a. regexTest True (tarRegex sys rp) (name a)) assets = Some a \<and>
           a \<in> set assets \<and> regexTest True (tarRegex sys rp) (name a) \<and>
           \<not> regexTest True (zipRegex sys rp) (name a)"
proof -
  from assms(1,2) obtain a where a: "find (\<lambda>a. regexTest True (tarRegex sys rp) (name a)) assets = Some a"
    by (cases "find (\<lambda>a. regexTest True (tarRegex sys rp) (name a)) assets") (auto simp: find_None_iff)
  then have b: "a \<in> set assets" "regexTest True (tarRegex sys rp) (name a)"
    by (auto simp: find_Some_iff)
  from a b tar_not_zip [OF b(2)] show ?thesis
    by (simp add: findMatchingAsset_def)
qed

theorem tar_preferred_over_zip_witness:
  "mkAsset ''widget_Linux_x86_64.tar.gz'' \<in> set [mkAsset ''widget_Linux_x86_64.zip'', mkAsset ''widget_Linux_x86_64.tar.gz''] \<and>
   regexTest True (tarRegex linuxHost ''widget'') (name (mkAsset ''widget_Linux_x86_64.tar.gz'')) \<and>
   mkAsset ''widget_Linux_x86_64.zip'' \<in> set [mkAsset ''widget_Linux_x86_64.zip'', mkAsset ''widget_Linux_x86_64.tar.gz''] \<and>
   regexTest True (zipRegex linuxHost ''widget'') (name (mkAsset ''widget_Linux_x86_64.zip'')) \<and>
   findMatchingAsset [mkAsset ''widget_Linux_x86_64.zip'', mkAsset ''widget_Linux_x86_64.tar.gz'']
      linuxHost ''widget'' =
     Inr \<lparr> matched = mkAsset ''widget_Linux_x86_64.tar.gz'', kind = IsTar \<rparr>"
proof -
  let ?as = "[mkAsset ''widget_Linux_x86_64.zip'', mkAsset ''widget_Linux_x86_64.tar.gz'']"
  have os: "''Linux'' \<in> set (osAliases linuxHost)" by (simp add: osAliases_def linuxHost_def)
  have nt: "platformAssetName linuxHost ''widget'' ''Linux'' ''.tar.gz'' = ''widget_Linux_x86_64.tar.gz''"
    by (simp add: platformAssetName_def linuxHost_def)
  have nzp: "platformAssetName linuxHost ''widget'' ''Linux'' ''.zip'' = ''widget_Linux_x86_64.zip''"
    by (simp add: platformAssetName_def linuxHost_def)
  have t: "regexTest True (tarRegex linuxHost ''widget'') (name (mkAsset ''widget_Linux_x86_64.tar.gz''))"
    using platform_tar_name_matches [OF os, of "''.tar.gz''" "''widget''"] by (simp add: nt mkAsset_def)
  have z: "regexTest True (zipRegex linuxHost ''widget'') (name (mkAsset ''widget_Linux_x86_64.zip''))"
    using platform_zip_name_matches [OF os, of "''widget''"] by (simp add: nzp mkAsset_def)
  have nz: "\<not> regexTest True (tarRegex linuxHost ''widget'') (name (mkAsset ''widget_Linux_x86_64.zip''))"
    by code_simp
  have m1: "mkAsset ''widget_Linux_x86_64.tar.gz'' \<in> set ?as" by simp
  have m2: "mkAsset ''widget_Linux_x86_64.zip'' \<in> set ?as" by simp
  from tar_preferred_over_zip [OF m1 t m2 z] obtain a where
    a: "findMatchingAsset ?as linuxHost ''widget'' = Inr \<lparr> matched = a, kind = IsTar \<rparr>"
    and "a \<in> set ?as" and "regexTest True (tarRegex linuxHost ''widget'') (name a)"
    by blast
  with nz have "a = mkAsset ''widget_Linux_x86_64.tar.gz''" by auto
  with a t z show ?thesis by simp
qed

text \<open>
  Claim C9. The tar pattern is not anchored at the start of the asset name and its dots
  match any character: for the repository \<open>widget\<close> on Linux/x86_64 the assets
  \<open>notwidget_Linux_x86_64.tar.gz\<close> and \<open>widget_Linux_x86_64xtarxgz\<close> are both selected
  and classified as tar archives.
\<close>

theorem unanchored_undotted_tar_match:
  "getSystemInfo ''linux'' ''x64'' = Inr linuxHost \<and>
   findMatchingAsset [mkAsset ''notwidget_Linux_x86_64.tar.gz''] linuxHost ''widget'' =
     Inr \<lparr> matched = mkAsset ''notwidget_Linux_x86_64.tar.gz'', kind = IsTar \<rparr> \<and>
   findMatchingAsset [mkAsset ''widget_Linux_x86_64xtarxgz''] linuxHost ''widget'' =
     Inr \<lparr> matched = mkAsset ''widget_Linux_x86_64xtarxgz'', kind = IsTar \<rparr>"
  by code_simp

section \<open>Properties of the binary locator\<close>

lemma common_LICENSE_MIT: "isCommonNonBinaryName ''LICENSE-MIT''"
  by code_simp

lemma finalCandidate_LICENSE_MIT: "finalCandidate ''LICENSE-MIT''"
  by code_simp

lemma jsSort_single [simp]: "jsSort cmp [x] = [x]"
  by (simp add: jsSort_def)

lemma searchDir_chain:
  "searchDir repoName dir (chain n [(''LICENSE-MIT'', File c m)]) depth None = None"
proof (induction n arbitrary: dir depth)
  case 0
  show ?case
    by (subst searchDir.simps) (simp add: examineFile_def common_LICENSE_MIT)
next
  case (Suc n)
  show ?case
    by (subst searchDir.simps) (simp add: Suc.IH)
qed

lemma finalSearch_chain:
  "fst (finalSearch repoName dir (chain n [(''LICENSE-MIT'', File c m)]) None) =
     Some (path_join (chainPath n dir) ''LICENSE-MIT'')"
proof (induction n arbitrary: dir)
  case 0
  show ?case
    by (simp add: finalCandidate_LICENSE_MIT)
next
  case (Suc n)
  obtain r b where rb: "finalSearch repoName (path_join dir ''d'') (chain n [(''LICENSE-MIT'', File c m)]) None = (r, b)"
    by (cases "finalSearch repoName (path_join dir ''d'') (chain n [(''LICENSE-MIT'', File c m)]) None")
  with Suc.IH [of "path_join dir ''d''"] have "r = Some (path_join (chainPath n (path_join dir ''d'')) ''LICENSE-MIT'')"
    by simp
  with rb show ?case by simp
qed

lemma splitPath_plain:
  assumes "c \<noteq> CHR ''/''" and "CHR ''/'' \<notin> set s"
  shows "splitPath (c # s) = [c # s]"
proof -
  from assms(2) have 1: "takeWhile (\<lambda>x. x \<noteq> CHR ''/'') s = s"
    by (simp add: takeWhile_eq_all_conv) metis
  from assms(2) have 2: "dropWhile (\<lambda>x. x \<noteq> CHR ''/'') s = []"
    by (simp add: dropWhile_eq_Nil_conv) metis
  from assms(1) show ?thesis by (simp add: 1 2)
qed

lemma splitPath_append_name:
  assumes "f \<noteq> []" and "CHR ''/'' \<notin> set f"
  shows "splitPath (d @ ''/'' @ f) = splitPath d @ [f]"
proof (induction d rule: splitPath.induct)
  case 1
  from assms obtain a list where f: "f = a # list" by (cases f) auto
  with assms have "splitPath (a # list) = [a # list]"
    by (intro splitPath_plain) auto
  with f show ?case by simp
next
  case (2 c s)
  show ?case
  proof (cases "c = CHR ''/''")
    case True
    with 2 show ?thesis by simp
  next
    case False
    have tw: "takeWhile (\<lambda>x. x \<noteq> CHR ''/'') (s @ CHR ''/'' # f) = takeWhile (\<lambda>x. x \<noteq> CHR ''/'') s"
      by (induction s) auto
    have dw: "dropWhile (\<lambda>x. x \<noteq> CHR ''/'') (s @ CHR ''/'' # f) = dropWhile (\<lambda>x. x \<noteq> CHR ''/'') s @ CHR ''/'' # f"
      by (induction s) auto
    from False 2(2) show ?thesis
      by (simp add: tw dw)
  qed
qed

lemma absPath_snoc: "absPath (segs @ [f]) = absPath segs @ ''/'' @ f"
  by (simp add: absPath_def)

lemma splitPath_absPath:
  "\<forall>s\<in>set segs. plainName s \<Longrightarrow> splitPath (absPath segs) = segs"
proof (induction segs rule: rev_induct)
  case Nil
  show ?case by (simp add: absPath_def)
next
  case (snoc f segs)
  then have "f \<noteq> []" "CHR ''/'' \<notin> set f" by (simp_all add: plainName_def)
  from splitPath_append_name [OF this, of "absPath segs"] snoc show ?case
    by (simp add: absPath_snoc)
qed

lemma resolveDots_plain:
  "\<forall>s\<in>set ss. plainName s \<Longrightarrow> resolveDots ab st ss = st @ ss"
  by (induction ss arbitrary: st) (auto simp: plainName_def)

lemma joinSegments_absPath:
  "segs \<noteq> [] \<Longrightarrow> CHR ''/'' # joinSegments segs = absPath segs"
  by (induction segs rule: joinSegments.induct) (simp_all add: absPath_def)

lemma joinSegments_Nil: "joinSegments segs = [] \<Longrightarrow> \<forall>s\<in>set segs. plainName s \<Longrightarrow> segs = []"
  by (induction segs rule: joinSegments.induct) (auto simp: plainName_def)

lemma absPath_shape:
  assumes "segs \<noteq> []" and "\<forall>s\<in>set segs. plainName s"
  shows "absPath segs \<noteq> [] \<and> hd (absPath segs) = CHR ''/'' \<and> last (absPath segs) \<noteq> CHR ''/''"
proof -
  from assms(1) obtain segs' f where sf: "segs = segs' @ [f]" by (cases segs rule: rev_cases) auto
  with assms(2) have f: "f \<noteq> []" "CHR ''/'' \<notin> set f" by (simp_all add: plainName_def)
  then have "last f \<noteq> CHR ''/''" using last_in_set by metis
  with f sf have "last (absPath segs) \<noteq> CHR ''/''" by (simp add: absPath_snoc)
  moreover from assms(1) have "absPath segs \<noteq> [] \<and> hd (absPath segs) = CHR ''/''"
    by (cases segs) (simp_all add: absPath_def)
  ultimately show ?thesis by simp
qed

lemma normalize_absPath:
  assumes "segs \<noteq> []" and "\<forall>s\<in>set segs. plainName s"
  shows "normalize (absPath segs) = absPath segs"
proof -
  from assms have r: "resolveDots True [] (splitPath (absPath segs)) = segs"
    by (simp add: splitPath_absPath resolveDots_plain)
  from assms joinSegments_Nil [of segs] have ne: "joinSegments segs \<noteq> []" by blast
  from absPath_shape [OF assms] r ne joinSegments_absPath [OF assms(1)] show ?thesis
    by (simp add: normalize_def)
qed

lemma path_join_absPath:
  assumes "segs \<noteq> []" and "\<forall>s\<in>set segs. plainName s" and "plainName f"
  shows "path_join (absPath segs) f = absPath (segs @ [f])"
proof -
  from assms have "normalize (absPath (segs @ [f])) = absPath (segs @ [f])"
    by (intro normalize_absPath) auto
  moreover from absPath_shape [OF assms(1,2)] have "absPath segs \<noteq> []" by simp
  moreover from assms(3) have "f \<noteq> []" by (simp add: plainName_def)
  ultimately show ?thesis by (simp add: path_join_def absPath_snoc)
qed

lemma pathParts_absPath:
  "\<forall>s\<in>set segs. plainName s \<Longrightarrow> pathParts (absPath segs) = segs"
  by (simp add: pathParts_def splitPath_absPath resolveDots_plain)

lemma plainName_d: "plainName ''d''" "plainName ''x''" "plainName ''LICENSE-MIT''"
  by (simp_all add: plainName_def)

lemma chainPath_absPath:
  assumes "segs \<noteq> []" and "\<forall>s\<in>set segs. plainName s"
  shows "chainPath n (absPath segs) = absPath (segs @ replicate n ''d'')"
  using assms
proof (induction n arbitrary: segs)
  case 0
  show ?case by simp
next
  case (Suc n)
  from Suc.prems have j: "path_join (absPath segs) ''d'' = absPath (segs @ [''d''])"
    by (intro path_join_absPath) (simp_all add: plainName_d)
  from Suc.prems have "chainPath n (absPath (segs @ [''d''])) = absPath ((segs @ [''d'']) @ replicate n ''d'')"
    by (intro Suc.IH) (auto simp: plainName_d)
  with j show ?case by (simp add: replicate_app_Cons_same)
qed

lemma chain_leaf_path:
  "path_join (chainPath n ''/x'') ''LICENSE-MIT'' = absPath (''x'' # replicate n ''d'' @ [''LICENSE-MIT''])"
proof -
  have x: "''/x'' = absPath [''x'']" by (simp add: absPath_def)
  have c: "chainPath n (absPath [''x'']) = absPath ([''x''] @ replicate n ''d'')"
    by (intro chainPath_absPath) (simp_all add: plainName_d)
  have "path_join (absPath (''x'' # replicate n ''d'')) ''LICENSE-MIT'' =
      absPath ((''x'' # replicate n ''d'') @ [''LICENSE-MIT''])"
    by (intro path_join_absPath) (auto simp: plainName_d)
  with x c show ?thesis by simp
qed

lemma setEntry_single [simp]: "setEntry [(x, v)] x (Some w) = [(x, w)]"
  by (simp add: setEntry_def)

lemma lookupParts_chain:
  "lookupParts (replicate n ''d'' @ [x]) (Dir (chain n [(x, v)])) = Some v"
  by (induction n) simp_all

lemma putParts_chain:
  "putParts (replicate n ''d'' @ [x]) (Some w) (Dir (chain n [(x, v)])) = Some (Dir (chain n [(x, w)]))"
proof (induction n)
  case 0
  show ?case by simp
next
  case (Suc n)
  have "replicate n ''d'' @ [x] \<noteq> []" by simp
  then obtain y ys where ys: "replicate n ''d'' @ [x] = y # ys" by (cases "replicate n ''d'' @ [x]") auto
  show ?case using Suc.IH unfolding ys [symmetric]
    by (simp add: ys)
qed

lemma chmod_chain:
  "chmod (Dir [(''x'', Dir (chain n [(''LICENSE-MIT'', File c m)]))])
      (path_join (chainPath n ''/x'') ''LICENSE-MIT'') w =
   Inr (Dir [(''x'', Dir (chain n [(''LICENSE-MIT'', File c w)]))])"
proof -
  let ?p = "absPath (''x'' # replicate n ''d'' @ [''LICENSE-MIT''])"
  have sp: "pathParts ?p = ''x'' # (replicate n ''d'' @ [''LICENSE-MIT''])"
    by (intro pathParts_absPath) (auto simp: plainName_d)
  have pne: "?p \<noteq> []" by (simp add: absPath_def)
  have ne: "replicate n ''d'' @ [''LICENSE-MIT''] \<noteq> []" by simp
  then obtain y ys where ys: "replicate n ''d'' @ [''LICENSE-MIT''] = y # ys"
    by (cases "replicate n ''d'' @ [''LICENSE-MIT'']") auto
  have lk: "lookupPath (Dir [(''x'', Dir (chain n [(''LICENSE-MIT'', File c m)]))]) ?p = Some (File c m)"
    using pne by (simp add: lookupPath_def sp lookupParts_chain)
  have pp: "putParts (''x'' # y # ys) (Some (File c w)) (Dir [(''x'', Dir (chain n [(''LICENSE-MIT'', File c m)]))]) =
      Some (Dir [(''x'', Dir (chain n [(''LICENSE-MIT'', File c w)]))])"
    using putParts_chain [of n "''LICENSE-MIT''" "File c w" "File c m"]
    by (simp add: ys)
  have pt: "putParts (pathParts ?p) (Some (File c w))
      (Dir [(''x'', Dir (chain n [(''LICENSE-MIT'', File c m)]))]) =
      Some (Dir [(''x'', Dir (chain n [(''LICENSE-MIT'', File c w)]))])"
    by (subst sp, subst ys, rule pp)
  show ?thesis
    unfolding chain_leaf_path by (simp add: chmod_def lk pt)
qed

lemma searchDir_depth_bound:
  "3 < depth + n \<Longrightarrow> searchDir repoName dir (chain n es) depth None = None"
proof (induction n arbitrary: dir depth)
  case 0
  then show ?case by (subst searchDir.simps) simp
next
  case (Suc n)
  from Suc.prems have "3 < Suc depth + n" by simp
  from Suc.IH [OF this] show ?case
    by (subst searchDir.simps) simp
qed

text \<open>
  Claim C10. The second pass differs from the first: the first pass never looks below
  depth 3 and rejects \<open>LICENSE-MIT\<close> by its prefix, whatever its mode; the second pass
  descends any number \<open>n\<close> of directories, ignores the permission bits and excludes
  basenames by exact match only, so that \<open>findBinaryInDir\<close> returns a non-executable
  \<open>LICENSE-MIT\<close> (mode \<open>0o644\<close>) at depth \<open>n\<close> and leaves it with mode \<open>0o755\<close>.
\<close>

theorem finalSearch_unbounded_ignores_mode:
  "(3 < n \<longrightarrow> searchDir repoName ''/x'' (chain n es) 0 None = None) \<and>
   searchDir repoName ''/x'' (chain n [(''LICENSE-MIT'', File c m)]) 0 None = None \<and>
   isCommonNonBinaryName ''LICENSE-MIT'' \<and> \<not> hasExecBit 420 \<and>
   findBinaryInDir (Dir [(''x'', Dir (chain n [(''LICENSE-MIT'', File c 420)]))]) ''/x'' repoName =
     (Inr (path_join (chainPath n ''/x'') ''LICENSE-MIT''),
      Dir [(''x'', Dir (chain n [(''LICENSE-MIT'', File c 493)]))])"
proof -
  have rd: "readdir (Dir [(''x'', Dir (chain n [(''LICENSE-MIT'', File c 420)]))]) ''/x'' =
      Inr (chain n [(''LICENSE-MIT'', File c 420)])"
    by (simp add: readdir_def lookupPath_def pathParts_def)
  have ne: "\<not> hasExecBit 420" by (simp add: hasExecBit_def)
  have db: "3 < n \<longrightarrow> searchDir repoName ''/x'' (chain n es) 0 None = None"
    by (simp add: searchDir_depth_bound)
  have fb: "findBinaryInDir (Dir [(''x'', Dir (chain n [(''LICENSE-MIT'', File c 420)]))]) ''/x'' repoName =
     (Inr (path_join (chainPath n ''/x'') ''LICENSE-MIT''),
      Dir [(''x'', Dir (chain n [(''LICENSE-MIT'', File c 493)]))])"
    by (simp add: findBinaryInDir_def rd searchDir_chain finalSearch_chain chmod_chain)
  from db fb ne show ?thesis
    by (simp add: searchDir_chain common_LICENSE_MIT)
qed

theorem finalSearch_unbounded_ignores_mode_witness:
  "(3::nat) < 5 \<and>
   searchDir ''widget'' ''/x'' (chain 5 [(''widget'', File ''bin'' 493)]) 0 None = None \<and>
   findBinaryInDir (Dir [(''x'', Dir (chain 5 [(''LICENSE-MIT'', File ''MIT'' 420)]))]) ''/x'' ''widget'' =
     (Inr ''/x/d/d/d/d/d/LICENSE-MIT'',
      Dir [(''x'', Dir (chain 5 [(''LICENSE-MIT'', File ''MIT'' 493)]))])"
proof -
  have p: "path_join (chainPath 5 ''/x'') ''LICENSE-MIT'' = ''/x/d/d/d/d/d/LICENSE-MIT''"
    by code_simp
  from finalSearch_unbounded_ignores_mode [of 5 "''widget''" "[(''widget'', File ''bin'' 493)]" "''MIT''" 420]
  show ?thesis by (simp add: p)
qed

lemma accepted_tool: "acceptedCandidate ''tool'' (File ''bin'' 493)"
  by code_simp

text \<open>
  Claim C3, as stated, fails: the executable file \<open>tool\<close> is accepted, does not match
  the repository name \<open>widget\<close> and still ends the scan at once; and with the listing
  \<open>a.bin\<close>, \<open>sub/widget\<close> the first pass returns \<open>a.bin\<close>, although the accepted
  file \<open>widget\<close> matching the repository name follows in the same pass.
\<close>

theorem first_pass_short_circuit_counterexample:
  "acceptedCandidate ''tool'' (File ''bin'' 493) \<and> \<not> nameMatchesRepo ''widget'' ''tool'' \<and>
   examineFile ''widget'' ''/x/tool'' ''tool'' None = Stop (Some ''/x/tool'') \<and>
   acceptedCandidate ''a.bin'' (File ''bin'' 493) \<and>
   acceptedCandidate ''widget'' (File ''bin'' 493) \<and> nameMatchesRepo ''widget'' ''widget'' \<and>
   searchDir ''widget'' ''/x''
     [(''a.bin'', File ''bin'' 493), (''sub'', Dir [(''widget'', File ''bin'' 493)])] 0 None =
     Some ''/x/a.bin''"
  by code_simp

text \<open>
  Claim C3, amended. In the first pass an accepted candidate ends the scan at once when
  its name matches the repository name (exactly, as a substring, or as a \<open>.exe\<close> name
  containing it) or when its name contains no dot and is neither \<open>LICENSE\<close> nor
  \<open>COPYING\<close>: the loop returns its path whatever entries follow. Any other accepted
  candidate is stored in \<open>binaryPath\<close> and the loop body falls through.
\<close>

theorem first_pass_short_circuit:
  assumes "acceptedCandidate file (File c m)"
  shows "examineFile repoName (path_join dir file) file None =
           (if nameMatchesRepo repoName file \<or>
               (\<not> includes_str file ''.'' \<and> file \<noteq> ''LICENSE'' \<and> file \<noteq> ''COPYING'')
            then Stop (Some (path_join dir file))
            else Go (Some (path_join dir file))) \<and>
         (nameMatchesRepo repoName file \<or>
            (\<not> includes_str file ''.'' \<and> file \<noteq> ''LICENSE'' \<and> file \<noteq> ''COPYING'') \<longrightarrow>
          searchLoop repoName dir ((file, File c m) # rest) depth None = Some (path_join dir file))"
proof -
  from assms have a: "hasExecBit m" "\<not> isLikelyNonBinaryName file" "\<not> isCommonNonBinaryName file"
    by (simp_all add: acceptedCandidate_def)
  have sc: "shortCircuits repoName file \<longleftrightarrow> nameMatchesRepo repoName file \<or>
      (\<not> includes_str file ''.'' \<and> file \<noteq> ''LICENSE'' \<and> file \<noteq> ''COPYING'')"
    by (auto simp: shortCircuits_def nameMatchesRepo_def Let_def)
  have e: "examineFile repoName (path_join dir file) file None =
           (if shortCircuits repoName file then Stop (Some (path_join dir file))
            else Go (Some (path_join dir file)))"
    using a by (simp add: examineFile_def)
  from a e sc show ?thesis by simp
qed

theorem first_pass_short_circuit_witness:
  "acceptedCandidate ''widget.exe'' (File ''bin'' 493) \<and> nameMatchesRepo ''widget'' ''widget.exe'' \<and>
   examineFile ''widget'' ''/x/widget.exe'' ''widget.exe'' None = Stop (Some ''/x/widget.exe'') \<and>
   searchLoop ''widget'' ''/x'' [(''widget.exe'', File ''bin'' 493), (''widget'', File ''bin'' 493)] 0 None =
     Some ''/x/widget.exe''"
proof -
  have a: "acceptedCandidate ''widget.exe'' (File ''bin'' 493)" by code_simp
  have n: "nameMatchesRepo ''widget'' ''widget.exe''" by code_simp
  have p: "path_join ''/x'' ''widget.exe'' = ''/x/widget.exe''" by code_simp
  from first_pass_short_circuit [OF a, of "''widget''" "''/x''" "[(''widget'', File ''bin'' 493)]" 0] a n
  show ?thesis by (simp add: p)
qed

section \<open>Properties of the downloader\<close>

lemma map_of_setEntry_Some: "map_of (setEntry es x (Some v)) x = Some v"
proof (cases "map_of es x")
  case None
  then show ?thesis by (simp add: setEntry_def map_add_def)
next
  case (Some a)
  have "map_of es x \<noteq> None \<Longrightarrow> map_of (map (\<lambda>e. if fst e = x then (x, v) else e) es) x = Some v"
    by (induction es) auto
  with Some show ?thesis by (simp add: setEntry_def)
qed

lemma map_of_setEntry_None: "map_of (setEntry es x None) x = None"
  by (induction es) (auto simp: setEntry_def)

lemma lookup_putParts_Some:
  "putParts ps (Some v) n = Some n' \<Longrightarrow> lookupParts ps n' = Some v"
proof (induction ps "Some v" n arbitrary: n' rule: putParts.induct)
  case (1 n)
  then show ?case by simp
next
  case (2 x n)
  then show ?case by (auto simp: map_of_setEntry_Some split: node.splits)
next
  case (3 x y ys n)
  from "3.prems" obtain es c c' where n: "n = Dir es" and c: "map_of es x = Some c"
    and p: "putParts (y # ys) (Some v) c = Some c'" and n': "n' = Dir (setEntry es x (Some c'))"
    by (auto split: node.splits option.splits)
  from "3.hyps" [OF n c p] have "lookupParts (y # ys) c' = Some v" .
  with n' show ?case by (simp add: map_of_setEntry_Some)
qed

lemma putParts_exists:
  "lookupParts ps n = Some a \<Longrightarrow> \<exists>n'. putParts ps (Some v) n = Some n'"
proof (induction ps "Some v" n arbitrary: a rule: putParts.induct)
  case (1 n)
  then show ?case by simp
next
  case (2 x n)
  then show ?case by (auto split: node.splits option.splits)
next
  case (3 x y ys n)
  then show ?case
    by (fastforce split: node.splits option.splits)
qed

lemma putParts_delete:
  "lookupParts ps n = Some a \<Longrightarrow> ps \<noteq> [] \<Longrightarrow>
     \<exists>n'. putParts ps None n = Some n' \<and> lookupParts ps n' = None"
proof (induction ps "None :: node option" n arbitrary: a rule: putParts.induct)
  case (1 n)
  then show ?case by simp
next
  case (2 x n)
  then show ?case by (auto simp: map_of_setEntry_None split: node.splits option.splits)
next
  case (3 x y ys n)
  from "3.prems" obtain es c where n: "n = Dir es" and c: "map_of es x = Some c"
    and l: "lookupParts (y # ys) c = Some a"
    by (auto split: node.splits option.splits)
  from "3.hyps" [OF n c l] obtain c' where "putParts (y # ys) None c = Some c'"
    and "lookupParts (y # ys) c' = None" by auto
  with n c show ?case by (simp add: map_of_setEntry_Some)
qed

lemma putParts_root_Dir:
  "putParts ps v n = Some n' \<Longrightarrow> ps \<noteq> [] \<Longrightarrow> isDirectory n'"
proof (cases ps)
  case Nil
  assume "ps \<noteq> []"
  with Nil show ?thesis by simp
next
  case (Cons x xs)
  assume "putParts ps v n = Some n'"
  with Cons show ?thesis
    by (cases xs; cases n) (auto split: option.splits)
qed

lemma writeFile_result:
  assumes "writeFile fs p c = Inr fs1" and "isDirectory fs"
  shows "p \<noteq> [] \<and> pathParts p \<noteq> [] \<and> isDirectory fs1 \<and>
         ((\<exists>m. lookupPath fs p = Some (Special m) \<and> lookupPath fs1 p = Some (Special m)) \<or>
          (\<exists>m. lookupPath fs1 p = Some (File c m) \<and> (\<forall>k. lookupPath fs p \<noteq> Some (Special k))))"
proof -
  from assms(1) have pne: "p \<noteq> []"
    by (auto simp: writeFile_def split: if_splits)
  from assms pne have ne: "pathParts p \<noteq> []"
    by (cases fs) (auto simp: writeFile_def lookupPath_def split: option.splits node.splits)
  show ?thesis
  proof (cases "lookupPath fs p")
    case None
    with assms(1) pne have "putParts (pathParts p) (Some (File c 420)) fs = Some fs1"
      by (simp add: writeFile_def split: option.splits)
    from lookup_putParts_Some [OF this] putParts_root_Dir [OF this ne] ne pne None show ?thesis
      by (simp add: lookupPath_def)
  next
    case (Some n)
    show ?thesis
    proof (cases n)
      case (File c0 m)
      with Some assms(1) pne have "putParts (pathParts p) (Some (File c m)) fs = Some fs1"
        by (simp add: writeFile_def split: option.splits)
      from lookup_putParts_Some [OF this] putParts_root_Dir [OF this ne] ne pne Some File show ?thesis
        by (simp add: lookupPath_def)
    next
      case (Special m)
      with Some assms ne pne show ?thesis by (simp add: writeFile_def)
    next
      case (Dir es)
      with Some assms(1) pne show ?thesis by (simp add: writeFile_def)
    qed
  qed
qed

lemma writeFile_over_file:
  assumes "lookupPath fs p = Some (File c0 m)"
  shows "\<exists>fs1. writeFile fs p c = Inr fs1 \<and> lookupPath fs1 p = Some (File c m)"
proof -
  from assms have pne: "p \<noteq> []" by (auto simp: lookupPath_def split: if_splits)
  from assms pne putParts_exists [of "pathParts p" fs "File c0 m" "File c m"]
  obtain fs1 where w: "putParts (pathParts p) (Some (File c m)) fs = Some fs1"
    by (auto simp: lookupPath_def)
  from lookup_putParts_Some [OF w] w assms pne show ?thesis
    by (simp add: writeFile_def lookupPath_def)
qed

lemma pipeToFile_complete:
  assumes "writeFile fs destPath [] = Inr fs0" and "isDirectory fs"
    and "\<forall>m. lookupPath fs destPath \<noteq> Some (Special m)"
    and "writeFailsAfter e destPath = None"
  shows "\<exists>fs1. pipeToFile e fs destPath (Complete data) = (Inr (), fs1, []) \<and>
           readFile fs1 destPath = Inr data"
proof -
  from writeFile_result [OF assms(1,2)] assms(3) obtain m where
    "lookupPath fs0 destPath = Some (File [] m)" by auto
  from writeFile_over_file [OF this, of data] obtain fs1 where
    "writeFile fs0 destPath data = Inr fs1" "lookupPath fs1 destPath = Some (File data m)" by blast
  with assms(1,4) show ?thesis
    by (simp add: pipeToFile_def readFile_def)
qed

lemma redirectsFrom_prefix:
  "redirectsFrom e k url (n + m) \<noteq> None \<Longrightarrow> redirectsFrom e k url n \<noteq> None"
  by (induction n arbitrary: k url) (auto split: httpResult.splits if_splits)

lemma download_too_many:
  "redirectsFrom e (length (requests w)) url (Suc n) \<noteq> None \<Longrightarrow>
     fst (downloadFile e w url destPath (int n)) = Inl TooManyRedirects"
proof (induction n arbitrary: w url)
  case 0
  then show ?case
    by (subst downloadFile.simps)
       (auto simp: httpsRequest_def split: httpResult.splits if_splits)
next
  case (Suc n)
  from Suc.prems obtain res where r: "httpsGet e (length (requests w)) url = Response res"
    and red: "isRedirect res"
    and rest: "redirectsFrom e (Suc (length (requests w))) (locationOf res) (Suc n) \<noteq> None"
    by (auto split: httpResult.splits if_splits)
  let ?w1 = "w \<lparr> requests := requests w @ [url] \<rparr>"
  from rest have "redirectsFrom e (length (requests ?w1)) (locationOf res) (Suc n) \<noteq> None" by simp
  from Suc.IH [OF this] have "fst (downloadFile e ?w1 (locationOf res) destPath (int n)) = Inl TooManyRedirects" .
  with r red show ?case
    by (subst downloadFile.simps) (simp add: httpsRequest_def)
qed

lemma download_follows:
  assumes "redirectsFrom e (length (requests w)) url n = Some (k, u)"
    and "int n \<le> redirectLimit"
    and "httpsGet e k u = Response res" and "statusCode res = 200" and "stream res = Complete data"
    and "writeFailsAfter e destPath = None"
    and "isDirectory (files w)" and "writeFile (files w) destPath [] = Inr fs0"
    and "\<forall>m. lookupPath (files w) destPath \<noteq> Some (Special m)"
  shows "fst (downloadFile e w url destPath redirectLimit) = Inr () \<and>
         readFile (files (snd (downloadFile e w url destPath redirectLimit))) destPath = Inr data"
  using assms
proof (induction n arbitrary: w url redirectLimit)
  case 0
  from "0.prems"(1) have k: "k = length (requests w)" "u = url" by simp_all
  from "0.prems"(4) have nr: "\<not> isRedirect res" by (simp add: isRedirect_def)
  from pipeToFile_complete [OF "0.prems"(8,7,9,6), of data] obtain fs1 where
    "pipeToFile e (files w) destPath (Complete data) = (Inr (), fs1, [])" "readFile fs1 destPath = Inr data"
    by blast
  with "0.prems"(3,4,5) k nr show ?case
    by (subst (1 2) downloadFile.simps) (simp add: httpsRequest_def)
next
  case (Suc n)
  from Suc.prems(1) obtain r0 where r: "httpsGet e (length (requests w)) url = Response r0"
    and red: "isRedirect r0"
    and rest: "redirectsFrom e (Suc (length (requests w))) (locationOf r0) n = Some (k, u)"
    by (auto split: httpResult.splits if_splits)
  let ?w1 = "w \<lparr> requests := requests w @ [url] \<rparr>"
  from rest have 1: "redirectsFrom e (length (requests ?w1)) (locationOf r0) n = Some (k, u)" by simp
  from Suc.prems(2) have 2: "int n \<le> redirectLimit - 1" and pos: "\<not> redirectLimit \<le> 0" by simp_all
  from Suc.prems have 3: "isDirectory (files ?w1)" "writeFile (files ?w1) destPath [] = Inr fs0"
    "\<forall>m. lookupPath (files ?w1) destPath \<noteq> Some (Special m)" by simp_all
  note ih = Suc.IH [OF 1 2 Suc.prems(3,4,5,6) 3]
  from r red pos have "downloadFile e w url destPath redirectLimit =
      downloadFile e ?w1 (locationOf r0) destPath (redirectLimit - 1)"
    by (subst downloadFile.simps) (simp add: httpsRequest_def)
  with ih show ?case by simp
qed

text \<open>
  Claim C7. With redirect limit 5, \<open>downloadFile\<close> fails with \<open>TooManyRedirects\<close> on
  every chain of more than five redirects; on every chain of at most five redirects that
  ends in a response with status 200 whose body arrives completely, with a destination
  that can be written, it succeeds and the destination file holds the body of that
  response.
\<close>

theorem download_redirect_limit:
  "(5 < m \<and> redirectsFrom e (length (requests w)) url m \<noteq> None \<longrightarrow>
      fst (downloadFile e w url destPath 5) = Inl TooManyRedirects) \<and>
   (n \<le> 5 \<and> redirectsFrom e (length (requests w)) url n = Some (k, u) \<and>
    httpsGet e k u = Response res \<and> statusCode res = 200 \<and> stream res = Complete data \<and>
    writeFailsAfter e destPath = None \<and> isDirectory (files w) \<and>
    writeFile (files w) destPath [] = Inr fs0 \<and>
    (\<forall>md. lookupPath (files w) destPath \<noteq> Some (Special md)) \<longrightarrow>
      fst (downloadFile e w url destPath 5) = Inr () \<and>
      readFile (files (snd (downloadFile e w url destPath 5))) destPath = Inr data)"
proof (rule conjI; rule impI)
  assume a: "5 < m \<and> redirectsFrom e (length (requests w)) url m \<noteq> None"
  then have "6 \<le> m" by simp
  then obtain j where "m = 6 + j" using le_Suc_ex by blast
  with a have "redirectsFrom e (length (requests w)) url (Suc 5) \<noteq> None"
    using redirectsFrom_prefix [of e "length (requests w)" url 6 j] by simp
  from download_too_many [OF this, of destPath] show "fst (downloadFile e w url destPath 5) = Inl TooManyRedirects"
    by simp
next
  assume a: "n \<le> 5 \<and> redirectsFrom e (length (requests w)) url n = Some (k, u) \<and>
    httpsGet e k u = Response res \<and> statusCode res = 200 \<and> stream res = Complete data \<and>
    writeFailsAfter e destPath = None \<and> isDirectory (files w) \<and>
    writeFile (files w) destPath [] = Inr fs0 \<and>
    (\<forall>md. lookupPath (files w) destPath \<noteq> Some (Special md))"
  then have "int n \<le> 5" by simp
  with a download_follows [of e w url n k u 5 res data destPath fs0]
  show "fst (downloadFile e w url destPath 5) = Inr () \<and>
      readFile (files (snd (downloadFile e w url destPath 5))) destPath = Inr data"
    by blast
qed

text \<open>
  Claim C8. For every download that fails with a stream-level error after the destination
  file was opened, the partially written destination file is deleted before the error
  propagates. The code starts the removal and reports the error without waiting for it:
  when the connection drops after the bytes \<open>pay\<close> of a body, \<open>downloadFile\<close> fails
  with the stream error while \<open>/tmp/asset\<close> still holds \<open>pay\<close>, and the removal is
  only pending; the file is gone once the pending removal has taken effect.
\<close>

theorem download_error_leaves_file:
  "fst (downloadFile dropEnv tmpWorld ''https://dl.example/a'' ''/tmp/asset'' 5) = Inl StreamError \<and>
   lookupPath (files (snd (downloadFile dropEnv tmpWorld ''https://dl.example/a'' ''/tmp/asset'' 5)))
     ''/tmp/asset'' = Some (File ''pay'' 420) \<and>
   pendingUnlinks (snd (downloadFile dropEnv tmpWorld ''https://dl.example/a'' ''/tmp/asset'' 5)) =
     [''/tmp/asset''] \<and>
   lookupPath (files (completePending
       (snd (downloadFile dropEnv tmpWorld ''https://dl.example/a'' ''/tmp/asset'' 5))))
     ''/tmp/asset'' = None"
proof -
  have d: "downloadFile dropEnv tmpWorld ''https://dl.example/a'' ''/tmp/asset'' 5 =
      (Inl StreamError,
       \<lparr> files = Dir [(''tmp'', Dir [(''asset'', File ''pay'' 420)])],
         requests = [''https://dl.example/a''], extractions = [], spawns = [],
         pendingUnlinks = [''/tmp/asset''] \<rparr>)"
    by code_simp
  have l: "lookupPath (Dir [(''tmp'', Dir [(''asset'', File ''pay'' 420)])]) ''/tmp/asset'' =
      Some (File ''pay'' 420)"
    by code_simp
  have c: "lookupPath (files (completePending
      \<lparr> files = Dir [(''tmp'', Dir [(''asset'', File ''pay'' 420)])],
        requests = [''https://dl.example/a''], extractions = [], spawns = [],
        pendingUnlinks = [''/tmp/asset''] \<rparr>)) ''/tmp/asset'' = None"
    by code_simp
  from l c show ?thesis unfolding d by simp
qed

theorem download_redirect_limit_witness:
  "(5::nat) < 6 \<and> redirectsFrom (chainEnv 6) (length (requests tmpWorld)) ''https://dl.example/a'' 6 \<noteq> None \<and>
   fst (downloadFile (chainEnv 6) tmpWorld ''https://dl.example/a'' ''/tmp/asset'' 5) = Inl TooManyRedirects \<and>
   (5::nat) \<le> 5 \<and>
   redirectsFrom (chainEnv 5) (length (requests tmpWorld)) ''https://dl.example/a'' 5 =
     Some (5, ''https://dl.example/next'') \<and>
   httpsGet (chainEnv 5) 5 ''https://dl.example/next'' =
     Response \<lparr> statusCode = 200, location = None, stream = Complete ''payload'' \<rparr> \<and>
   fst (downloadFile (chainEnv 5) tmpWorld ''https://dl.example/a'' ''/tmp/asset'' 5) = Inr () \<and>
   readFile (files (snd (downloadFile (chainEnv 5) tmpWorld ''https://dl.example/a'' ''/tmp/asset'' 5)))
     ''/tmp/asset'' = Inr ''payload''"
proof -
  have a: "redirectsFrom (chainEnv 6) (length (requests tmpWorld)) ''https://dl.example/a'' 6 \<noteq> None"
    by code_simp
  have b: "redirectsFrom (chainEnv 5) (length (requests tmpWorld)) ''https://dl.example/a'' 5 =
     Some (5, ''https://dl.example/next'')"
    by code_simp
  have c: "httpsGet (chainEnv 5) 5 ''https://dl.example/next'' =
     Response \<lparr> statusCode = 200, location = None, stream = Complete ''payload'' \<rparr>"
    by code_simp
  have d: "writeFailsAfter (chainEnv 5) ''/tmp/asset'' = None" by code_simp
  have e: "isDirectory (files tmpWorld)" by code_simp
  have f: "writeFile (files tmpWorld) ''/tmp/asset'' [] = Inr (Dir [(''tmp'', Dir [(''asset'', File [] 420)])])"
    by code_simp
  have g: "\<forall>md. lookupPath (files tmpWorld) ''/tmp/asset'' \<noteq> Some (Special md)"
  proof -
    have "lookupPath (files tmpWorld) ''/tmp/asset'' = None" by code_simp
    then show ?thesis by simp
  qed
  from download_redirect_limit [of 6 "chainEnv 6" tmpWorld "''https://dl.example/a''" "''/tmp/asset''"] a
  have 1: "fst (downloadFile (chainEnv 6) tmpWorld ''https://dl.example/a'' ''/tmp/asset'' 5) = Inl TooManyRedirects"
    by simp
  from download_redirect_limit [of _ "chainEnv 5" tmpWorld "''https://dl.example/a''" "''/tmp/asset''" 5 5
      "''https://dl.example/next''" "\<lparr> statusCode = 200, location = None, stream = Complete ''payload'' \<rparr>"
      "''payload''" "Dir [(''tmp'', Dir [(''asset'', File [] 420)])]"] b c d e f g
  have 2: "fst (downloadFile (chainEnv 5) tmpWorld ''https://dl.example/a'' ''/tmp/asset'' 5) = Inr () \<and>
     readFile (files (snd (downloadFile (chainEnv 5) tmpWorld ''https://dl.example/a'' ''/tmp/asset'' 5)))
       ''/tmp/asset'' = Inr ''payload''"
    by simp
  from a b c 1 2 show ?thesis by simp
qed

section \<open>Properties of the release resolver\<close>

text \<open>
  Claim C4. \<open>getLatestVersion\<close> fails with \<open>MalformedResponse\<close> whenever the body of
  the response with status 200 cannot be decoded or, once decoded, lacks a version tag; it
  never returns successfully without a version. The code rejects a body that cannot be
  decoded, but for the body \<open>{}\<close>, which decodes to an object without \<open>tag_name\<close>, it
  resolves with \<open>undefined\<close>, where its documentation promises a string. A run for the
  latest release of a repository whose release document has no \<open>tag_name\<close> goes on with
  that value as the version: it downloads into, and spawns the binary from, the cache
  directory \<open>acme_widget_undefined\<close>.
\<close>

theorem getLatestVersion_resolves_undefined:
  "httpsGet (bodyEnv ''{}'') 0 ''https://api.github.com/repos/acme/widget/releases/latest'' =
     Response \<lparr> statusCode = 200, location = None, stream = Complete ''{}'' \<rparr> \<and>
   jsonParse (bodyEnv ''{}'') ''{}'' = Some (JObj []) \<and>
   fst (getLatestVersion (bodyEnv ''{}'') freshWorld ''acme'' ''widget'') = Inr JUndefined \<and>
   fst (getLatestVersion (bodyEnv ''not json'') freshWorld ''acme'' ''widget'') = Inl MalformedResponse \<and>
   fst (getLatestVersion (bodyEnv ''null'') freshWorld ''acme'' ''widget'') = Inl MalformedResponse \<and>
   fst (run untaggedEnv freshWorld ''github.com/acme/widget'' []) = Inr () \<and>
   spawns (snd (run untaggedEnv freshWorld ''github.com/acme/widget'' [])) =
     [(''/home/u/.binrun/cache/acme_widget_undefined/bin/widget'', [])]"
proof -
  have a: "httpsGet (bodyEnv ''{}'') 0 ''https://api.github.com/repos/acme/widget/releases/latest'' =
     Response \<lparr> statusCode = 200, location = None, stream = Complete ''{}'' \<rparr>"
    by (simp add: bodyEnv_def)
  have b: "jsonParse (bodyEnv ''{}'') ''{}'' = Some (JObj [])" by code_simp
  have c: "fst (getLatestVersion (bodyEnv ''{}'') freshWorld ''acme'' ''widget'') = Inr JUndefined"
    by code_simp
  have d: "fst (getLatestVersion (bodyEnv ''not json'') freshWorld ''acme'' ''widget'') = Inl MalformedResponse"
    by code_simp
  have e: "fst (getLatestVersion (bodyEnv ''null'') freshWorld ''acme'' ''widget'') = Inl MalformedResponse"
    by code_simp
  have f: "fst (run untaggedEnv freshWorld ''github.com/acme/widget'' []) = Inr ()"
    by code_simp
  have g: "spawns (snd (run untaggedEnv freshWorld ''github.com/acme/widget'' [])) =
     [(''/home/u/.binrun/cache/acme_widget_undefined/bin/widget'', [])]"
    by code_simp
  from a b c d e f g show ?thesis by simp
qed

section \<open>Properties of the runner and the cache\<close>

lemma mkdir_existing: "dirExists fs p \<Longrightarrow> mkdir fs p = Inr fs"
  by (auto simp: dirExists_def mkdir_def lookupPath_def split: option.splits node.splits if_splits)

lemma mkdirParts_creates:
  "mkdirParts ps fs = Some fs1 \<Longrightarrow> \<exists>es. lookupParts ps fs1 = Some (Dir es)"
proof (induction ps arbitrary: fs fs1)
  case Nil
  then show ?case by (cases fs) auto
next
  case (Cons x xs)
  from Cons.prems obtain es c' where fs: "fs = Dir es"
    and m: "mkdirParts xs (case map_of es x of Some c \<Rightarrow> c | None \<Rightarrow> Dir []) = Some c'"
    and fs1: "fs1 = Dir (setEntry es x (Some c'))"
    by (auto split: node.splits option.splits)
  from Cons.IH [OF m] fs1 show ?case by (simp add: map_of_setEntry_Some)
qed

lemma mkdir_creates: "mkdir fs p = Inr fs1 \<Longrightarrow> dirExists fs1 p"
proof (cases "lookupPath fs p")
  case None
  assume a: "mkdir fs p = Inr fs1"
  then have pne: "p \<noteq> []" by (auto simp: mkdir_def split: if_splits)
  with a None have "mkdirParts (pathParts p) fs = Some fs1"
    by (simp add: mkdir_def split: option.splits)
  from mkdirParts_creates [OF this] pne show ?thesis by (auto simp: dirExists_def lookupPath_def)
next
  case (Some n)
  assume "mkdir fs p = Inr fs1"
  with Some show ?thesis by (cases n) (auto simp: mkdir_def dirExists_def split: if_splits)
qed

lemma readCachedBinary_iff:
  "readCachedBinary e fs f = Inr p \<longleftrightarrow>
     readFile fs f = Inr p \<and> (\<exists>n. lookupPath fs p = Some n \<and> mayExecute (caller e p) (modeOf n))"
  by (auto simp: readCachedBinary_def access_X_OK_def split: sum.splits option.splits if_splits)

lemma readExtractedBinary_iff:
  "readExtractedBinary fs d = Inr p \<longleftrightarrow>
     readFile fs (path_join d ''.extracted_binary_path'') = Inr p \<and> (\<exists>n. lookupPath fs p = Some n)"
  by (auto simp: readExtractedBinary_def access_F_OK_def split: sum.splits option.splits)

lemma chmod_mode:
  assumes "chmod fs p 493 = Inr fs'"
  shows "\<exists>n. lookupPath fs' p = Some n \<and> modeOf n = 493"
proof (cases "lookupPath fs p")
  case None
  with assms show ?thesis by (simp add: chmod_def)
next
  case (Some n)
  then have pne: "p \<noteq> []" by (auto simp: lookupPath_def split: if_splits)
  show ?thesis
  proof (cases n)
    case (File c m)
    with Some assms have "putParts (pathParts p) (Some (File c 493)) fs = Some fs'"
      by (simp add: chmod_def split: option.splits)
    from lookup_putParts_Some [OF this] pne show ?thesis by (simp add: lookupPath_def)
  next
    case (Special m)
    with Some assms have "putParts (pathParts p) (Some (Special 493)) fs = Some fs'"
      by (simp add: chmod_def split: option.splits)
    from lookup_putParts_Some [OF this] pne show ?thesis by (simp add: lookupPath_def)
  next
    case (Dir es)
    with Some assms show ?thesis by (simp add: chmod_def)
  qed
qed

lemma chmod_exists:
  assumes "lookupPath fs p = Some n"
  shows "\<exists>fs'. chmod fs p m = Inr fs'"
proof -
  from assms have l: "lookupParts (pathParts p) fs = Some n"
    by (auto simp: lookupPath_def split: if_splits)
  show ?thesis
  proof (cases n)
    case (File c m0)
    from putParts_exists [OF l, of "File c m"] assms File show ?thesis
      by (auto simp: chmod_def)
  next
    case (Special m0)
    from putParts_exists [OF l, of "Special m"] assms Special show ?thesis
      by (auto simp: chmod_def)
  next
    case (Dir es)
    with assms show ?thesis by (simp add: chmod_def)
  qed
qed

lemma chmodAs_result:
  "chmodAs cls fs p m = Inr fs' \<Longrightarrow> chmod fs p m = Inr fs'"
  by (auto simp: chmodAs_def split: option.splits if_splits)

lemma downloadFile_effects:
  "spawns (snd (downloadFile e w url destPath redirectLimit)) = spawns w \<and>
   extractions (snd (downloadFile e w url destPath redirectLimit)) = extractions w \<and>
   (\<exists>rest. requests (snd (downloadFile e w url destPath redirectLimit)) = requests w @ url # rest)"
proof (induction e w url destPath redirectLimit rule: downloadFile.induct)
  case (1 e w url destPath redirectLimit)
  let ?w1 = "w \<lparr> requests := requests w @ [url] \<rparr>"
  show ?case
  proof (cases "httpsGet e (length (requests w)) url")
    case NoResponse
    then show ?thesis
      by (subst (1 2 3) downloadFile.simps) (simp add: httpsRequest_def)
  next
    case (Response res)
    show ?thesis
    proof (cases "isRedirect res \<and> \<not> redirectLimit \<le> 0")
      case True
      with Response have eq: "downloadFile e w url destPath redirectLimit =
          downloadFile e ?w1 (locationOf res) destPath (redirectLimit - 1)"
        by (subst downloadFile.simps) (simp add: httpsRequest_def)
      have hr: "httpsRequest e w url = (Response res, ?w1)"
        by (simp add: httpsRequest_def Response)
      from True have r: "isRedirect res" and l: "\<not> redirectLimit \<le> 0" by simp_all
      from "1.IH" [OF hr [symmetric] refl r l] show ?thesis
        unfolding eq by auto
    next
      case False
      obtain r fs' started where p: "pipeToFile e (files w) destPath (stream res) = (r, fs', started)"
        by (cases "pipeToFile e (files w) destPath (stream res)") auto
      from False Response p show ?thesis
        by (subst (1 2 3) downloadFile.simps) (auto simp: httpsRequest_def)
    qed
  qed
qed

lemma unpackInto_effects:
  "unpackInto lib w archivePath extractDir repoName = (res, w') \<Longrightarrow>
     requests w' = requests w \<and> spawns w' = spawns w"
  by (auto simp: unpackInto_def Let_def split: sum.splits option.splits prod.splits)

lemma unpackInto_extractions:
  "unpackInto lib w archivePath extractDir repoName = (res, w') \<Longrightarrow>
   mkdir (files w) extractDir = Inr fs1 \<Longrightarrow>
     extractions w' = extractions w @ [archivePath]"
  by (auto simp: unpackInto_def Let_def split: sum.splits option.splits prod.splits)

lemma unpackInto_mkdir_fails:
  "mkdir (files w) extractDir = Inl err \<Longrightarrow>
     unpackInto lib w archivePath extractDir repoName = (Inl err, w)"
  by (simp add: unpackInto_def)

lemma extract_unpackInto:
  "(if k = IsTar then extractTarGz e w bp d rn else extractZip e w bp d rn) =
     unpackInto (if k = IsTar then untar e else unzip e) w bp d rn"
  by (simp add: extractTarGz_def extractZip_def)

lemma extractedExecutable_trusted:
  assumes "readExtractedBinary (files w) d = Inr q"
  shows "extractions (snd (extractedExecutable e w k bp d rn)) = extractions w \<and>
         (mayChmod (caller e q) \<longrightarrow>
            fst (extractedExecutable e w k bp d rn) = Inr q \<and>
            chmod (files w) q 493 = Inr (files (snd (extractedExecutable e w k bp d rn))) \<and>
            (\<exists>n. lookupPath (files (snd (extractedExecutable e w k bp d rn))) q = Some n \<and>
                 modeOf n = 493)) \<and>
         (\<not> mayChmod (caller e q) \<longrightarrow> extractedExecutable e w k bp d rn = (Inl FsError, w))"
proof -
  from assms obtain n where l: "lookupPath (files w) q = Some n"
    by (auto simp: readExtractedBinary_iff)
  from chmod_exists [OF l, of 493] obtain fs' where c: "chmod (files w) q 493 = Inr fs'" by blast
  from chmod_mode [OF c] obtain n' where m: "lookupPath fs' q = Some n'" "modeOf n' = 493" by blast
  show ?thesis
  proof (cases "mayChmod (caller e q)")
    case True
    with l c have "chmodAs (caller e) (files w) q 493 = Inr fs'" by (simp add: chmodAs_def)
    with assms have "extractedExecutable e w k bp d rn = (Inr q, w \<lparr> files := fs' \<rparr>)"
      by (simp add: extractedExecutable_def)
    with True c m show ?thesis by simp
  next
    case False
    with l have "chmodAs (caller e) (files w) q 493 = Inl FsError" by (simp add: chmodAs_def)
    with assms have "extractedExecutable e w k bp d rn = (Inl FsError, w)"
      by (simp add: extractedExecutable_def)
    with False show ?thesis by simp
  qed
qed

lemma extractedExecutable_unpacked:
  assumes "readExtractedBinary (files w) d = Inl err" and "mkdir (files w) d = Inr fs1"
    and "unpackInto (if k = IsTar then untar e else unzip e) (w \<lparr> files := fs1 \<rparr>) bp d rn = (r1, w1)"
  shows "extractedExecutable e w k bp d rn =
           (case r1 of
              Inl err2 \<Rightarrow> (Inl err2, w1)
            | Inr x \<Rightarrow>
                (case writeFile (files w1) (path_join d ''.extracted_binary_path'') x of
                   Inl err3 \<Rightarrow> (Inl err3, w1)
                 | Inr fs3 \<Rightarrow>
                     (case chmodAs (caller e) fs3 x 493 of
                        Inl err4 \<Rightarrow> (Inl err4, w1 \<lparr> files := fs3 \<rparr>)
                      | Inr fs5 \<Rightarrow> (Inr x, w1 \<lparr> files := fs5 \<rparr>))))"
  using assms
  by (simp add: extractedExecutable_def extract_unpackInto split: sum.splits)

lemma extractedExecutable_redone:
  assumes "readExtractedBinary (files w) d = Inl err" and "mkdir (files w) d = Inr fs1"
  shows "extractions (snd (extractedExecutable e w k bp d rn)) = extractions w @ [bp] \<and>
         (\<forall>x. fst (extractedExecutable e w k bp d rn) = Inr x \<longrightarrow>
            (\<exists>fs3 fs4. writeFile fs3 (path_join d ''.extracted_binary_path'') x = Inr fs4 \<and>
                chmod fs4 x 493 = Inr (files (snd (extractedExecutable e w k bp d rn)))) \<and>
            (\<exists>n. lookupPath (files (snd (extractedExecutable e w k bp d rn))) x = Some n \<and>
                 modeOf n = 493))"
proof -
  obtain r1 w1 where u: "unpackInto (if k = IsTar then untar e else unzip e) (w \<lparr> files := fs1 \<rparr>) bp d rn = (r1, w1)"
    by (cases "unpackInto (if k = IsTar then untar e else unzip e) (w \<lparr> files := fs1 \<rparr>) bp d rn")
  from mkdir_creates [OF assms(2)] have "mkdir (files (w \<lparr> files := fs1 \<rparr>)) d = Inr fs1"
    by (simp add: mkdir_existing)
  from unpackInto_extractions [OF u this] have ex: "extractions w1 = extractions w @ [bp]" by simp
  note eq = extractedExecutable_unpacked [OF assms u]
  show ?thesis
  proof (cases r1)
    case (Inl err2)
    with eq ex show ?thesis by simp
  next
    case (Inr x)
    show ?thesis
    proof (cases "writeFile (files w1) (path_join d ''.extracted_binary_path'') x")
      case (Inl err3)
      with eq ex Inr show ?thesis by simp
    next
      case wf: (Inr fs3)
      show ?thesis
      proof (cases "chmodAs (caller e) fs3 x 493")
        case (Inl err4)
        with eq ex Inr wf show ?thesis by simp
      next
        case ch: (Inr fs5)
        from chmodAs_result [OF ch] have c: "chmod fs3 x 493 = Inr fs5" .
        from chmod_mode [OF c] obtain n where "lookupPath fs5 x = Some n" "modeOf n = 493" by blast
        with eq ex Inr wf ch c show ?thesis by auto
      qed
    qed
  qed
qed

lemma extractedExecutable_mkdir_fails:
  assumes "readExtractedBinary (files w) d = Inl err" and "mkdir (files w) d = Inl err1"
  shows "extractedExecutable e w k bp d rn = (Inl err1, w)"
  using assms by (simp add: extractedExecutable_def)

lemma extractedExecutable_effects:
  assumes "extractedExecutable e w k bp d rn = (res, w')"
  shows "requests w' = requests w \<and> spawns w' = spawns w"
proof (cases "readExtractedBinary (files w) d")
  case (Inr q)
  with assms show ?thesis
    by (auto simp: extractedExecutable_def split: sum.splits)
next
  case (Inl err)
  show ?thesis
  proof (cases "mkdir (files w) d")
    case m: (Inl err1)
    from extractedExecutable_mkdir_fails [OF Inl m] assms show ?thesis by simp
  next
    case m: (Inr fs1)
    obtain r1 w1 where u: "unpackInto (if k = IsTar then untar e else unzip e) (w \<lparr> files := fs1 \<rparr>) bp d rn = (r1, w1)"
      by (cases "unpackInto (if k = IsTar then untar e else unzip e) (w \<lparr> files := fs1 \<rparr>) bp d rn")
    from unpackInto_effects [OF u] have "requests w1 = requests w" "spawns w1 = spawns w" by simp_all
    with extractedExecutable_unpacked [OF Inl m u] assms show ?thesis
      by (auto split: sum.splits)
  qed
qed

lemma freshExecutable_effects:
  assumes "freshExecutable e w a rn bp xd mf = (res, w')"
  shows "spawns w' = spawns w \<and>
         (needToDownload (files w) bp \<longrightarrow>
            (\<exists>rest. requests w' = requests w @ browser_download_url (matched a) # rest)) \<and>
         (\<not> needToDownload (files w) bp \<longrightarrow> requests w' = requests w) \<and>
         (\<forall>x. res = Inr x \<longrightarrow> (\<exists>fs3. writeFile fs3 mf x = Inr (files w')))"
proof -
  let ?dl = "if needToDownload (files w) bp
             then downloadFile e w (browser_download_url (matched a)) bp 5 else (Inr (), w)"
  obtain r0 w0 where d: "?dl = (r0, w0)" by (cases ?dl)
  from downloadFile_effects [of e w "browser_download_url (matched a)" bp 5] d
  have s0: "spawns w0 = spawns w"
    and q0: "needToDownload (files w) bp \<longrightarrow>
          (\<exists>rest. requests w0 = requests w @ browser_download_url (matched a) # rest)"
    and q0': "\<not> needToDownload (files w) bp \<longrightarrow> requests w0 = requests w"
    by (auto split: if_splits)
  show ?thesis
  proof (cases r0)
    case (Inl err)
    with d assms have "res = Inl err" "w' = w0" by (simp_all add: freshExecutable_def)
    with s0 q0 q0' show ?thesis by simp
  next
    case (Inr u)
    let ?pr = "if kind a = IsTar \<or> kind a = IsZip
               then extractedExecutable e w0 (kind a) bp xd rn
               else (case chmodAs (caller e) (files w0) bp 493 of
                       Inl err \<Rightarrow> (Inl err, w0)
                     | Inr fs2 \<Rightarrow> (Inr bp, w0 \<lparr> files := fs2 \<rparr>))"
    obtain r1 w1 where p: "?pr = (r1, w1)" by (cases ?pr)
    have e1: "requests w1 = requests w0 \<and> spawns w1 = spawns w0"
    proof (cases "kind a = IsTar \<or> kind a = IsZip")
      case True
      with p have "extractedExecutable e w0 (kind a) bp xd rn = (r1, w1)" by simp
      from extractedExecutable_effects [OF this] show ?thesis .
    next
      case False
      with p show ?thesis by (auto split: sum.splits)
    qed
    from d Inr p assms have r: "(res, w') =
        (case r1 of
           Inl err \<Rightarrow> (Inl err, w1)
         | Inr x \<Rightarrow>
             (case writeFile (files w1) mf x of
                Inl err \<Rightarrow> (Inl err, w1)
              | Inr fs4 \<Rightarrow> (Inr x, w1 \<lparr> files := fs4 \<rparr>)))"
      by (simp add: freshExecutable_def)
    from r e1 s0 q0 q0' show ?thesis
      by (auto split: sum.splits)
  qed
qed

lemma spawnAndWait_effects:
  "requests (snd (spawnAndWait e w x args)) = requests w \<and>
   extractions (snd (spawnAndWait e w x args)) = extractions w \<and>
   files (snd (spawnAndWait e w x args)) = files w \<and>
   spawns (snd (spawnAndWait e w x args)) = spawns w @ [(x, args)]"
  by (simp add: spawnAndWait_def Let_def split: childResult.splits)

lemma runAsset_trusted:
  assumes "mkdir (files w) (cacheDirOf e) = Inr fs1" and "mkdir fs1 (binDirOf e r v) = Inr fs2"
    and "readCachedBinary e fs2 (cachedBinaryPathFileOf e r v) = Inr q"
  shows "runAsset e w r v a args = spawnAndWait e (w \<lparr> files := fs2 \<rparr>) q args"
  using assms by (simp add: runAsset_def Let_def)

lemma runAsset_redone:
  assumes "mkdir (files w) (cacheDirOf e) = Inr fs1" and "mkdir fs1 (binDirOf e r v) = Inr fs2"
    and "readCachedBinary e fs2 (cachedBinaryPathFileOf e r v) = Inl err"
  shows "(needToDownload fs2 (binaryPathOf e r v a) \<longrightarrow>
            (\<exists>rest. requests (snd (runAsset e w r v a args)) =
               requests w @ browser_download_url (matched a) # rest)) \<and>
         (\<not> needToDownload fs2 (binaryPathOf e r v a) \<longrightarrow>
            requests (snd (runAsset e w r v a args)) = requests w) \<and>
         (spawns (snd (runAsset e w r v a args)) = spawns w \<or>
          (\<exists>x fs3. spawns (snd (runAsset e w r v a args)) = spawns w @ [(x, args)] \<and>
             writeFile fs3 (cachedBinaryPathFileOf e r v) x = Inr (files (snd (runAsset e w r v a args)))))"
proof -
  let ?w2 = "w \<lparr> files := fs2 \<rparr>"
  obtain r3 w3 where f: "freshExecutable e ?w2 a (repo r) (binaryPathOf e r v a) (extractDirOf e r v)
      (cachedBinaryPathFileOf e r v) = (r3, w3)"
    by (cases "freshExecutable e ?w2 a (repo r) (binaryPathOf e r v a) (extractDirOf e r v)
      (cachedBinaryPathFileOf e r v)")
  from freshExecutable_effects [OF f] have s3: "spawns w3 = spawns w"
    and q3: "needToDownload fs2 (binaryPathOf e r v a) \<longrightarrow>
      (\<exists>rest. requests w3 = requests w @ browser_download_url (matched a) # rest)"
    and q3': "\<not> needToDownload fs2 (binaryPathOf e r v a) \<longrightarrow> requests w3 = requests w"
    and m3: "\<forall>x. r3 = Inr x \<longrightarrow> (\<exists>fs3. writeFile fs3 (cachedBinaryPathFileOf e r v) x = Inr (files w3))"
    by simp_all
  from assms f have eq: "runAsset e w r v a args =
      (case r3 of Inl err \<Rightarrow> (Inl err, w3) | Inr x \<Rightarrow> spawnAndWait e w3 x args)"
    by (simp add: runAsset_def Let_def)
  show ?thesis
  proof (cases r3)
    case (Inl err3)
    with eq s3 q3 q3' show ?thesis by simp
  next
    case (Inr x)
    with m3 obtain fs3 where "writeFile fs3 (cachedBinaryPathFileOf e r v) x = Inr (files w3)" by blast
    with eq Inr s3 q3 q3' spawnAndWait_effects [of e w3 x args] show ?thesis by auto
  qed
qed

lemma assetOfJs_name: "assetOfJs v = Inr a \<Longrightarrow> getProp v ''name'' = Inr (JStr (name a))"
  by (cases v) (auto split: option.splits jsval.splits)

lemma findByName_typed:
  "collect (map assetOfJs vs) = Inr as \<Longrightarrow>
     (case find (\<lambda>a. P (name a)) as of
        None \<Rightarrow> findByName P vs = Inr None
      | Some a \<Rightarrow> (\<exists>v. findByName P vs = Inr (Some v) \<and> assetOfJs v = Inr a))"
proof (induction vs arbitrary: as)
  case Nil
  then show ?case by simp
next
  case (Cons v vs)
  from Cons.prems obtain a as' where a: "assetOfJs v = Inr a" and c: "collect (map assetOfJs vs) = Inr as'"
    and as: "as = a # as'"
    by (cases "assetOfJs v") (auto split: sum.splits)
  from assetOfJs_name [OF a] have n: "getProp v ''name'' = Inr (JStr (name a))" .
  from Cons.IH [OF c] as a n show ?case
    by (cases "find (\<lambda>a. P (name a)) as'") auto
qed

lemma findMatchingAssetJs_typed:
  assumes "assetsOfJs assets = Inr as"
  shows "findMatchingAssetJs assets sys rp = findMatchingAsset as sys rp"
proof -
  from assms obtain vs where vs: "assets = JArr vs" and c: "collect (map assetOfJs vs) = Inr as"
    by (cases assets) auto
  note t = findByName_typed [OF c, of "regexTest True (tarRegex sys rp)"]
  note z = findByName_typed [OF c, of "regexTest True (zipRegex sys rp)"]
  note b = findByName_typed [OF c, of "regexTest True (binaryRegex sys rp)"]
  show ?thesis
  proof (cases "find (\<lambda>a. regexTest True (tarRegex sys rp) (name a)) as")
    case (Some a)
    with t vs show ?thesis
      by (auto simp: findMatchingAssetJs_def findMatchingAsset_def selected_def)
  next
    case tn: None
    show ?thesis
    proof (cases "find (\<lambda>a. regexTest True (zipRegex sys rp) (name a)) as")
      case (Some a)
      with t z tn vs show ?thesis
        by (auto simp: findMatchingAssetJs_def findMatchingAsset_def selected_def)
    next
      case zn: None
      show ?thesis
      proof (cases "find (\<lambda>a. regexTest True (binaryRegex sys rp) (name a)) as")
        case (Some a)
        with t z b tn zn vs show ?thesis
          by (auto simp: findMatchingAssetJs_def findMatchingAsset_def selected_def)
      next
        case None
        with t z b tn zn vs show ?thesis
          by (auto simp: findMatchingAssetJs_def findMatchingAsset_def selected_def)
      qed
    qed
  qed
qed

text \<open>
  Claim C1, as stated, fails: in the end-to-end scenario the first run leaves the cache
  entry \<open>cachedFiles\<close> with a valid whole-entry marker, and the second run with the same
  reference still makes one outbound request, the listing of the release assets, before
  it spawns the cached binary.
\<close>

theorem cached_run_lists_assets_counterexample:
  "files (snd (run scenarioEnv freshWorld ''github.com/acme/widget@v1.2.0'' [])) = cachedFiles \<and>
   readCachedBinary scenarioEnv (files cachedWorld) ''/home/u/.binrun/cache/acme_widget_v1.2.0/.binary_path'' =
     Inr ''/home/u/.binrun/cache/acme_widget_v1.2.0/bin/widget'' \<and>
   requests (snd (run scenarioEnv cachedWorld ''github.com/acme/widget@v1.2.0'' [])) =
     [''https://api.github.com/repos/acme/widget/releases/tags/v1.2.0''] \<and>
   spawns (snd (run scenarioEnv cachedWorld ''github.com/acme/widget@v1.2.0'' [])) =
     [(''/home/u/.binrun/cache/acme_widget_v1.2.0/bin/widget'', [])]"
  by code_simp

text \<open>
  Claim C1, amended. For a reference with an explicit version whose cache entry holds a
  valid whole-entry marker, a run whose asset listing succeeds and yields a matching
  asset makes exactly one outbound request, the listing of the assets of the tagged
  release; it downloads nothing, extracts nothing, leaves the file system as it is and
  spawns the cached binary.
\<close>

theorem cached_run_lists_assets:
  assumes "parseRepoURL repoInput = Inr r" and "version r \<noteq> ''latest''"
    and "httpsGet e (length (requests w)) (apiUrl (releasePath (owner r) (repo r) (version r))) =
           Response res"
    and "statusCode res = 200" and "stream res = Complete data"
    and "parseProperty e data ''assets'' = Inr assets" and "assetsOfJs assets = Inr assetList"
    and "getSystemInfo (envPlatform e) (envArch e) = Inr sys"
    and "findMatchingAsset assetList sys (repo r) = Inr a"
    and "dirExists (files w) (cacheDirOf e)"
    and "dirExists (files w) (binDirOf e r (JStr (version r)))"
    and "readCachedBinary e (files w) (path_join (binDirOf e r (JStr (version r))) ''.binary_path'') =
           Inr cachedPath"
  shows "requests (snd (run e w repoInput args)) =
           requests w @ [apiUrl (releasePath (owner r) (repo r) (version r))] \<and>
         extractions (snd (run e w repoInput args)) = extractions w \<and>
         files (snd (run e w repoInput args)) = files w \<and>
         spawns (snd (run e w repoInput args)) = spawns w @ [(cachedPath, args)]"
proof -
  let ?w2 = "w \<lparr> requests := requests w @ [apiUrl (releasePath (owner r) (repo r) (version r))] \<rparr>"
  from assms(3-6) have g: "getReleaseAssets e w (owner r) (repo r) (version r) = (Inr assets, ?w2)"
    by (simp add: getReleaseAssets_def httpsRequest_def)
  from assms(7,9) have m: "findMatchingAssetJs assets sys (repo r) = Inr a"
    by (simp add: findMatchingAssetJs_typed)
  from assms(10) have m1: "mkdir (files ?w2) (cacheDirOf e) = Inr (files w)"
    by (simp add: mkdir_existing)
  from assms(11) have m2: "mkdir (files w) (binDirOf e r (JStr (version r))) = Inr (files w)"
    by (simp add: mkdir_existing)
  from assms(12) have rc: "readCachedBinary e (files w) (cachedBinaryPathFileOf e r (JStr (version r))) =
      Inr cachedPath"
    by (simp add: cachedBinaryPathFileOf_def)
  from runAsset_trusted [OF m1 m2 rc]
  have "runAsset e ?w2 r (JStr (version r)) a args = spawnAndWait e ?w2 cachedPath args"
    by simp
  with assms(1,2,8) m g have "run e w repoInput args = spawnAndWait e ?w2 cachedPath args"
    by (simp add: run_def)
  then show ?thesis
    by (simp add: spawnAndWait_def Let_def split: childResult.splits)
qed

theorem cached_run_lists_assets_witness:
  "parseRepoURL ''github.com/acme/widget@v1.2.0'' =
     Inr \<lparr> owner = ''acme'', repo = ''widget'', version = ''v1.2.0'' \<rparr> \<and>
   ''v1.2.0'' \<noteq> ''latest'' \<and>
   readCachedBinary scenarioEnv (files cachedWorld) ''/home/u/.binrun/cache/acme_widget_v1.2.0/.binary_path'' =
     Inr ''/home/u/.binrun/cache/acme_widget_v1.2.0/bin/widget'' \<and>
   requests (snd (run scenarioEnv cachedWorld ''github.com/acme/widget@v1.2.0'' [''--help''])) =
     [''https://api.github.com/repos/acme/widget/releases/tags/v1.2.0''] \<and>
   extractions (snd (run scenarioEnv cachedWorld ''github.com/acme/widget@v1.2.0'' [''--help''])) = [] \<and>
   files (snd (run scenarioEnv cachedWorld ''github.com/acme/widget@v1.2.0'' [''--help''])) = cachedFiles \<and>
   spawns (snd (run scenarioEnv cachedWorld ''github.com/acme/widget@v1.2.0'' [''--help''])) =
     [(''/home/u/.binrun/cache/acme_widget_v1.2.0/bin/widget'', [''--help''])]"
proof -
  let ?r = "\<lparr> owner = ''acme'', repo = ''widget'', version = ''v1.2.0'' \<rparr>"
  let ?res = "\<lparr> statusCode = 200, location = None, stream = Complete ''release v1.2.0'' \<rparr>"
  let ?assets = "[mkAsset ''widget_Darwin_arm64.tar.gz'', mkAsset ''widget_Linux_x86_64.tar.gz'']"
  let ?a = "\<lparr> matched = mkAsset ''widget_Darwin_arm64.tar.gz'', kind = IsTar \<rparr>"
  have 1: "parseRepoURL ''github.com/acme/widget@v1.2.0'' = Inr ?r" by code_simp
  have 2: "version ?r \<noteq> ''latest''" by simp
  have 3: "httpsGet scenarioEnv (length (requests cachedWorld))
      (apiUrl (releasePath (owner ?r) (repo ?r) (version ?r))) = Response ?res" by code_simp
  have 4: "statusCode ?res = 200" by simp
  have 5: "stream ?res = Complete ''release v1.2.0''" by simp
  have 6: "parseProperty scenarioEnv ''release v1.2.0'' ''assets'' =
      Inr (JArr
              [JObj [(''name'', JStr ''widget_Darwin_arm64.tar.gz''),
                     (''browser_download_url'', JStr ''https://dl.example/widget_Darwin_arm64.tar.gz'')],
               JObj [(''name'', JStr ''widget_Linux_x86_64.tar.gz''),
                     (''browser_download_url'', JStr ''https://dl.example/widget_Linux_x86_64.tar.gz'')]])"
    by code_simp
  have 7: "assetsOfJs (JArr
              [JObj [(''name'', JStr ''widget_Darwin_arm64.tar.gz''),
                     (''browser_download_url'', JStr ''https://dl.example/widget_Darwin_arm64.tar.gz'')],
               JObj [(''name'', JStr ''widget_Linux_x86_64.tar.gz''),
                     (''browser_download_url'', JStr ''https://dl.example/widget_Linux_x86_64.tar.gz'')]]) =
      Inr ?assets"
    by code_simp
  have 8: "getSystemInfo (envPlatform scenarioEnv) (envArch scenarioEnv) = Inr darwinHost" by code_simp
  have 9: "findMatchingAsset ?assets darwinHost (repo ?r) = Inr ?a" by code_simp
  have 10: "dirExists (files cachedWorld) (cacheDirOf scenarioEnv)" by code_simp
  have 11: "dirExists (files cachedWorld) (binDirOf scenarioEnv ?r (JStr (version ?r)))" by code_simp
  have 12: "readCachedBinary scenarioEnv (files cachedWorld)
      (path_join (binDirOf scenarioEnv ?r (JStr (version ?r))) ''.binary_path'') =
      Inr ''/home/u/.binrun/cache/acme_widget_v1.2.0/bin/widget''" by code_simp
  have 13: "readCachedBinary scenarioEnv (files cachedWorld) ''/home/u/.binrun/cache/acme_widget_v1.2.0/.binary_path'' =
     Inr ''/home/u/.binrun/cache/acme_widget_v1.2.0/bin/widget''" by code_simp
  have u: "apiUrl (releasePath ''acme'' ''widget'' ''v1.2.0'') =
      ''https://api.github.com/repos/acme/widget/releases/tags/v1.2.0''" by code_simp
  from cached_run_lists_assets [OF 1 2 3 4 5 6 7 8 9 10 11 12, of "[''--help'']"] 1 13 u
  show ?thesis by (simp add: cachedWorld_def)
qed

text \<open>
  Claim C2, as stated, fails for the extraction marker: it names \<open>README.md\<close>, which
  exists with mode \<open>0o644\<close> and is not executable, and the run still trusts the marker,
  skips the extraction and spawns that file.
\<close>

theorem marker_trust_counterexample:
  "readExtractedBinary (files staleWorld) ''/home/u/.binrun/cache/acme_widget_v1.2.0/bin'' =
     Inr ''/home/u/.binrun/cache/acme_widget_v1.2.0/bin/README.md'' \<and>
   lookupPath (files staleWorld) ''/home/u/.binrun/cache/acme_widget_v1.2.0/bin/README.md'' =
     Some (File ''docs'' 420) \<and>
   \<not> hasExecBit 420 \<and>
   access_X_OK (caller scenarioEnv) (files staleWorld)
     ''/home/u/.binrun/cache/acme_widget_v1.2.0/bin/README.md'' = Inl FsError \<and>
   fst (run scenarioEnv staleWorld ''github.com/acme/widget@v1.2.0'' []) = Inr () \<and>
   extractions (snd (run scenarioEnv staleWorld ''github.com/acme/widget@v1.2.0'' [])) = [] \<and>
   spawns (snd (run scenarioEnv staleWorld ''github.com/acme/widget@v1.2.0'' [])) =
     [(''/home/u/.binrun/cache/acme_widget_v1.2.0/bin/README.md'', [])]"
  by code_simp

text \<open>
  Claim C2, amended. The whole-entry marker is trusted exactly when it can be read and
  the path it holds exists and may be executed by the calling user. Then the run makes no
  request, extracts nothing, leaves the file system as it is and spawns that path.
  Otherwise the stage is redone: the asset is requested again when its file is missing or
  empty (and only then), and a run that gets as far as spawning a binary has written the
  whole-entry marker anew, holding the path it spawns. The extraction marker is trusted
  exactly when it can be read and the path it holds exists, executable or not. Then
  nothing is extracted and the path is set to mode \<open>0o755\<close>, which fails only when the
  calling user may not change its mode. Otherwise, once the extraction directory is
  there, the archive is extracted again, and when that succeeds the marker is written
  anew and the binary found is set to mode \<open>0o755\<close>.
\<close>

theorem marker_trust:
  "(readCachedBinary e fs f = Inr p \<longleftrightarrow>
      readFile fs f = Inr p \<and>
      (\<exists>n. lookupPath fs p = Some n \<and> mayExecute (caller e p) (modeOf n))) \<and>
   (readExtractedBinary fs d = Inr p \<longleftrightarrow>
      readFile fs (path_join d ''.extracted_binary_path'') = Inr p \<and> (\<exists>n. lookupPath fs p = Some n)) \<and>
   (mkdir (files w) (cacheDirOf e) = Inr fsa \<and> mkdir fsa (binDirOf e r v) = Inr fsb \<longrightarrow>
      (\<forall>q. readCachedBinary e fsb (cachedBinaryPathFileOf e r v) = Inr q \<longrightarrow>
         requests (snd (runAsset e w r v a args)) = requests w \<and>
         extractions (snd (runAsset e w r v a args)) = extractions w \<and>
         files (snd (runAsset e w r v a args)) = fsb \<and>
         spawns (snd (runAsset e w r v a args)) = spawns w @ [(q, args)]) \<and>
      (\<forall>err. readCachedBinary e fsb (cachedBinaryPathFileOf e r v) = Inl err \<longrightarrow>
         (needToDownload fsb (binaryPathOf e r v a) \<longrightarrow>
            (\<exists>rest. requests (snd (runAsset e w r v a args)) =
               requests w @ browser_download_url (matched a) # rest)) \<and>
         (\<not> needToDownload fsb (binaryPathOf e r v a) \<longrightarrow>
            requests (snd (runAsset e w r v a args)) = requests w) \<and>
         (spawns (snd (runAsset e w r v a args)) = spawns w \<or>
          (\<exists>x fsc. spawns (snd (runAsset e w r v a args)) = spawns w @ [(x, args)] \<and>
             writeFile fsc (cachedBinaryPathFileOf e r v) x =
               Inr (files (snd (runAsset e w r v a args))))))) \<and>
   (\<forall>q. readExtractedBinary (files w) xd = Inr q \<longrightarrow>
      extractions (snd (extractedExecutable e w k bp xd rn)) = extractions w \<and>
      (mayChmod (caller e q) \<longrightarrow>
         fst (extractedExecutable e w k bp xd rn) = Inr q \<and>
         chmod (files w) q 493 = Inr (files (snd (extractedExecutable e w k bp xd rn))) \<and>
         (\<exists>n. lookupPath (files (snd (extractedExecutable e w k bp xd rn))) q = Some n \<and>
              modeOf n = 493)) \<and>
      (\<not> mayChmod (caller e q) \<longrightarrow> extractedExecutable e w k bp xd rn = (Inl FsError, w))) \<and>
   (\<forall>err. readExtractedBinary (files w) xd = Inl err \<longrightarrow>
      (\<forall>fsa. mkdir (files w) xd = Inr fsa \<longrightarrow>
         extractions (snd (extractedExecutable e w k bp xd rn)) = extractions w @ [bp] \<and>
         (\<forall>x. fst (extractedExecutable e w k bp xd rn) = Inr x \<longrightarrow>
            (\<exists>fsc fsd. writeFile fsc (path_join xd ''.extracted_binary_path'') x = Inr fsd \<and>
                chmod fsd x 493 = Inr (files (snd (extractedExecutable e w k bp xd rn)))) \<and>
            (\<exists>n. lookupPath (files (snd (extractedExecutable e w k bp xd rn))) x = Some n \<and>
                 modeOf n = 493))) \<and>
      (\<forall>err1. mkdir (files w) xd = Inl err1 \<longrightarrow>
         extractedExecutable e w k bp xd rn = (Inl err1, w)))"
proof (intro conjI)
  show "readCachedBinary e fs f = Inr p \<longleftrightarrow>
      readFile fs f = Inr p \<and>
      (\<exists>n. lookupPath fs p = Some n \<and> mayExecute (caller e p) (modeOf n))"
    by (rule readCachedBinary_iff)
  show "readExtractedBinary fs d = Inr p \<longleftrightarrow>
      readFile fs (path_join d ''.extracted_binary_path'') = Inr p \<and> (\<exists>n. lookupPath fs p = Some n)"
    by (rule readExtractedBinary_iff)
  show "mkdir (files w) (cacheDirOf e) = Inr fsa \<and> mkdir fsa (binDirOf e r v) = Inr fsb \<longrightarrow>
      (\<forall>q. readCachedBinary e fsb (cachedBinaryPathFileOf e r v) = Inr q \<longrightarrow>
         requests (snd (runAsset e w r v a args)) = requests w \<and>
         extractions (snd (runAsset e w r v a args)) = extractions w \<and>
         files (snd (runAsset e w r v a args)) = fsb \<and>
         spawns (snd (runAsset e w r v a args)) = spawns w @ [(q, args)]) \<and>
      (\<forall>err. readCachedBinary e fsb (cachedBinaryPathFileOf e r v) = Inl err \<longrightarrow>
         (needToDownload fsb (binaryPathOf e r v a) \<longrightarrow>
            (\<exists>rest. requests (snd (runAsset e w r v a args)) =
               requests w @ browser_download_url (matched a) # rest)) \<and>
         (\<not> needToDownload fsb (binaryPathOf e r v a) \<longrightarrow>
            requests (snd (runAsset e w r v a args)) = requests w) \<and>
         (spawns (snd (runAsset e w r v a args)) = spawns w \<or>
          (\<exists>x fsc. spawns (snd (runAsset e w r v a args)) = spawns w @ [(x, args)] \<and>
             writeFile fsc (cachedBinaryPathFileOf e r v) x =
               Inr (files (snd (runAsset e w r v a args))))))"
  proof (rule impI, elim conjE, rule conjI; rule allI; rule impI)
    fix q
    assume m: "mkdir (files w) (cacheDirOf e) = Inr fsa" "mkdir fsa (binDirOf e r v) = Inr fsb"
      and t: "readCachedBinary e fsb (cachedBinaryPathFileOf e r v) = Inr q"
    from runAsset_trusted [OF m t, of a args] spawnAndWait_effects [of e "w \<lparr> files := fsb \<rparr>" q args]
    show "requests (snd (runAsset e w r v a args)) = requests w \<and>
         extractions (snd (runAsset e w r v a args)) = extractions w \<and>
         files (snd (runAsset e w r v a args)) = fsb \<and>
         spawns (snd (runAsset e w r v a args)) = spawns w @ [(q, args)]"
      by simp
  next
    fix err
    assume m: "mkdir (files w) (cacheDirOf e) = Inr fsa" "mkdir fsa (binDirOf e r v) = Inr fsb"
      and t: "readCachedBinary e fsb (cachedBinaryPathFileOf e r v) = Inl err"
    from runAsset_redone [OF m t]
    show "(needToDownload fsb (binaryPathOf e r v a) \<longrightarrow>
            (\<exists>rest. requests (snd (runAsset e w r v a args)) =
               requests w @ browser_download_url (matched a) # rest)) \<and>
         (\<not> needToDownload fsb (binaryPathOf e r v a) \<longrightarrow>
            requests (snd (runAsset e w r v a args)) = requests w) \<and>
         (spawns (snd (runAsset e w r v a args)) = spawns w \<or>
          (\<exists>x fsc. spawns (snd (runAsset e w r v a args)) = spawns w @ [(x, args)] \<and>
             writeFile fsc (cachedBinaryPathFileOf e r v) x =
               Inr (files (snd (runAsset e w r v a args)))))" .
  qed
  show "\<forall>q. readExtractedBinary (files w) xd = Inr q \<longrightarrow>
      extractions (snd (extractedExecutable e w k bp xd rn)) = extractions w \<and>
      (mayChmod (caller e q) \<longrightarrow>
         fst (extractedExecutable e w k bp xd rn) = Inr q \<and>
         chmod (files w) q 493 = Inr (files (snd (extractedExecutable e w k bp xd rn))) \<and>
         (\<exists>n. lookupPath (files (snd (extractedExecutable e w k bp xd rn))) q = Some n \<and>
              modeOf n = 493)) \<and>
      (\<not> mayChmod (caller e q) \<longrightarrow> extractedExecutable e w k bp xd rn = (Inl FsError, w))"
    using extractedExecutable_trusted by blast
  show "\<forall>err. readExtractedBinary (files w) xd = Inl err \<longrightarrow>
      (\<forall>fsa. mkdir (files w) xd = Inr fsa \<longrightarrow>
         extractions (snd (extractedExecutable e w k bp xd rn)) = extractions w @ [bp] \<and>
         (\<forall>x. fst (extractedExecutable e w k bp xd rn) = Inr x \<longrightarrow>
            (\<exists>fsc fsd. writeFile fsc (path_join xd ''.extracted_binary_path'') x = Inr fsd \<and>
                chmod fsd x 493 = Inr (files (snd (extractedExecutable e w k bp xd rn)))) \<and>
            (\<exists>n. lookupPath (files (snd (extractedExecutable e w k bp xd rn))) x = Some n \<and>
                 modeOf n = 493))) \<and>
      (\<forall>err1. mkdir (files w) xd = Inl err1 \<longrightarrow>
         extractedExecutable e w k bp xd rn = (Inl err1, w))"
    using extractedExecutable_redone extractedExecutable_mkdir_fails by blast
qed

theorem marker_trust_witness:
  "readFile cachedFiles ''/home/u/.binrun/cache/acme_widget_v1.2.0/.binary_path'' =
     Inr ''/home/u/.binrun/cache/acme_widget_v1.2.0/bin/widget'' \<and>
   lookupPath cachedFiles ''/home/u/.binrun/cache/acme_widget_v1.2.0/bin/widget'' =
     Some (File ''binary'' 493) \<and>
   mayExecute (caller scenarioEnv ''/home/u/.binrun/cache/acme_widget_v1.2.0/bin/widget'') 493 \<and>
   readCachedBinary scenarioEnv cachedFiles ''/home/u/.binrun/cache/acme_widget_v1.2.0/.binary_path'' =
     Inr ''/home/u/.binrun/cache/acme_widget_v1.2.0/bin/widget'' \<and>
   requests (snd (runAsset scenarioEnv cachedWorld \<lparr> owner = ''acme'', repo = ''widget'', version = ''v1.2.0'' \<rparr>
       (JStr ''v1.2.0'') \<lparr> matched = mkAsset ''widget_Darwin_arm64.tar.gz'', kind = IsTar \<rparr> [])) = [] \<and>
   extractions (snd (runAsset scenarioEnv cachedWorld \<lparr> owner = ''acme'', repo = ''widget'', version = ''v1.2.0'' \<rparr>
       (JStr ''v1.2.0'') \<lparr> matched = mkAsset ''widget_Darwin_arm64.tar.gz'', kind = IsTar \<rparr> [])) = [] \<and>
   files (snd (runAsset scenarioEnv cachedWorld \<lparr> owner = ''acme'', repo = ''widget'', version = ''v1.2.0'' \<rparr>
       (JStr ''v1.2.0'') \<lparr> matched = mkAsset ''widget_Darwin_arm64.tar.gz'', kind = IsTar \<rparr> [])) = cachedFiles \<and>
   spawns (snd (runAsset scenarioEnv cachedWorld \<lparr> owner = ''acme'', repo = ''widget'', version = ''v1.2.0'' \<rparr>
       (JStr ''v1.2.0'') \<lparr> matched = mkAsset ''widget_Darwin_arm64.tar.gz'', kind = IsTar \<rparr> [])) =
     [(''/home/u/.binrun/cache/acme_widget_v1.2.0/bin/widget'', [])] \<and>
   readCachedBinary scenarioEnv staleFiles ''/home/u/.binrun/cache/acme_widget_v1.2.0/.binary_path'' =
     Inl FsError \<and>
   \<not> needToDownload staleFiles ''/home/u/.binrun/cache/acme_widget_v1.2.0/widget_Darwin_arm64.tar.gz'' \<and>
   requests (snd (runAsset scenarioEnv staleWorld \<lparr> owner = ''acme'', repo = ''widget'', version = ''v1.2.0'' \<rparr>
       (JStr ''v1.2.0'') \<lparr> matched = mkAsset ''widget_Darwin_arm64.tar.gz'', kind = IsTar \<rparr> [])) = [] \<and>
   hd (requests (snd (runAsset scenarioEnv freshWorld \<lparr> owner = ''acme'', repo = ''widget'', version = ''v1.2.0'' \<rparr>
       (JStr ''v1.2.0'') \<lparr> matched = mkAsset ''widget_Darwin_arm64.tar.gz'', kind = IsTar \<rparr> []))) =
     ''https://dl.example/widget_Darwin_arm64.tar.gz'' \<and>
   readExtractedBinary (files staleWorld) ''/home/u/.binrun/cache/acme_widget_v1.2.0/bin'' =
     Inr ''/home/u/.binrun/cache/acme_widget_v1.2.0/bin/README.md'' \<and>
   mayChmod (caller scenarioEnv ''/home/u/.binrun/cache/acme_widget_v1.2.0/bin/README.md'') \<and>
   extractions (snd (extractedExecutable scenarioEnv staleWorld IsTar
       ''/home/u/.binrun/cache/acme_widget_v1.2.0/widget_Darwin_arm64.tar.gz''
       ''/home/u/.binrun/cache/acme_widget_v1.2.0/bin'' ''widget'')) = [] \<and>
   fst (extractedExecutable scenarioEnv staleWorld IsTar
       ''/home/u/.binrun/cache/acme_widget_v1.2.0/widget_Darwin_arm64.tar.gz''
       ''/home/u/.binrun/cache/acme_widget_v1.2.0/bin'' ''widget'') =
     Inr ''/home/u/.binrun/cache/acme_widget_v1.2.0/bin/README.md'' \<and>
   map_option modeOf (lookupPath (files (snd (extractedExecutable scenarioEnv staleWorld IsTar
       ''/home/u/.binrun/cache/acme_widget_v1.2.0/widget_Darwin_arm64.tar.gz''
       ''/home/u/.binrun/cache/acme_widget_v1.2.0/bin'' ''widget'')))
       ''/home/u/.binrun/cache/acme_widget_v1.2.0/bin/README.md'') = Some 493 \<and>
   \<not> mayChmod (caller othersEnv ''/home/u/.binrun/cache/acme_widget_v1.2.0/bin/README.md'') \<and>
   extractedExecutable othersEnv staleWorld IsTar
       ''/home/u/.binrun/cache/acme_widget_v1.2.0/widget_Darwin_arm64.tar.gz''
       ''/home/u/.binrun/cache/acme_widget_v1.2.0/bin'' ''widget'' = (Inl FsError, staleWorld) \<and>
   readExtractedBinary (files downloadedWorld) ''/home/u/.binrun/cache/acme_widget_v1.2.0/bin'' =
     Inl FsError \<and>
   extractions (snd (extractedExecutable scenarioEnv downloadedWorld IsTar
       ''/home/u/.binrun/cache/acme_widget_v1.2.0/widget_Darwin_arm64.tar.gz''
       ''/home/u/.binrun/cache/acme_widget_v1.2.0/bin'' ''widget'')) =
     [''/home/u/.binrun/cache/acme_widget_v1.2.0/widget_Darwin_arm64.tar.gz''] \<and>
   fst (extractedExecutable scenarioEnv downloadedWorld IsTar
       ''/home/u/.binrun/cache/acme_widget_v1.2.0/widget_Darwin_arm64.tar.gz''
       ''/home/u/.binrun/cache/acme_widget_v1.2.0/bin'' ''widget'') =
     Inr ''/home/u/.binrun/cache/acme_widget_v1.2.0/bin/widget'' \<and>
   map_option modeOf (lookupPath (files (snd (extractedExecutable scenarioEnv downloadedWorld IsTar
       ''/home/u/.binrun/cache/acme_widget_v1.2.0/widget_Darwin_arm64.tar.gz''
       ''/home/u/.binrun/cache/acme_widget_v1.2.0/bin'' ''widget'')))
       ''/home/u/.binrun/cache/acme_widget_v1.2.0/bin/widget'') = Some 493 \<and>
   mkdir (files staleWorld) ''/home/u/.binrun/cache/acme_widget_v1.2.0/bin/README.md'' = Inl FsError \<and>
   extractedExecutable scenarioEnv staleWorld IsTar
       ''/home/u/.binrun/cache/acme_widget_v1.2.0/widget_Darwin_arm64.tar.gz''
       ''/home/u/.binrun/cache/acme_widget_v1.2.0/bin/README.md'' ''widget'' = (Inl FsError, staleWorld)"
proof -
  let ?r = "\<lparr> owner = ''acme'', repo = ''widget'', version = ''v1.2.0'' \<rparr>"
  let ?v = "JStr ''v1.2.0''"
  let ?a = "\<lparr> matched = mkAsset ''widget_Darwin_arm64.tar.gz'', kind = IsTar \<rparr>"
  let ?M = "''/home/u/.binrun/cache/acme_widget_v1.2.0/.binary_path''"
  let ?P = "''/home/u/.binrun/cache/acme_widget_v1.2.0/bin/widget''"
  let ?RM = "''/home/u/.binrun/cache/acme_widget_v1.2.0/bin/README.md''"
  let ?XD = "''/home/u/.binrun/cache/acme_widget_v1.2.0/bin''"
  let ?BP = "''/home/u/.binrun/cache/acme_widget_v1.2.0/widget_Darwin_arm64.tar.gz''"
  let ?U = "''https://dl.example/widget_Darwin_arm64.tar.gz''"
  let ?F1 = "Dir [(''home'', Dir [(''u'', Dir [(''.binrun'', Dir [(''cache'', Dir [])])])])]"
  let ?F2 = "Dir [(''home'', Dir [(''u'', Dir [(''.binrun'', Dir [(''cache'',
      Dir [(''acme_widget_v1.2.0'', Dir [])])])])])]"
  let ?F3 = "Dir [(''home'', Dir [(''u'', Dir [(''.binrun'', Dir [(''cache'', Dir [(''acme_widget_v1.2.0'',
      Dir [(''widget_Darwin_arm64.tar.gz'', File ''tarball'' 420), (''bin'', Dir [])])])])])])]"
  have mp: "cachedBinaryPathFileOf scenarioEnv ?r ?v = ?M" by code_simp
  have bp: "binaryPathOf scenarioEnv ?r ?v ?a = ?BP" by code_simp
  have url: "browser_download_url (matched ?a) = ?U" by code_simp
  have rf: "readFile cachedFiles ?M = Inr ?P" by code_simp
  have lk: "lookupPath cachedFiles ?P = Some (File ''binary'' 493)" by code_simp
  have ex: "mayExecute (caller scenarioEnv ?P) 493" by code_simp
  have c1: "mkdir (files cachedWorld) (cacheDirOf scenarioEnv) = Inr cachedFiles" by code_simp
  have c2: "mkdir cachedFiles (binDirOf scenarioEnv ?r ?v) = Inr cachedFiles" by code_simp
  have s1: "mkdir (files staleWorld) (cacheDirOf scenarioEnv) = Inr staleFiles" by code_simp
  have s2: "mkdir staleFiles (binDirOf scenarioEnv ?r ?v) = Inr staleFiles" by code_simp
  have sm: "readCachedBinary scenarioEnv staleFiles ?M = Inl FsError" by code_simp
  have sn: "\<not> needToDownload staleFiles ?BP" by code_simp
  have f1: "mkdir (files freshWorld) (cacheDirOf scenarioEnv) = Inr ?F1" by code_simp
  have f2: "mkdir ?F1 (binDirOf scenarioEnv ?r ?v) = Inr ?F2" by code_simp
  have fm: "readCachedBinary scenarioEnv ?F2 ?M = Inl FsError" by code_simp
  have fn: "needToDownload ?F2 ?BP" by code_simp
  have se: "readExtractedBinary (files staleWorld) ?XD = Inr ?RM" by code_simp
  have so: "mayChmod (caller scenarioEnv ?RM)" by code_simp
  have oo: "\<not> mayChmod (caller othersEnv ?RM)" by code_simp
  have de: "readExtractedBinary (files downloadedWorld) ?XD = Inl FsError" by code_simp
  have dm: "mkdir (files downloadedWorld) ?XD = Inr ?F3" by code_simp
  have df: "fst (extractedExecutable scenarioEnv downloadedWorld IsTar ?BP ?XD ''widget'') = Inr ?P"
    by code_simp
  have re: "readExtractedBinary (files staleWorld) ?RM = Inl FsError" by code_simp
  have rm: "mkdir (files staleWorld) ?RM = Inl FsError" by code_simp
  have w0: "requests cachedWorld = []" "extractions cachedWorld = []" "spawns cachedWorld = []"
    "requests staleWorld = []" "extractions staleWorld = []" "requests freshWorld = []"
    "extractions downloadedWorld = []"
    by (simp_all add: cachedWorld_def staleWorld_def freshWorld_def downloadedWorld_def)
  note t1 = marker_trust [where e = scenarioEnv and fs = cachedFiles and f = ?M and p = ?P
      and w = cachedWorld and fsa = cachedFiles and fsb = cachedFiles
      and r = ?r and v = ?v and a = ?a and args = "[]"]
  from t1 rf lk ex have 1: "readCachedBinary scenarioEnv cachedFiles ?M = Inr ?P" by auto
  from t1 c1 c2 1 mp w0 have 2:
    "requests (snd (runAsset scenarioEnv cachedWorld ?r ?v ?a [])) = [] \<and>
     extractions (snd (runAsset scenarioEnv cachedWorld ?r ?v ?a [])) = [] \<and>
     files (snd (runAsset scenarioEnv cachedWorld ?r ?v ?a [])) = cachedFiles \<and>
     spawns (snd (runAsset scenarioEnv cachedWorld ?r ?v ?a [])) = [(?P, [])]"
    by auto
  note t2 = marker_trust [where e = scenarioEnv and w = staleWorld and fsa = staleFiles and fsb = staleFiles
      and r = ?r and v = ?v and a = ?a and args = "[]"
      and xd = ?XD and k = IsTar and bp = ?BP and rn = "''widget''"]
  from t2 s1 s2 sm sn mp bp w0 have 3:
    "requests (snd (runAsset scenarioEnv staleWorld ?r ?v ?a [])) = []"
    by auto
  from t2 se so w0 have 4:
    "extractions (snd (extractedExecutable scenarioEnv staleWorld IsTar ?BP ?XD ''widget'')) = [] \<and>
     fst (extractedExecutable scenarioEnv staleWorld IsTar ?BP ?XD ''widget'') = Inr ?RM \<and>
     map_option modeOf (lookupPath (files (snd (extractedExecutable scenarioEnv staleWorld IsTar ?BP ?XD
       ''widget''))) ?RM) = Some 493"
    by auto
  note t3 = marker_trust [where e = scenarioEnv and w = freshWorld and fsa = ?F1 and fsb = ?F2
      and r = ?r and v = ?v and a = ?a and args = "[]",
      THEN conjunct2, THEN conjunct2, THEN conjunct1]
  from t3 f1 f2 fm fn mp bp url w0 have 5:
    "hd (requests (snd (runAsset scenarioEnv freshWorld ?r ?v ?a []))) = ?U"
    by auto
  note t4 = marker_trust [where e = othersEnv and w = staleWorld
      and xd = ?XD and k = IsTar and bp = ?BP and rn = "''widget''",
      THEN conjunct2, THEN conjunct2, THEN conjunct2, THEN conjunct1]
  from t4 se oo have 6:
    "extractedExecutable othersEnv staleWorld IsTar ?BP ?XD ''widget'' = (Inl FsError, staleWorld)"
    by auto
  note t5 = marker_trust [where e = scenarioEnv and w = downloadedWorld
      and xd = ?XD and k = IsTar and bp = ?BP and rn = "''widget''",
      THEN conjunct2, THEN conjunct2, THEN conjunct2, THEN conjunct2]
  from t5 de dm df w0 have 7:
    "extractions (snd (extractedExecutable scenarioEnv downloadedWorld IsTar ?BP ?XD ''widget'')) = [?BP] \<and>
     map_option modeOf (lookupPath (files (snd (extractedExecutable scenarioEnv downloadedWorld IsTar ?BP ?XD
       ''widget''))) ?P) = Some 493"
    by auto
  note t6 = marker_trust [where e = scenarioEnv and w = staleWorld
      and xd = ?RM and k = IsTar and bp = ?BP and rn = "''widget''",
      THEN conjunct2, THEN conjunct2, THEN conjunct2, THEN conjunct2]
  from t6 re rm have 8:
    "extractedExecutable scenarioEnv staleWorld IsTar ?BP ?RM ''widget'' = (Inl FsError, staleWorld)"
    by auto
  from rf lk ex 1 2 sm sn 3 5 se so 4 oo 6 de 7 df rm 8 show ?thesis by simp
qed

end
